(* ===== verification/Signer_Prelude.thy ===== *)
theory Signer_Prelude
  imports Main "HOL-Library.Word" "HOL-Library.AList"
begin

text \<open>
  Shared vocabulary of the development: Rust integers as words, byte strings,
  \<open>Result\<close> as a sum type with its sequencing operator, the checked and
  saturating integer operations of the standard library, big- and little-endian
  byte strings, and hash maps as association lists.

  The release profile of the workspace does not enable overflow checks, so
  plain \<open>+\<close> and \<open>-\<close> on \<open>u32\<close>/\<open>u64\<close> are the wrapping operations of
  \<open>'a word\<close>; \<open>checked_*\<close> and \<open>saturating_*\<close> are written out below.
\<close>

unbundle bit_operations_syntax

subsection \<open>Types\<close>

type_synonym u8 = "8 word"
type_synonym u32 = "32 word"
type_synonym u64 = "64 word"
type_synonym u128 = "128 word"
type_synonym u256 = "256 word"
type_synonym bytes = "8 word list"
type_synonym ('e, 'a) result = "'e + 'a"

text \<open>An \<open>Instant\<close> is the number of nanoseconds since an arbitrary origin and a
  \<open>Duration\<close> is a number of nanoseconds; \<open>saturating_duration_since\<close> is the
  truncating subtraction of \<open>nat\<close>.\<close>

type_synonym instant = nat
type_synonym duration = nat

text \<open>A \<open>SystemTime\<close> is a number of nanoseconds from the Unix epoch, negative before it;
  \<open>duration_since(UNIX_EPOCH)\<close> fails there and is whole seconds afterwards.\<close>

type_synonym system_time = int

definition unix_secs :: "system_time \<Rightarrow> u64 option" where
  "unix_secs now = (if now < 0 then None else Some (of_int (now div 1000000000)))"

definition from_secs :: "nat \<Rightarrow> duration" where
  "from_secs s = s * 1000000000"

subsection \<open>Results\<close>

named_theorems result_simps "what a sequenced computation returns"

definition and_then :: "('e, 'a) result \<Rightarrow> ('a \<Rightarrow> ('e, 'b) result) \<Rightarrow> ('e, 'b) result" where
  "and_then r f = (case r of Inl e \<Rightarrow> Inl e | Inr x \<Rightarrow> f x)"

definition require :: "bool \<Rightarrow> 'e \<Rightarrow> ('e, unit) result" where
  "require b e = (if b then Inr () else Inl e)"

definition ok_or :: "'a option \<Rightarrow> 'e \<Rightarrow> ('e, 'a) result" where
  "ok_or r e = (case r of None \<Rightarrow> Inl e | Some x \<Rightarrow> Inr x)"

definition map_err :: "('e \<Rightarrow> 'f) \<Rightarrow> ('e, 'a) result \<Rightarrow> ('f, 'a) result" where
  "map_err f r = (case r of Inl e \<Rightarrow> Inl (f e) | Inr x \<Rightarrow> Inr x)"

definition is_ok :: "('e, 'a) result \<Rightarrow> bool" where
  "is_ok r = (case r of Inl _ \<Rightarrow> False | Inr _ \<Rightarrow> True)"

text \<open>\<open>for x in xs { f(x)?; }\<close>: stops at the first error.\<close>

fun for_each :: "('a \<Rightarrow> ('e, unit) result) \<Rightarrow> 'a list \<Rightarrow> ('e, unit) result" where
  "for_each f [] = Inr ()"
| "for_each f (x # xs) = and_then (f x) (\<lambda>_. for_each f xs)"

text \<open>\<open>xs.iter().map(f).collect::<Result<Vec<_>>>()\<close>.\<close>

fun collect_map :: "('a \<Rightarrow> ('e, 'b) result) \<Rightarrow> 'a list \<Rightarrow> ('e, 'b list) result" where
  "collect_map f [] = Inr []"
| "collect_map f (x # xs) =
    and_then (f x) (\<lambda>y. and_then (collect_map f xs) (\<lambda>ys. Inr (y # ys)))"

lemma and_then_simps [simp, result_simps]:
  "and_then (Inl e) f = Inl e"
  "and_then (Inr x) f = f x"
  by (simp_all add: and_then_def)

lemma and_then_Inr [result_simps]:
  "and_then r f = Inr y \<longleftrightarrow> (\<exists>x. r = Inr x \<and> f x = Inr y)"
  by (cases r) auto

lemma and_then_Inl [result_simps]:
  "and_then r f = Inl e \<longleftrightarrow> r = Inl e \<or> (\<exists>x. r = Inr x \<and> f x = Inl e)"
  by (cases r) auto

lemma and_then_assoc:
  "and_then (and_then r f) g = and_then r (\<lambda>x. and_then (f x) g)"
  by (cases r) auto

lemma and_then_cong [fundef_cong]:
  "r = r' \<Longrightarrow> (\<And>x. r' = Inr x \<Longrightarrow> f x = f' x) \<Longrightarrow> and_then r f = and_then r' f'"
  by (cases r') simp_all

lemma require_Inr [simp, result_simps]: "require b e = Inr u \<longleftrightarrow> b"
  by (simp add: require_def)

lemma require_Inl [simp, result_simps]: "require b e = Inl e' \<longleftrightarrow> \<not> b \<and> e' = e"
  by (auto simp: require_def)

lemma require_simps [simp]: "require True e = Inr ()" "require False e = Inl e"
  by (simp_all add: require_def)

lemma ok_or_Inr [simp, result_simps]: "ok_or r e = Inr x \<longleftrightarrow> r = Some x"
  by (simp add: ok_or_def split: option.split)

lemma ok_or_Inl [simp, result_simps]: "ok_or r e = Inl e' \<longleftrightarrow> r = None \<and> e' = e"
  by (auto simp: ok_or_def split: option.split)

lemma ok_or_simps [simp]: "ok_or (Some x) e = Inr x" "ok_or None e = Inl e"
  by (simp_all add: ok_or_def)

lemma map_err_Inr [simp, result_simps]: "map_err f r = Inr x \<longleftrightarrow> r = Inr x"
  by (simp add: map_err_def split: sum.split)

lemma map_err_Inl [result_simps]: "map_err f r = Inl e \<longleftrightarrow> (\<exists>e'. r = Inl e' \<and> e = f e')"
  by (auto simp: map_err_def split: sum.split)

lemma map_err_simps [simp]: "map_err f (Inr x) = Inr x" "map_err f (Inl e) = Inl (f e)"
  by (simp_all add: map_err_def)

lemma is_ok_simps [simp]: "is_ok (Inr x)" "\<not> is_ok (Inl e)"
  by (simp_all add: is_ok_def)

lemma is_ok_iff: "is_ok r \<longleftrightarrow> (\<exists>x. r = Inr x)"
  by (cases r) auto

lemma for_each_Inr [result_simps]:
  "for_each f xs = Inr u \<longleftrightarrow> (\<forall>x\<in>set xs. f x = Inr ())"
  by (induction xs) (auto simp: and_then_Inr)

lemma collect_map_Inr [result_simps]:
  "collect_map f xs = Inr ys \<longleftrightarrow> list_all2 (\<lambda>x y. f x = Inr y) xs ys"
  by (induction xs arbitrary: ys) (auto simp: and_then_Inr list_all2_Cons1)

lemma collect_map_all:
  "(\<And>x. x \<in> set xs \<Longrightarrow> f x = Inr (g x)) \<Longrightarrow> collect_map f xs = Inr (map g xs)"
  by (induction xs) auto

subsection \<open>Integer operations of the standard library\<close>

named_theorems int_ops "values of the checked and saturating operations"

definition checked_add :: "'a::len word \<Rightarrow> 'a word \<Rightarrow> 'a word option" where
  "checked_add a b = (if unat a + unat b < 2 ^ LENGTH('a) then Some (a + b) else None)"

definition checked_sub :: "'a::len word \<Rightarrow> 'a word \<Rightarrow> 'a word option" where
  "checked_sub a b = (if b \<le> a then Some (a - b) else None)"

definition saturating_add :: "'a::len word \<Rightarrow> 'a word \<Rightarrow> 'a word" where
  "saturating_add a b = (if unat a + unat b < 2 ^ LENGTH('a) then a + b else - 1)"

definition saturating_sub :: "'a::len word \<Rightarrow> 'a word \<Rightarrow> 'a word" where
  "saturating_sub a b = (if b \<le> a then a - b else 0)"

lemma checked_add_Some [int_ops]:
  "checked_add a b = Some (c :: 'a::len word) \<longleftrightarrow>
   c = a + b \<and> unat c = unat a + unat b"
  by (auto simp: checked_add_def unat_add_lem split: if_splits)

lemma checked_add_None [int_ops]:
  "checked_add a (b :: 'a::len word) = None \<longleftrightarrow> 2 ^ LENGTH('a) \<le> unat a + unat b"
  by (auto simp: checked_add_def)

lemma checked_add_one: "checked_add a 1 = Some b \<Longrightarrow> unat b = Suc (unat a)"
  by (metis Suc_eq_plus1 checked_add_Some unat_1)

lemma checked_sub_Some [int_ops]:
  "checked_sub a b = Some (c :: 'a::len word) \<longleftrightarrow> b \<le> a \<and> c = a - b"
  by (auto simp: checked_sub_def)

lemma unat_inc: "a < b \<Longrightarrow> unat (a + 1) = Suc (unat a)" for a b :: "'a::len word"
proof -
  assume "a < b"
  moreover have "unat b < 2 ^ LENGTH('a)" by (rule unsigned_less)
  ultimately have "unat a + unat (1 :: 'a word) < 2 ^ LENGTH('a)"
    unfolding word_less_nat_alt unat_1 by linarith
  then show ?thesis by (simp add: unat_add_lem [THEN iffD1])
qed

lemma unat_u32_less: "unat (x :: u32) < 2 ^ 32"
proof -
  have "unat x < 2 ^ LENGTH(32)" by (rule unsigned_less)
  then show ?thesis by simp
qed

lemma unat_ucast_u64 [simp]: "unat (ucast (x :: u32) :: u64) = unat x"
proof -
  have "unat x < 2 ^ 64"
    using unat_u32_less [of x] by simp
  then show ?thesis
    by (simp add: unsigned_ucast_eq take_bit_nat_eq_self)
qed

lemma unat_ucast_u8 [simp]: "unat (ucast (l :: u8) :: u64) = unat l"
  proof -
  have "unat l < 2 ^ LENGTH(8)" by (rule unsigned_less)
  then show ?thesis by (simp add: unsigned_ucast_eq take_bit_nat_eq_self)
qed

lemma unat_saturating_sub [int_ops]: "unat (saturating_sub a b) = unat a - unat b"
  by (auto simp: saturating_sub_def unat_sub word_le_nat_alt)

lemma unat_saturating_add [int_ops]:
  "unat (saturating_add a (b :: 'a::len word)) = min (unat a + unat b) (2 ^ LENGTH('a) - 1)"
proof (cases "unat a + unat b < 2 ^ LENGTH('a)")
  case True
  then show ?thesis
    by (simp add: saturating_add_def unat_add_lem [THEN iffD1])
next
  case False
  then show ?thesis
    by (simp add: saturating_add_def unsigned_minus_1_eq_mask mask_eq_exp_minus_1)
qed

subsection \<open>Byte strings as numbers\<close>

definition be_nat :: "bytes \<Rightarrow> nat" where
  "be_nat bs = foldl (\<lambda>v b. v * 256 + unat b) 0 bs"

fun nat_be :: "nat \<Rightarrow> nat \<Rightarrow> bytes" where
  "nat_be 0 v = []"
| "nat_be (Suc n) v = nat_be n (v div 256) @ [of_nat v]"

fun le_nat :: "bytes \<Rightarrow> nat" where
  "le_nat [] = 0"
| "le_nat (b # bs) = unat b + 256 * le_nat bs"

fun nat_le :: "nat \<Rightarrow> nat \<Rightarrow> bytes" where
  "nat_le 0 v = []"
| "nat_le (Suc n) v = of_nat v # nat_le n (v div 256)"

lemma unat_byte_lt: "unat (b :: u8) < 256"
proof -
  have "unat b < 2 ^ LENGTH(8)" by (rule unsigned_less)
  then show ?thesis by simp
qed

lemma unat_of_nat_byte [simp]: "unat (of_nat v :: u8) = v mod 256"
  by (simp add: unat_of_nat)

lemma be_nat_Nil [simp]: "be_nat [] = 0"
  by (simp add: be_nat_def)

lemma be_nat_snoc [simp]: "be_nat (bs @ [b]) = be_nat bs * 256 + unat b"
  by (simp add: be_nat_def)

lemma be_nat_append: "be_nat (xs @ ys) = be_nat xs * 256 ^ length ys + be_nat ys"
proof (induction ys rule: rev_induct)
  case (snoc y ys)
  have "be_nat (xs @ ys @ [y]) = be_nat (xs @ ys) * 256 + unat y"
    by (simp add: be_nat_def)
  with snoc show ?case by (simp add: algebra_simps)
qed simp

lemma be_nat_Cons: "be_nat (b # bs) = unat b * 256 ^ length bs + be_nat bs"
  using be_nat_append [of "[b]" bs] by (simp add: be_nat_def)

lemma be_nat_less: "be_nat bs < 256 ^ length bs"
proof (induction bs rule: rev_induct)
  case (snoc b bs)
  have "unat b < 256" by (rule unat_byte_lt)
  with snoc show ?case by simp
qed simp

lemma length_nat_be [simp]: "length (nat_be n v) = n"
  by (induction n v rule: nat_be.induct) simp_all

lemma be_nat_nat_be: "be_nat (nat_be n v) = v mod 256 ^ n"
proof (induction n v rule: nat_be.induct)
  case (2 n v)
  have "(v div 256) mod 256 ^ n * 256 + v mod 256 = v mod (256 * 256 ^ n)"
    by (simp add: mod_mult2_eq)
  with 2 show ?case by simp
qed simp

lemma nat_be_be_nat [simp]: "nat_be (length bs) (be_nat bs) = bs"
proof (induction bs rule: rev_induct)
  case (snoc b bs)
  have "(of_nat (be_nat bs * 256 + unat b) :: u8) = b"
  proof -
    have "unat (of_nat (be_nat bs * 256 + unat b) :: u8) = unat b"
      by (simp add: mod_less [OF unat_byte_lt] del: of_nat_add of_nat_mult)
    then show ?thesis by (metis word_unat_eq_iff)
  qed
  moreover have "(be_nat bs * 256 + unat b) div 256 = be_nat bs"
    using unat_byte_lt [of b] by simp
  ultimately show ?case using snoc by (simp del: of_nat_add of_nat_mult)
qed simp

lemma be_nat_inject: "length xs = length ys \<Longrightarrow> be_nat xs = be_nat ys \<Longrightarrow> xs = ys"
  by (metis nat_be_be_nat)

lemma length_nat_le [simp]: "length (nat_le n v) = n"
  by (induction n v rule: nat_le.induct) simp_all

lemma le_nat_nat_le: "le_nat (nat_le n v) = v mod 256 ^ n"
  by (induction n v rule: nat_le.induct) (simp_all add: mod_mult2_eq)

lemma le_nat_less: "le_nat bs < 256 ^ length bs"
proof (induction bs)
  case (Cons b bs)
  have "unat b < 256" by (rule unat_byte_lt)
  with Cons show ?case by simp
qed simp

text \<open>The loop \<open>v = (v << 8) | b\<close> over the bytes of a big-endian number.\<close>

definition fold_be :: "bytes \<Rightarrow> 'a::len word" where
  "fold_be s = foldl (\<lambda>v b. push_bit 8 v OR ucast b) 0 s"

lemma shift_or_byte:
  fixes v :: "'a::len word"
  assumes "8 < LENGTH('a)" "unat v * 256 + unat b < 2 ^ LENGTH('a)"
  shows "unat (push_bit 8 v OR ucast (b :: u8)) = unat v * 256 + unat b"
proof -
  have "push_bit 8 v AND ucast b = (0 :: 'a word)"
    by (rule bit_word_eqI) (auto simp: bit_simps dest: bit_imp_le_length)
  then have or: "push_bit 8 v OR ucast b = push_bit 8 v + (ucast b :: 'a word)"
    by (simp add: disjunctive_add_eq_or)
  have "(2 :: nat) ^ 8 < 2 ^ LENGTH('a)" using assms(1) by (intro power_strict_increasing) simp_all
  then have sh: "unat (push_bit 8 v) = unat v * 256"
    using assms(2) by (simp add: push_bit_eq_mult unat_word_ariths take_bit_nat_eq_self)
  have "unat (ucast b :: 'a word) = unat b"
    using assms(2) by (simp add: unsigned_ucast_eq take_bit_nat_eq_self)
  then show ?thesis unfolding or using assms(2) sh by (simp add: unat_add_lem [THEN iffD1])
qed

lemma unat_fold_be:
  assumes "8 < LENGTH('a)" "256 ^ length s \<le> (2 :: nat) ^ LENGTH('a)"
  shows "unat (fold_be s :: 'a::len word) = be_nat s"
  using assms(2)
proof (induction s rule: rev_induct)
  case Nil
  then show ?case by (simp add: fold_be_def)
next
  case (snoc b s)
  have "(256 :: nat) ^ length s \<le> 256 ^ length (s @ [b])" by (intro power_increasing) simp_all
  then have IH: "unat (fold_be s :: 'a word) = be_nat s" using snoc by linarith
  have "be_nat s * 256 + unat b < 2 ^ LENGTH('a)"
    using be_nat_less [of "s @ [b]"] snoc.prems by (simp del: length_append)
  then show ?case using shift_or_byte [OF assms(1), of "fold_be s" b] IH by (simp add: fold_be_def)
qed

subsection \<open>Slices\<close>

text \<open>\<open>xs[i..j]\<close>; the callers check \<open>i \<le> j \<le> len\<close> before they slice.\<close>

definition sub_slice :: "'a list \<Rightarrow> nat \<Rightarrow> nat \<Rightarrow> 'a list" where
  "sub_slice xs i j = take (j - i) (drop i xs)"

lemma length_sub_slice [simp]: "length (sub_slice xs i j) = min (j - i) (length xs - i)"
  by (simp add: sub_slice_def)

lemma sub_slice_shorter: "xs \<noteq> [] \<Longrightarrow> k < i \<Longrightarrow> Suc (2 * length (sub_slice xs i j)) < 2 * length xs"
  by (cases xs) auto

subsection \<open>Hash maps\<close>

text \<open>A \<open>HashMap\<close> is an association list read with \<^const>\<open>map_of\<close> and changed with
  \<^const>\<open>AList.update\<close> and \<^const>\<open>AList.delete\<close>; no operation of the program
  observes the order of its entries.\<close>

lemma map_of_eq_None_keys: "map_of al k = None \<longleftrightarrow> k \<notin> fst ` set al"
  by (simp add: map_of_eq_None_iff)

lemma length_eq_if_same_keys:
  "distinct (map fst al) \<Longrightarrow> distinct ks \<Longrightarrow> fst ` set al = set ks \<Longrightarrow> length al = length ks"
  by (metis distinct_card length_map set_map)

lemma set_delete: "set (AList.delete k al) = {(k', v) \<in> set al. k' \<noteq> k}"
  by (auto simp: AList.delete_eq)

lemma keys_delete [simp]: "fst ` set (AList.delete k al) = fst ` set al - {k}"
  by (metis AList.delete_keys set_map set_removeAll)

lemma distinct_fst_delete [simp]:
  "distinct (map fst al) \<Longrightarrow> distinct (map fst (AList.delete k al))"
  by (simp add: AList.delete_keys distinct_removeAll)

lemma distinct_snd_delete [simp]:
  "distinct (map snd al) \<Longrightarrow> distinct (map snd (AList.delete k al))"
  by (simp add: AList.delete_eq distinct_map_filter)

lemma set_update_fresh:
  "k \<notin> fst ` set al \<Longrightarrow> AList.update k v al = al @ [(k, v)]"
  by (induction al) auto

lemma delete_filter: "AList.delete k al = filter (\<lambda>(k', _). k' \<noteq> k) al"
  by (auto simp: AList.delete_eq intro!: filter_cong)

lemma map_of_filter_key:
  "map_of (filter (\<lambda>(k', _). P k') al) k = (if P k then map_of al k else None)"
  by (induction al) auto

lemma distinct_fst_filter: "distinct (map fst al) \<Longrightarrow> distinct (map fst (filter P al))"
  by (rule distinct_map_filter)

subsection \<open>Queues\<close>

lemma in_dropWhileI: "x \<in> set xs \<Longrightarrow> \<not> P x \<Longrightarrow> x \<in> set (dropWhile P xs)"
  by (induction xs) auto

lemma set_takeWhile_conv: "x \<in> set (takeWhile P xs) \<Longrightarrow> P x"
  by (auto dest: set_takeWhileD)

end
