(* ===== verification/Enclave_Error.thy ===== *)
theory Enclave_Error
  imports Signer_Prelude
begin

text \<open>
  The error type of the enclave and its wire codes (\<open>enclave/src/error.rs\<close>).
  The payload of an error that carries a message is a short key of that message:
  the interpolated values of the Rust format strings are not kept, because no
  code path reads a message back.
\<close>

datatype custody_failure =
  Configuration | AccessDenied | Unavailable | InvalidCiphertext
| KeyOrCiphertext | InvalidResponse | CustodyInternal

datatype evm_finality_tag = Latest | Safe | Finalized

datatype enclave_error =
  Custody string custody_failure
| KeyNotInitialized
| AlreadyInitialized
| InvalidKey string
| InvalidRequest string
| Framing string
| ProtobufDecode string
| Io string
| Signing string
| CrossCheck string
| EvmFinalityPending u64 evm_finality_tag u64
| Internal string
| NotReady string
| Attestation string
| Certificate string
| Clone string
| PcrMismatch u32 string string
| NonceReplay
| ExportCapReached u64 u64
| DigestMismatch
| PubkeyMismatch
| IdentityMismatch
| Spv string

type_synonym 'a enclave_result = "(enclave_error, 'a) result"

fun error_code :: "enclave_error \<Rightarrow> u32" where
  "error_code (Custody _ Unavailable) = 2"
| "error_code (CrossCheck _) = 3"
| "error_code (Spv _) = 3"
| "error_code (NotReady _) = 2"
| "error_code (EvmFinalityPending _ _ _) = 8"
| "error_code _ = 1"

fun clone_error_code :: "enclave_error \<Rightarrow> u32" where
  "clone_error_code (InvalidRequest _) = 4"
| "clone_error_code DigestMismatch = 5"
| "clone_error_code PubkeyMismatch = 5"
| "clone_error_code (Attestation _) = 5"
| "clone_error_code (Certificate _) = 5"
| "clone_error_code (PcrMismatch _ _ _) = 5"
| "clone_error_code NonceReplay = 6"
| "clone_error_code (ExportCapReached _ _) = 7"
| "clone_error_code KeyNotInitialized = 3"
| "clone_error_code e = error_code e"

text \<open>Code 2 and code 8 are the codes a caller may retry on: they are given to the
  waiting states and to nothing else.\<close>

definition is_retryable :: "enclave_error \<Rightarrow> bool" where
  "is_retryable e = (case e of NotReady _ \<Rightarrow> True | EvmFinalityPending _ _ _ \<Rightarrow> True
     | Custody _ Unavailable \<Rightarrow> True | _ \<Rightarrow> False)"

lemma error_code_retryable: "error_code e \<in> {2, 8} \<longleftrightarrow> is_retryable e"
  by (cases e rule: error_code.cases) (auto simp: is_retryable_def)

lemma clone_error_code_retryable: "clone_error_code e \<in> {2, 8} \<longleftrightarrow> is_retryable e"
  by (cases e rule: clone_error_code.cases)
    (auto simp: is_retryable_def split: custody_failure.splits)

end
