(* ===== verification/Replay_Guard.thy ===== *)
theory Replay_Guard
  imports Enclave_Error
begin

text \<open>
  The replay guard for attestation nonces and bridge operations
  (\<open>enclave/src/state/replay_guard.rs\<close>): a bounded, expiring set of keys with
  reservations that roll back when they are dropped without a commit. The mutex
  serialises the operations; a panic aborts the process, so the poisoned-lock
  branches are not reachable and are left out.

  The lemmas show that the map and the queue agree in every reachable state,
  that a live key is refused, that a free key is admitted, and that a stale
  rollback cannot remove a replacement reservation.
\<close>

definition DEFAULT_NONCE_TTL :: duration where
  "DEFAULT_NONCE_TTL = from_secs (60 * 60)"

definition DEFAULT_NONCE_MAX :: nat where
  "DEFAULT_NONCE_MAX = 10000"

definition DEFAULT_OP_DEDUP_TTL :: duration where
  "DEFAULT_OP_DEDUP_TTL = from_secs (60 * 60)"

definition DEFAULT_OP_DEDUP_MAX :: nat where
  "DEFAULT_OP_DEDUP_MAX = 100000"

record guard_state =
  seen :: "(bytes \<times> u64) list"
  next_generation :: u64
  order :: "(instant \<times> bytes) list"

record nonce_replay_guard =
  inner :: guard_state
  guard_max :: nat
  guard_ttl :: duration

definition with_capacity :: "nat \<Rightarrow> duration \<Rightarrow> nonce_replay_guard" where
  "with_capacity mx ttl =
    \<lparr>inner = \<lparr>seen = [], next_generation = 0, order = []\<rparr>, guard_max = mx, guard_ttl = ttl\<rparr>"

definition guard_check :: "nonce_replay_guard \<Rightarrow> bytes \<Rightarrow> instant \<Rightarrow> unit enclave_result" where
  "guard_check g nonce now =
    (if map_of (seen (inner g)) nonce \<noteq> None
        \<and> list_ex (\<lambda>(seen_at, key). key = nonce \<and> now - seen_at < guard_ttl g) (order (inner g))
     then Inl NonceReplay
     else Inr ())"

text \<open>The two eviction loops of \<open>check_and_record_at\<close>, over the map and the queue.\<close>

fun evict_expired ::
  "duration \<Rightarrow> instant \<Rightarrow> (bytes \<times> 'v) list \<Rightarrow> (instant \<times> bytes) list
    \<Rightarrow> (bytes \<times> 'v) list \<times> (instant \<times> bytes) list" where
  "evict_expired ttl now sn [] = (sn, [])"
| "evict_expired ttl now sn ((seen_at, old) # rest) =
    (if ttl \<le> now - seen_at
     then evict_expired ttl now (AList.delete old sn) rest
     else (sn, (seen_at, old) # rest))"

fun evict_oldest ::
  "nat \<Rightarrow> (bytes \<times> 'v) list \<Rightarrow> (instant \<times> bytes) list
    \<Rightarrow> (bytes \<times> 'v) list \<times> (instant \<times> bytes) list" where
  "evict_oldest mx sn [] = (sn, [])"
| "evict_oldest mx sn ((seen_at, old) # rest) =
    (if mx \<le> length sn
     then evict_oldest mx (AList.delete old sn) rest
     else (sn, (seen_at, old) # rest))"

definition check_and_record_at ::
  "nonce_replay_guard \<Rightarrow> bytes \<Rightarrow> instant \<Rightarrow> u64 enclave_result \<times> nonce_replay_guard" where
  "check_and_record_at g nonce now =
    (let (sn, ord) = evict_expired (guard_ttl g) now (seen (inner g)) (order (inner g));
         st = (inner g)\<lparr>seen := sn, order := ord\<rparr>
     in if map_of sn nonce \<noteq> None then (Inl NonceReplay, g\<lparr>inner := st\<rparr>)
        else case checked_add (next_generation st) 1 of
          None \<Rightarrow> (Inl (Internal ''replay reservation generation exhausted''), g\<lparr>inner := st\<rparr>)
        | Some nxt \<Rightarrow>
            (let (sn', ord') = evict_oldest (guard_max g) sn ord
             in (Inr (next_generation st),
                 g\<lparr>inner := \<lparr>seen = AList.update nonce (next_generation st) sn',
                             next_generation = nxt,
                             order = ord' @ [(now, nonce)]\<rparr>\<rparr>)))"

record replay_reservation =
  res_nonce :: bytes
  generation :: u64
  committed :: bool

definition reserve_at ::
  "nonce_replay_guard \<Rightarrow> bytes \<Rightarrow> instant
    \<Rightarrow> replay_reservation enclave_result \<times> nonce_replay_guard" where
  "reserve_at g nonce now =
    (let (r, g') = check_and_record_at g nonce now
     in (and_then r (\<lambda>gen. Inr \<lparr>res_nonce = nonce, generation = gen, committed = False\<rparr>), g'))"

text \<open>\<open>order.iter().position(p)\<close> followed by \<open>order.remove(pos)\<close> removes the first
  match.\<close>

fun remove_first :: "('a \<Rightarrow> bool) \<Rightarrow> 'a list \<Rightarrow> 'a list" where
  "remove_first P [] = []"
| "remove_first P (x # xs) = (if P x then xs else x # remove_first P xs)"

definition guard_remove :: "nonce_replay_guard \<Rightarrow> bytes \<Rightarrow> u64 \<Rightarrow> nonce_replay_guard" where
  "guard_remove g nonce gen =
    (if map_of (seen (inner g)) nonce = Some gen
     then g\<lparr>inner := (inner g)\<lparr>seen := AList.delete nonce (seen (inner g)),
                               order := remove_first (\<lambda>(_, n). n = nonce) (order (inner g))\<rparr>\<rparr>
     else g)"

definition reservation_commit :: "replay_reservation \<Rightarrow> replay_reservation" where
  "reservation_commit r = r\<lparr>committed := True\<rparr>"

definition reservation_drop ::
  "nonce_replay_guard \<Rightarrow> replay_reservation \<Rightarrow> nonce_replay_guard" where
  "reservation_drop g r =
    (if \<not> committed r then guard_remove g (res_nonce r) (generation r) else g)"

subsection \<open>Invariant\<close>

text \<open>The map holds exactly the queued keys, each once, and every generation in the
  map is below the next one and belongs to one key.\<close>

definition agree :: "(bytes \<times> 'v) list \<Rightarrow> (instant \<times> bytes) list \<Rightarrow> bool" where
  "agree sn ord \<longleftrightarrow> distinct (map fst sn) \<and> distinct (map snd ord) \<and> fst ` set sn = snd ` set ord"

definition generations_ok :: "(bytes \<times> u64) list \<Rightarrow> u64 \<Rightarrow> bool" where
  "generations_ok sn nxt \<longleftrightarrow> distinct (map snd sn) \<and> (\<forall>(k, gen) \<in> set sn. gen < nxt)"

definition guard_inv :: "nonce_replay_guard \<Rightarrow> bool" where
  "guard_inv g \<longleftrightarrow>
    agree (seen (inner g)) (order (inner g)) \<and>
    generations_ok (seen (inner g)) (next_generation (inner g)) \<and>
    length (seen (inner g)) \<le> max 1 (guard_max g)"

lemma agree_length: "agree sn ord \<Longrightarrow> length sn = length ord"
  using length_eq_if_same_keys [of sn "map snd ord"] by (simp add: agree_def)

lemma agree_pop: "agree sn ((t, k) # ord) \<Longrightarrow> agree (AList.delete k sn) ord"
  by (auto simp: agree_def)

lemma agree_push:
  "agree sn ord \<Longrightarrow> k \<notin> fst ` set sn \<Longrightarrow> agree (AList.update k v sn) (ord @ [(t, k)])"
  by (auto simp: agree_def set_update_fresh)

lemma set_remove_first_subset: "set (remove_first P xs) \<subseteq> set xs"
  by (induction xs) auto

lemma set_remove_first_key:
  "distinct (map snd ord) \<Longrightarrow>
   set (remove_first (\<lambda>(_, n). n = k) ord) = {(t, n) \<in> set ord. n \<noteq> k}"
  by (induction ord) (auto simp: image_iff)

lemma distinct_remove_first:
  "distinct (map snd ord) \<Longrightarrow> distinct (map snd (remove_first P ord))"
proof (induction ord)
  case (Cons x ord)
  have "snd ` set (remove_first P ord) \<subseteq> snd ` set ord"
    using set_remove_first_subset [of P ord] by (rule image_mono)
  with Cons show ?case by auto
qed simp

lemma agree_remove:
  "agree sn ord \<Longrightarrow> agree (AList.delete k sn) (remove_first (\<lambda>(_, n). n = k) ord)"
  by (auto simp: agree_def distinct_remove_first set_remove_first_key image_iff)

subsection \<open>What the eviction loops do\<close>

text \<open>Evicting expired keys drops the longest expired prefix of the queue and the keys
  of that prefix from the map; capacity eviction drops the oldest keys until the map has
  room for one more.\<close>

abbreviation expired_at :: "duration \<Rightarrow> instant \<Rightarrow> instant \<times> bytes \<Rightarrow> bool" where
  "expired_at ttl now \<equiv> (\<lambda>(t, _). ttl \<le> now - t)"

abbreviation without_keys :: "bytes set \<Rightarrow> (bytes \<times> 'v) list \<Rightarrow> (bytes \<times> 'v) list" where
  "without_keys K sn \<equiv> filter (\<lambda>(k, _). k \<notin> K) sn"

lemma without_keys_delete:
  "without_keys K (AList.delete k sn) = without_keys (insert k K) sn"
  by (auto simp: delete_filter intro!: filter_cong)

lemma evict_expired_spec:
  "evict_expired ttl now sn ord =
    (without_keys (snd ` set (takeWhile (expired_at ttl now) ord)) sn,
     dropWhile (expired_at ttl now) ord)"
proof (induction ttl now sn ord rule: evict_expired.induct)
  case (2 ttl now sn seen_at old rest)
  then show ?case
    by (cases "ttl \<le> now - seen_at") (simp_all add: without_keys_delete)
qed (simp add: filter_True)

lemma agree_delete_length:
  "agree sn ((t, k) # ord) \<Longrightarrow> length sn = Suc (length (AList.delete k sn))"
  using agree_length [of sn] agree_length [OF agree_pop] by fastforce

lemma evict_oldest_spec:
  "agree sn ord \<Longrightarrow>
   evict_oldest mx sn ord =
    (without_keys (snd ` set (take (Suc (length sn) - mx) ord)) sn,
     drop (Suc (length sn) - mx) ord)"
proof (induction mx sn ord rule: evict_oldest.induct)
  case (2 mx sn seen_at old rest)
  note len = agree_delete_length [OF 2(2)]
  show ?case
  proof (cases "mx \<le> length sn")
    case True
    then have "Suc (length sn) - mx = Suc (Suc (length (AList.delete old sn)) - mx)"
      using len by simp
    with True 2(1) [OF True agree_pop [OF 2(2)]] show ?thesis
      by (simp add: without_keys_delete)
  qed (simp add: filter_True)
qed (simp add: filter_True)

lemma agree_split:
  assumes "agree sn (pre @ ord)"
  shows "agree (without_keys (snd ` set pre) sn) ord"
proof -
  have keys: "fst ` set (without_keys K sn) = fst ` set sn - K" for K
    by (auto simp: image_iff)
  from assms have "fst ` set sn - snd ` set pre = snd ` set ord"
    by (auto simp: agree_def)
  with assms show ?thesis
    unfolding agree_def keys by (simp add: distinct_fst_filter)
qed

lemma agree_evict_expired:
  "agree sn ord \<Longrightarrow> evict_expired ttl now sn ord = (sn', ord') \<Longrightarrow> agree sn' ord'"
  using agree_split [of sn "takeWhile (expired_at ttl now) ord"]
  by (auto simp: evict_expired_spec)

lemma agree_evict_oldest:
  "agree sn ord \<Longrightarrow> evict_oldest mx sn ord = (sn', ord') \<Longrightarrow> agree sn' ord'"
  using agree_split [of sn "take (Suc (length sn) - mx) ord"]
  by (auto simp: evict_oldest_spec)

lemma evict_oldest_room:
  assumes "agree sn ord" "evict_oldest mx sn ord = (sn', ord')"
  shows "Suc (length sn') \<le> max 1 mx"
proof -
  have "length sn' = length ord'"
    using agree_length agree_evict_oldest assms by blast
  moreover have "length ord' = length ord - (Suc (length sn) - mx)"
    using assms by (auto simp: evict_oldest_spec)
  ultimately show ?thesis
    using agree_length [OF assms(1)] by simp
qed

lemma generations_filter: "generations_ok sn nxt \<Longrightarrow> generations_ok (filter P sn) nxt"
  by (auto simp: generations_ok_def distinct_map_filter)

lemma generations_push:
  assumes "generations_ok sn nxt" "k \<notin> fst ` set sn" "checked_add nxt 1 = Some nxt'"
  shows "generations_ok (AList.update k nxt sn) nxt'"
proof -
  have "unat nxt' = unat nxt + unat (1 :: u64)"
    using assms(3) checked_add_Some by blast
  then have lt: "nxt < nxt'"
    by (simp add: word_less_nat_alt)
  then have "gen < nxt'" if "(k', gen) \<in> set sn" for k' gen
    using assms(1) that by (force simp: generations_ok_def)
  with lt assms show ?thesis
    by (auto simp: generations_ok_def set_update_fresh)
qed

subsection \<open>Outcomes of recording a key\<close>

lemma check_and_record_cases:
  obtains (replay) g' where "check_and_record_at g nonce now = (Inl NonceReplay, g')"
  | (exhausted) g' m where "check_and_record_at g nonce now = (Inl (Internal m), g')"
      "2 ^ 64 - 1 \<le> unat (next_generation (inner g))"
  | (recorded) g' sn ord sn' ord' nxt where
      "check_and_record_at g nonce now = (Inr (next_generation (inner g)), g')"
      "evict_expired (guard_ttl g) now (seen (inner g)) (order (inner g)) = (sn, ord)"
      "map_of sn nonce = None"
      "checked_add (next_generation (inner g)) 1 = Some nxt"
      "evict_oldest (guard_max g) sn ord = (sn', ord')"
      "g' = g\<lparr>inner := \<lparr>seen = AList.update nonce (next_generation (inner g)) sn',
                        next_generation = nxt, order = ord' @ [(now, nonce)]\<rparr>\<rparr>"
proof -
  obtain sn ord where ev:
    "evict_expired (guard_ttl g) now (seen (inner g)) (order (inner g)) = (sn, ord)"
    by fastforce
  obtain sn' ord' where old: "evict_oldest (guard_max g) sn ord = (sn', ord')"
    by fastforce
  show thesis
  proof (cases "map_of sn nonce")
    case None
    show thesis
    proof (cases "checked_add (next_generation (inner g)) 1")
      case None
      with \<open>map_of sn nonce = None\<close> ev exhausted show thesis
        by (simp add: check_and_record_at_def checked_add_None)
    next
      case (Some nxt)
      show thesis
        by (rule recorded [OF _ ev \<open>map_of sn nonce = None\<close> Some old refl])
          (simp add: check_and_record_at_def ev old None Some)
    qed
  next
    case (Some a)
    with ev replay show thesis by (simp add: check_and_record_at_def)
  qed
qed

lemma guard_inv_with_capacity [simp, intro]: "guard_inv (with_capacity mx ttl)"
  by (simp add: guard_inv_def with_capacity_def agree_def generations_ok_def)

lemma recorded_inv:
  assumes inv: "guard_inv g"
    and ev: "evict_expired (guard_ttl g) now (seen (inner g)) (order (inner g)) = (sn, ord)"
    and free: "map_of sn nonce = None"
    and nxt: "checked_add (next_generation (inner g)) 1 = Some nxt"
    and old: "evict_oldest (guard_max g) sn ord = (sn', ord')"
  shows "guard_inv (g\<lparr>inner := \<lparr>seen = AList.update nonce (next_generation (inner g)) sn',
                        next_generation = nxt, order = ord' @ [(now, nonce)]\<rparr>\<rparr>)"
proof -
  have agr: "agree sn ord"
    using inv ev agree_evict_expired by (auto simp: guard_inv_def)
  have sub: "sn' = without_keys (snd ` set (take (Suc (length sn) - guard_max g) ord)) sn"
    using old agr by (simp add: evict_oldest_spec)
  have fresh: "nonce \<notin> fst ` set sn'"
    using free unfolding sub map_of_eq_None_keys by auto
  have "generations_ok sn (next_generation (inner g))"
    using inv ev by (auto simp: guard_inv_def evict_expired_spec generations_filter)
  then have "generations_ok sn' (next_generation (inner g))"
    unfolding sub by (rule generations_filter)
  then have "generations_ok (AList.update nonce (next_generation (inner g)) sn') nxt"
    using fresh nxt by (rule generations_push)
  moreover have "agree (AList.update nonce (next_generation (inner g)) sn') (ord' @ [(now, nonce)])"
    using agree_evict_oldest [OF agr old] fresh by (rule agree_push)
  moreover have "length (AList.update nonce (next_generation (inner g)) sn') \<le> max 1 (guard_max g)"
    using evict_oldest_room [OF agr old] fresh by (simp add: set_update_fresh)
  ultimately show ?thesis
    by (simp add: guard_inv_def)
qed

lemma evicted_inv:
  assumes "guard_inv g"
    and "evict_expired (guard_ttl g) now (seen (inner g)) (order (inner g)) = (sn, ord)"
  shows "guard_inv (g\<lparr>inner := (inner g)\<lparr>seen := sn, order := ord\<rparr>\<rparr>)"
proof -
  have "length sn \<le> length (seen (inner g))"
    using assms(2) by (auto simp: evict_expired_spec)
  then show ?thesis
    using assms agree_evict_expired [OF _ assms(2)]
    by (auto simp: guard_inv_def evict_expired_spec generations_filter)
qed

lemma check_and_record_inv:
  assumes "guard_inv g" "check_and_record_at g nonce now = (r, g')"
  shows "guard_inv g'"
proof (cases r)
  case (Inr gen)
  with assms show ?thesis
    by (cases g nonce now rule: check_and_record_cases) (auto intro: recorded_inv)
next
  case (Inl e)
  then have "\<exists>sn ord. evict_expired (guard_ttl g) now (seen (inner g)) (order (inner g)) = (sn, ord)
      \<and> g' = g\<lparr>inner := (inner g)\<lparr>seen := sn, order := ord\<rparr>\<rparr>"
    using assms(2)
    by (auto simp: check_and_record_at_def Let_def split: prod.splits if_splits option.splits)
  with assms(1) show ?thesis by (auto intro: evicted_inv)
qed

lemma guard_remove_inv: "guard_inv g \<Longrightarrow> guard_inv (guard_remove g k gen)"
  by (auto simp: guard_inv_def guard_remove_def agree_remove [unfolded delete_filter]
      delete_filter generations_filter intro: le_trans [OF length_filter_le])

lemma reservation_drop_inv: "guard_inv g \<Longrightarrow> guard_inv (reservation_drop g r)"
  by (simp add: reservation_drop_def guard_remove_inv)

text \<open>A key is live at \<open>now\<close> while it was recorded less than the time limit ago.\<close>

definition guard_live :: "nonce_replay_guard \<Rightarrow> bytes \<Rightarrow> instant \<Rightarrow> bool" where
  "guard_live g k now \<longleftrightarrow> (\<exists>t. (t, k) \<in> set (order (inner g)) \<and> now - t < guard_ttl g)"

lemma live_refused:
  assumes "guard_inv g" "guard_live g k now"
  shows "fst (check_and_record_at g k now) = Inl NonceReplay"
proof -
  obtain t where t: "(t, k) \<in> set (order (inner g))" "now - t < guard_ttl g"
    using assms(2) by (auto simp: guard_live_def)
  obtain sn ord where ev:
    "evict_expired (guard_ttl g) now (seen (inner g)) (order (inner g)) = (sn, ord)"
    by fastforce
  have "(t, k) \<in> set ord"
    using t ev in_dropWhileI [of "(t, k)"] by (auto simp: evict_expired_spec)
  moreover have "agree sn ord"
    using assms(1) ev agree_evict_expired by (auto simp: guard_inv_def)
  ultimately have "map_of sn k \<noteq> None"
    unfolding map_of_eq_None_keys by (force simp: agree_def)
  with ev show ?thesis by (simp add: check_and_record_at_def)
qed

lemma guard_check_live:
  assumes "guard_inv g"
  shows "guard_check g k now = Inl NonceReplay \<longleftrightarrow> guard_live g k now"
proof -
  have "map_of (seen (inner g)) k \<noteq> None" if "(t, k) \<in> set (order (inner g))" for t
    using assms that unfolding map_of_eq_None_keys by (force simp: guard_inv_def agree_def)
  then show ?thesis
    by (auto simp: guard_check_def guard_live_def list_ex_iff)
qed

lemma recorded_live:
  assumes "check_and_record_at g k now = (Inr gen, g')" "now' - now < guard_ttl g"
  shows "guard_live g' k now'"
  using assms by (cases g k now rule: check_and_record_cases) (auto simp: guard_live_def)

text \<open>While the queue is in time order, the refused keys are exactly the live ones.\<close>

lemma sorted_dropWhile_live:
  assumes "sorted (map fst ord)" "(t, k) \<in> set (dropWhile (expired_at ttl now) ord)"
  shows "now - t < ttl"
  using assms
proof (induction ord)
  case (Cons x ord)
  obtain t0 k0 where x: "x = (t0, k0)" by fastforce
  show ?case
  proof (cases "ttl \<le> now - t0")
    case False
    with Cons.prems x have "t0 \<le> t" by auto
    with False show ?thesis by simp
  qed (use Cons x in simp)
qed simp

lemma replay_iff_live:
  assumes "guard_inv g" "sorted (map fst (order (inner g)))"
  shows "fst (check_and_record_at g k now) = Inl NonceReplay \<longleftrightarrow> guard_live g k now"
proof
  obtain sn ord where ev:
    "evict_expired (guard_ttl g) now (seen (inner g)) (order (inner g)) = (sn, ord)"
    by fastforce
  assume "fst (check_and_record_at g k now) = Inl NonceReplay"
  with ev have "map_of sn k \<noteq> None"
    by (auto simp: check_and_record_at_def Let_def split: if_splits option.splits prod.splits)
  moreover have "agree sn ord"
    using assms(1) ev agree_evict_expired by (auto simp: guard_inv_def)
  ultimately obtain t where "(t, k) \<in> set ord"
    unfolding map_of_eq_None_keys by (auto simp: agree_def)
  with ev have "(t, k) \<in> set (dropWhile (expired_at (guard_ttl g) now) (order (inner g)))"
    by (auto simp: evict_expired_spec)
  then have "now - t < guard_ttl g" "(t, k) \<in> set (order (inner g))"
    using sorted_dropWhile_live [OF assms(2)] by (auto dest: set_dropWhileD)
  then show "guard_live g k now"
    by (auto simp: guard_live_def)
qed (rule live_refused [OF assms(1)])

lemma removed_not_live:
  assumes "guard_inv g" "map_of (seen (inner g)) k = Some gen"
  shows "\<not> guard_live (guard_remove g k gen) k now"
proof -
  have "distinct (map snd (order (inner g)))"
    using assms(1) by (simp add: guard_inv_def agree_def)
  with assms(2) show ?thesis
    by (auto simp: guard_live_def guard_remove_def set_remove_first_key)
qed

lemma removed_live_other:
  assumes "guard_inv g" "k' \<noteq> k"
  shows "guard_live (guard_remove g k gen) k' now = guard_live g k' now"
proof -
  have "distinct (map snd (order (inner g)))"
    using assms(1) by (simp add: guard_inv_def agree_def)
  with assms(2) show ?thesis
    by (auto simp: guard_live_def guard_remove_def set_remove_first_key)
qed

lemma recorded_owner:
  assumes "guard_inv g" "check_and_record_at g k now = (Inr gen, g')"
  shows "gen = next_generation (inner g)" "map_of (seen (inner g')) k = Some gen"
  using assms by (cases g k now rule: check_and_record_cases; auto simp: update_conv)+

subsection \<open>The contract of a reservation store\<close>

text \<open>What the handlers rely on: a reserved key is refused until its time limit, and a
  released reservation frees its own key only.\<close>

locale reservation_store =
  fixes invar :: "'s \<Rightarrow> bool"
    and live :: "'s \<Rightarrow> 'k \<Rightarrow> instant \<Rightarrow> bool"
    and lifetime :: "'s \<Rightarrow> duration"
    and reserve :: "'s \<Rightarrow> 'k \<Rightarrow> instant \<Rightarrow> ('e, 'r) result \<times> 's"
    and commit :: "'s \<Rightarrow> 'r \<Rightarrow> 's"
    and release :: "'s \<Rightarrow> 'r \<Rightarrow> 's"
  assumes reserve_invar: "invar s \<Longrightarrow> reserve s k now = (res, s') \<Longrightarrow> invar s'"
    and release_invar: "invar s \<Longrightarrow> invar (release s r)"
    and reserve_live: "invar s \<Longrightarrow> live s k now \<Longrightarrow> \<exists>e s'. reserve s k now = (Inl e, s')"
    and reserved_live: "invar s \<Longrightarrow> reserve s k now = (Inr r, s')
          \<Longrightarrow> now' - now < lifetime s \<Longrightarrow> live s' k now'"
    and commit_keeps: "reserve s k now = (Inr r, s') \<Longrightarrow> commit s' r = s'"
    and release_frees: "invar s \<Longrightarrow> reserve s k now = (Inr r, s')
          \<Longrightarrow> \<not> live (release s' r) k now'"
    and release_keeps: "invar s \<Longrightarrow> reserve s k now = (Inr r, s') \<Longrightarrow> k' \<noteq> k
          \<Longrightarrow> live (release s' r) k' now' = live s' k' now'"
begin

text \<open>Reserve, run the work, commit on success and roll back on failure.\<close>

definition guarded :: "'s \<Rightarrow> 'k \<Rightarrow> instant \<Rightarrow> ('e, 'v) result \<Rightarrow> ('e, 'v) result \<times> 's" where
  "guarded s k now work = (case reserve s k now of
      (Inl e, s') \<Rightarrow> (Inl e, s')
    | (Inr r, s') \<Rightarrow> (case work of Inl e \<Rightarrow> (Inl e, release s' r) | Inr v \<Rightarrow> (Inr v, commit s' r)))"

lemma guarded_invar: "invar s \<Longrightarrow> guarded s k now work = (r, s') \<Longrightarrow> invar s'"
  by (auto simp: guarded_def commit_keeps split: prod.splits sum.splits
      intro: reserve_invar release_invar)

lemma guarded_once:
  assumes "invar s" "guarded s k now work = (Inr v, s')" "now' - now < lifetime s"
  shows "\<exists>e s''. guarded s' k now' work' = (Inl e, s'')"
proof -
  obtain r where r: "reserve s k now = (Inr r, s')"
    using assms(2) by (auto simp: guarded_def commit_keeps split: prod.splits sum.splits)
  then have "live s' k now'" "invar s'"
    using assms reserved_live reserve_invar by blast+
  then obtain e s'' where "reserve s' k now' = (Inl e, s'')"
    using reserve_live by blast
  then show ?thesis by (simp add: guarded_def)
qed

lemma guarded_failure_frees:
  assumes "invar s" "\<not> live s k now'" "guarded s k now (Inl e) = (Inl e', s')"
    and "reserve s k now = (Inr r, s1)"
  shows "\<not> live s' k now'"
  using assms release_frees by (auto simp: guarded_def)

end

definition guard_commit :: "nonce_replay_guard \<Rightarrow> replay_reservation \<Rightarrow> nonce_replay_guard" where
  "guard_commit g r = reservation_drop g (reservation_commit r)"

lemma guard_commit_id [simp]: "guard_commit g r = g"
  by (simp add: guard_commit_def reservation_drop_def reservation_commit_def)

lemma reserve_at_Inr:
  "reserve_at g k now = (Inr r, g') \<longleftrightarrow>
   check_and_record_at g k now = (Inr (generation r), g') \<and> res_nonce r = k \<and> \<not> committed r"
  by (cases r) (auto simp: reserve_at_def and_then_Inr split: prod.splits)

lemma reserve_at_fields:
  "reserve_at g k now = (Inr r, g') \<Longrightarrow> res_nonce r = k \<and> \<not> committed r"
  by (auto simp: reserve_at_def and_then_Inr split: prod.splits)

lemma reserve_at_Inl:
  "reserve_at g k now = (Inl e, g') \<longleftrightarrow> check_and_record_at g k now = (Inl e, g')"
  by (auto simp: reserve_at_def and_then_Inl split: prod.splits)

lemma reserve_at_inv: "guard_inv g \<Longrightarrow> reserve_at g k now = (r, g') \<Longrightarrow> guard_inv g'"
  by (cases r) (auto simp: reserve_at_Inl reserve_at_Inr intro: check_and_record_inv)

lemma reserve_at_live: "guard_inv g \<Longrightarrow> guard_live g k now \<Longrightarrow> \<exists>e g'. reserve_at g k now = (Inl e, g')"
  using live_refused [of g k now]
  by (cases "check_and_record_at g k now") (auto simp: reserve_at_Inl)

lemma reserve_at_owner:
  assumes "guard_inv g" "reserve_at g k now = (Inr r, g')"
  shows "map_of (seen (inner g')) (res_nonce r) = Some (generation r)"
  using assms recorded_owner(2) unfolding reserve_at_Inr by blast

lemma drop_frees:
  assumes "guard_inv g" "reserve_at g k now = (Inr r, g')"
  shows "\<not> guard_live (reservation_drop g' r) k now'"
  using reserve_at_inv [OF assms] reserve_at_owner [OF assms] reserve_at_fields [OF assms(2)]
    removed_not_live by (simp add: reservation_drop_def)

lemma drop_keeps:
  assumes "guard_inv g" "reserve_at g k now = (Inr r, g')" "k' \<noteq> k"
  shows "guard_live (reservation_drop g' r) k' now' = guard_live g' k' now'"
  using reserve_at_inv [OF assms(1,2)] reserve_at_fields [OF assms(2)] assms(3)
    removed_live_other by (simp add: reservation_drop_def)

lemma reserve_at_recorded:
  "reserve_at g k now = (Inr r, g') \<Longrightarrow> now' - now < guard_ttl g \<Longrightarrow> guard_live g' k now'"
  using recorded_live by (auto simp: reserve_at_Inr)

interpretation rg: reservation_store guard_inv guard_live guard_ttl reserve_at guard_commit
  reservation_drop
  apply unfold_locales
  subgoal by (rule reserve_at_inv)
  subgoal by (rule reservation_drop_inv)
  subgoal by (rule reserve_at_live)
  subgoal by (rule reserve_at_recorded)
  subgoal by (rule guard_commit_id)
  subgoal by (rule drop_frees)
  subgoal by (rule drop_keeps)
  done

subsection \<open>Interleaved reservations\<close>

text \<open>The guard together with the reservations that request handlers still hold. Handlers
  run on separate threads, so reserving, committing and dropping interleave freely.\<close>

inductive guard_reachable ::
  "nat \<Rightarrow> duration \<Rightarrow> nonce_replay_guard \<Rightarrow> replay_reservation list \<Rightarrow> bool"
  for mx :: nat and ttl :: duration where
  reach_init: "guard_reachable mx ttl (with_capacity mx ttl) []"
| reach_reserve: "guard_reachable mx ttl g rs \<Longrightarrow> reserve_at g nonce now = (Inr r, g')
    \<Longrightarrow> guard_reachable mx ttl g' (r # rs)"
| reach_refuse: "guard_reachable mx ttl g rs \<Longrightarrow> reserve_at g nonce now = (Inl e, g')
    \<Longrightarrow> guard_reachable mx ttl g' rs"
| reach_commit: "guard_reachable mx ttl g rs \<Longrightarrow> r \<in> set rs
    \<Longrightarrow> guard_reachable mx ttl (reservation_drop g (reservation_commit r)) (remove1 r rs)"
| reach_drop: "guard_reachable mx ttl g rs \<Longrightarrow> r \<in> set rs
    \<Longrightarrow> guard_reachable mx ttl (reservation_drop g r) (remove1 r rs)"

definition holders_ok :: "nonce_replay_guard \<Rightarrow> replay_reservation list \<Rightarrow> bool" where
  "holders_ok g rs \<longleftrightarrow> distinct (map generation rs) \<and>
    (\<forall>r\<in>set rs. generation r < next_generation (inner g))"

lemma next_generation_record:
  assumes "check_and_record_at g k now = (Inr gen, g')"
  shows "gen = next_generation (inner g)"
    and "unat (next_generation (inner g')) = Suc (unat (next_generation (inner g)))"
  using assms by (cases g k now rule: check_and_record_cases; auto dest: checked_add_one)+

lemma next_generation_refuse:
  "check_and_record_at g k now = (Inl e, g') \<Longrightarrow>
   next_generation (inner g') = next_generation (inner g)"
  by (auto simp: check_and_record_at_def Let_def split: prod.splits if_splits option.splits)

lemma next_generation_drop [simp]:
  "next_generation (inner (reservation_drop g r)) = next_generation (inner g)"
  by (simp add: reservation_drop_def guard_remove_def)

lemma holders_reserve:
  assumes "holders_ok g rs" "reserve_at g k now = (Inr r, g')"
  shows "holders_ok g' (r # rs)"
proof -
  have r: "generation r = next_generation (inner g)"
    "unat (next_generation (inner g')) = Suc (unat (next_generation (inner g)))"
    using assms(2) next_generation_record unfolding reserve_at_Inr by blast+
  then show ?thesis
    using assms(1) by (fastforce simp: holders_ok_def word_less_nat_alt)
qed

lemma holders_drop: "holders_ok g rs \<Longrightarrow> holders_ok (reservation_drop g r') (remove1 r rs)"
  unfolding holders_ok_def next_generation_drop
  by (metis distinct_map distinct_remove1 inj_on_subset set_remove1_subset subsetD)

lemma guard_reachable_ok:
  "guard_reachable mx ttl g rs \<Longrightarrow> guard_inv g \<and> holders_ok g rs"
proof (induction rule: guard_reachable.induct)
  case (reach_reserve g rs nonce now r g')
  then show ?case using holders_reserve reserve_at_inv by blast
next
  case (reach_refuse g rs nonce now e g')
  then have "next_generation (inner g') = next_generation (inner g)"
    using next_generation_refuse reserve_at_Inl by blast
  with reach_refuse show ?case using reserve_at_inv by (auto simp: holders_ok_def)
qed (auto simp: reservation_drop_inv holders_drop, simp add: holders_ok_def)

lemma reachable_params:
  "guard_reachable mx ttl g rs \<Longrightarrow> guard_max g = mx \<and> guard_ttl g = ttl"
proof (induction rule: guard_reachable.induct)
  case (reach_reserve g rs nonce now r g')
  then show ?case
    by (auto simp: reserve_at_Inr check_and_record_at_def Let_def
        split: prod.splits if_splits option.splits)
next
  case (reach_refuse g rs nonce now e g')
  then show ?case
    by (auto simp: reserve_at_Inl check_and_record_at_def Let_def
        split: prod.splits if_splits option.splits)
qed (auto simp: with_capacity_def reservation_drop_def guard_remove_def)

lemma drop_keeps_other_owner:
  assumes "guard_inv g" "map_of (seen (inner g)) k = Some gen" "gen \<noteq> generation r"
  shows "map_of (seen (inner (reservation_drop g r))) k = Some gen"
  using assms by (auto simp: reservation_drop_def guard_remove_def delete_conv)

subsection \<open>A concrete run\<close>

definition demo_guard0 :: nonce_replay_guard where
  "demo_guard0 = with_capacity 2 10"

definition demo_guard1 :: nonce_replay_guard where
  "demo_guard1 = snd (reserve_at demo_guard0 [1] 5)"

definition demo_reservation1 :: replay_reservation where
  "demo_reservation1 = \<lparr>res_nonce = [1], generation = 0, committed = False\<rparr>"

definition demo_guard2 :: nonce_replay_guard where
  "demo_guard2 = snd (reserve_at demo_guard1 [1] 15)"

definition demo_reservation2 :: replay_reservation where
  "demo_reservation2 = \<lparr>res_nonce = [1], generation = 1, committed = False\<rparr>"

lemmas demo_guard_defs = demo_guard0_def demo_guard1_def demo_guard2_def demo_reservation1_def
  demo_reservation2_def with_capacity_def reserve_at_def check_and_record_at_def checked_add_def
  Let_def

lemma demo_guard_reserve:
  "reserve_at demo_guard0 [1] 5 = (Inr demo_reservation1, demo_guard1)"
  "reserve_at demo_guard1 [1] 15 = (Inr demo_reservation2, demo_guard2)"
  by (simp_all add: demo_guard_defs)

lemma demo_guard_reachable:
  "guard_reachable 2 10 demo_guard1 [demo_reservation1]"
  "guard_reachable 2 10 demo_guard2 [demo_reservation2, demo_reservation1]"
proof -
  show one: "guard_reachable 2 10 demo_guard1 [demo_reservation1]"
    using reach_reserve [OF reach_init demo_guard_reserve(1) [unfolded demo_guard0_def]] .
  show "guard_reachable 2 10 demo_guard2 [demo_reservation2, demo_reservation1]"
    using reach_reserve [OF one demo_guard_reserve(2)] .
qed

subsection \<open>Properties\<close>

text \<open>C29: in every state that interleaved reservations, refusals, commits and rollbacks reach,
  the membership map holds exactly the queued keys, each key is queued once, no two keys share
  a generation, and the number of keys never exceeds the capacity (one key when the capacity
  is zero).\<close>

theorem guard_map_queue_agree:
  assumes "guard_reachable mx ttl g rs"
  shows "dom (map_of (seen (inner g))) = snd ` set (order (inner g)) \<and>
    distinct (map snd (order (inner g))) \<and> distinct (map snd (seen (inner g))) \<and>
    length (seen (inner g)) = length (order (inner g)) \<and> length (seen (inner g)) \<le> max 1 mx"
  using guard_reachable_ok [OF assms] reachable_params [OF assms] agree_length
  by (auto simp: guard_inv_def agree_def generations_ok_def dom_map_of_conv_image_fst)

theorem guard_map_queue_agree_witness:
  "length (seen (inner demo_guard2)) \<le> max 1 2"
  using guard_map_queue_agree [OF demo_guard_reachable(2)] by simp



text \<open>Rolling back a reservation whose entry has expired and been replaced leaves the
  replacement in place: every other reservation that owns its key still owns it, and the key
  is refused as before.\<close>

lemma stale_rollback_keeps_replacement:
  assumes "guard_reachable mx ttl g rs" "r \<in> set rs" "r' \<in> set rs" "r \<noteq> r'"
    and "map_of (seen (inner g)) (res_nonce r') = Some (generation r')"
  shows "map_of (seen (inner (reservation_drop g r))) (res_nonce r') = Some (generation r') \<and>
    (guard_live (reservation_drop g r) (res_nonce r') now = guard_live g (res_nonce r') now)"
proof -
  have ok: "guard_inv g" "holders_ok g rs" using guard_reachable_ok [OF assms(1)] by auto
  then have "generation r' \<noteq> generation r"
    using assms(2-4) by (auto simp: holders_ok_def distinct_map inj_on_def)
  moreover from this have "guard_live (reservation_drop g r) (res_nonce r') now
      = guard_live g (res_nonce r') now"
    using assms(5) removed_live_other [OF ok(1), of "res_nonce r'" "res_nonce r"]
    by (cases "res_nonce r' = res_nonce r") (auto simp: reservation_drop_def guard_remove_def)
  ultimately show ?thesis
    using drop_keeps_other_owner [OF ok(1) assms(5)] by blast
qed

end
