(* ===== verification/Result_Cache.thy ===== *)
theory Result_Cache
  imports Enclave_Error
begin

text \<open>
  The cache of signed mint replies (\<open>enclave/src/state/result_cache.rs\<close>): one entry
  per operation key, bounded in number and in age. The reply type is a parameter.

  The lemmas show that the map and the queue agree, that the size is bounded, and
  that a reply is returned only to the request that made it.
\<close>

definition DEFAULT_RESULT_TTL :: duration where
  "DEFAULT_RESULT_TTL = from_secs (24 * 60 * 60)"

definition DEFAULT_RESULT_MAX :: nat where
  "DEFAULT_RESULT_MAX = 1024"

record 'r cache_entry =
  entry_at :: instant
  entry_request :: bytes
  entry_response :: 'r

record 'r signed_result_cache =
  cache_map :: "(bytes \<times> 'r cache_entry) list"
  cache_order :: "bytes list"
  cache_max :: nat
  cache_ttl :: duration

definition cache_with_capacity :: "nat \<Rightarrow> duration \<Rightarrow> 'r signed_result_cache" where
  "cache_with_capacity mx ttl =
    \<lparr>cache_map = [], cache_order = [], cache_max = mx, cache_ttl = ttl\<rparr>"

definition cache_get_at ::
  "'r signed_result_cache \<Rightarrow> bytes \<Rightarrow> bytes \<Rightarrow> instant \<Rightarrow> 'r option" where
  "cache_get_at c op_key request now =
    (case map_of (cache_map c) op_key of
       None \<Rightarrow> None
     | Some e \<Rightarrow> (if now - entry_at e < cache_ttl c \<and> entry_request e = request
                 then Some (entry_response e) else None))"

text \<open>The eviction loop of \<open>put_at\<close>: pop the front while it is expired or the map is full.\<close>

fun cache_evict ::
  "nat \<Rightarrow> duration \<Rightarrow> instant \<Rightarrow> (bytes \<times> 'r cache_entry) list \<Rightarrow> bytes list
    \<Rightarrow> (bytes \<times> 'r cache_entry) list \<times> bytes list" where
  "cache_evict mx ttl now m [] = (m, [])"
| "cache_evict mx ttl now m (oldest # rest) =
    (let expired = (case map_of m oldest of None \<Rightarrow> True | Some e \<Rightarrow> ttl \<le> now - entry_at e)
     in if \<not> expired \<and> length m < mx then (m, oldest # rest)
        else cache_evict mx ttl now (AList.delete oldest m) rest)"

definition cache_put_at ::
  "'r signed_result_cache \<Rightarrow> bytes \<Rightarrow> bytes \<Rightarrow> 'r \<Rightarrow> instant \<Rightarrow> 'r signed_result_cache" where
  "cache_put_at c op_key request response now =
    (let (m, ord) = (if map_of (cache_map c) op_key \<noteq> None
                     then (AList.delete op_key (cache_map c),
                           filter (\<lambda>k. k \<noteq> op_key) (cache_order c))
                     else (cache_map c, cache_order c));
         (m', ord') = cache_evict (cache_max c) (cache_ttl c) now m ord
     in c\<lparr>cache_map := AList.update op_key
            \<lparr>entry_at = now, entry_request = request, entry_response = response\<rparr> m',
          cache_order := ord' @ [op_key]\<rparr>)"

subsection \<open>Invariant\<close>

definition cache_agree :: "(bytes \<times> 'v) list \<Rightarrow> bytes list \<Rightarrow> bool" where
  "cache_agree m ord \<longleftrightarrow> distinct (map fst m) \<and> distinct ord \<and> fst ` set m = set ord"

definition cache_inv :: "'r signed_result_cache \<Rightarrow> bool" where
  "cache_inv c \<longleftrightarrow> cache_agree (cache_map c) (cache_order c) \<and>
    length (cache_map c) \<le> max 1 (cache_max c)"

lemma cache_agree_length: "cache_agree m ord \<Longrightarrow> length m = length ord"
  using length_eq_if_same_keys [of m ord] by (simp add: cache_agree_def)

lemma cache_agree_pop: "cache_agree m (k # ord) \<Longrightarrow> cache_agree (AList.delete k m) ord"
  by (auto simp: cache_agree_def)

lemma cache_agree_delete:
  "cache_agree m ord \<Longrightarrow> cache_agree (AList.delete k m) (filter (\<lambda>x. x \<noteq> k) ord)"
  by (auto simp: cache_agree_def)

lemma cache_evict_Cons:
  "cache_evict mx ttl now m (oldest # rest) =
    (if (\<exists>e. map_of m oldest = Some e \<and> now - entry_at e < ttl) \<and> length m < mx
     then (m, oldest # rest) else cache_evict mx ttl now (AList.delete oldest m) rest)"
  by (auto split: option.splits simp: Let_def)

lemma cache_evict_agree:
  "cache_agree m ord \<Longrightarrow> cache_evict mx ttl now m ord = (m', ord') \<Longrightarrow>
   cache_agree m' ord' \<and> Suc (length m') \<le> max 1 mx"
proof (induction ord arbitrary: m)
  case Nil
  then show ?case using cache_agree_length by fastforce
next
  case (Cons oldest rest)
  show ?case
  proof (cases "(\<exists>e. map_of m oldest = Some e \<and> now - entry_at e < ttl) \<and> length m < mx")
    case True
    with Cons.prems show ?thesis by (auto simp: cache_evict_Cons simp del: cache_evict.simps)
  next
    case False
    then have "cache_evict mx ttl now (AList.delete oldest m) rest = (m', ord')"
      using Cons.prems(2) unfolding cache_evict_Cons by (simp only: if_False)
    with Cons.IH cache_agree_pop [OF Cons.prems(1)] show ?thesis by blast
  qed
qed

lemma cache_evict_shrinks:
  "cache_evict mx ttl now m ord = (m', ord') \<Longrightarrow> map_of m' k = Some e \<Longrightarrow> map_of m k = Some e"
proof (induction ord arbitrary: m)
  case (Cons oldest rest)
  show ?case
  proof (cases "(\<exists>e. map_of m oldest = Some e \<and> now - entry_at e < ttl) \<and> length m < mx")
    case True
    with Cons.prems show ?thesis by (auto simp: cache_evict_Cons simp del: cache_evict.simps)
  next
    case False
    then have "cache_evict mx ttl now (AList.delete oldest m) rest = (m', ord')"
      using Cons.prems(1) unfolding cache_evict_Cons by (simp only: if_False)
    with Cons show ?thesis by (fastforce simp: delete_conv split: if_splits)
  qed
qed simp

lemma cache_put_cases:
  obtains m ord m' ord' where
    "m = AList.delete op_key (cache_map c)"
    "cache_inv c \<Longrightarrow> cache_agree m ord"
    "cache_evict (cache_max c) (cache_ttl c) now m ord = (m', ord')"
    "cache_put_at c op_key request response now =
      c\<lparr>cache_map := AList.update op_key
          \<lparr>entry_at = now, entry_request = request, entry_response = response\<rparr> m',
        cache_order := ord' @ [op_key]\<rparr>"
proof (cases "map_of (cache_map c) op_key = None")
  case True
  then have same: "AList.delete op_key (cache_map c) = cache_map c"
    by (simp add: map_of_eq_None_keys delete_id)
  obtain m' ord' where "cache_evict (cache_max c) (cache_ttl c) now (cache_map c) (cache_order c)
      = (m', ord')" by fastforce
  with True same show thesis
    by (intro that [of "cache_map c" "cache_order c" m' ord'])
      (auto simp: cache_put_at_def cache_inv_def)
next
  case False
  let ?m = "AList.delete op_key (cache_map c)"
  let ?ord = "filter (\<lambda>k. k \<noteq> op_key) (cache_order c)"
  obtain m' ord' where "cache_evict (cache_max c) (cache_ttl c) now ?m ?ord = (m', ord')"
    by fastforce
  with False show thesis
    by (intro that [of ?m ?ord m' ord'])
      (auto simp: cache_put_at_def cache_inv_def cache_agree_delete)
qed

lemma cache_inv_new [simp, intro]: "cache_inv (cache_with_capacity mx ttl)"
  by (simp add: cache_inv_def cache_with_capacity_def cache_agree_def)

lemma cache_put_inv: "cache_inv c \<Longrightarrow> cache_inv (cache_put_at c k req resp now)"
proof (rule cache_put_cases [of k c now req resp])
  fix m ord m' ord'
  assume inv: "cache_inv c" and m: "m = AList.delete k (cache_map c)"
    and agr: "cache_inv c \<Longrightarrow> cache_agree m ord"
    and ev: "cache_evict (cache_max c) (cache_ttl c) now m ord = (m', ord')"
    and put: "cache_put_at c k req resp now = c\<lparr>cache_map := AList.update k
      \<lparr>entry_at = now, entry_request = req, entry_response = resp\<rparr> m', cache_order := ord' @ [k]\<rparr>"
  have res: "cache_agree m' ord'" "Suc (length m') \<le> max 1 (cache_max c)"
    using cache_evict_agree [OF agr [OF inv] ev] by auto
  have "map_of m' k = None"
    using cache_evict_shrinks [OF ev, of k] unfolding m by (fastforce simp: delete_conv)
  then have "k \<notin> fst ` set m'"
    by (simp add: map_of_eq_None_keys)
  with res show ?thesis
    unfolding put cache_inv_def by (auto simp: cache_agree_def set_update_fresh)
qed

lemma cache_put_same:
  "map_of (cache_map (cache_put_at c k req resp now)) k =
    Some \<lparr>entry_at = now, entry_request = req, entry_response = resp\<rparr>"
  by (rule cache_put_cases [of k c now req resp]) (simp add: update_conv)

lemma cache_put_other:
  assumes "k' \<noteq> k" "map_of (cache_map (cache_put_at c k req resp now)) k' = Some e"
  shows "map_of (cache_map c) k' = Some e"
proof (rule cache_put_cases [of k c now req resp])
  fix m ord m' ord'
  assume m: "m = AList.delete k (cache_map c)"
    and ev: "cache_evict (cache_max c) (cache_ttl c) now m ord = (m', ord')"
    and put: "cache_put_at c k req resp now = c\<lparr>cache_map := AList.update k
      \<lparr>entry_at = now, entry_request = req, entry_response = resp\<rparr> m', cache_order := ord' @ [k]\<rparr>"
  have "map_of m' k' = Some e"
    using assms unfolding put by (simp add: update_conv)
  from cache_evict_shrinks [OF ev this] show ?thesis
    using assms(1) unfolding m by (simp add: delete_conv)
qed

lemma cache_put_params [simp]:
  "cache_max (cache_put_at c k req resp now) = cache_max c"
  "cache_ttl (cache_put_at c k req resp now) = cache_ttl c"
  by (rule cache_put_cases [of k c now req resp]; simp)+

subsection \<open>Histories\<close>

text \<open>A history is the sequence of \<open>put\<close> calls, oldest first.\<close>

type_synonym 'r put_call = "bytes \<times> bytes \<times> 'r \<times> instant"

fun cache_after :: "'r signed_result_cache \<Rightarrow> 'r put_call list \<Rightarrow> 'r signed_result_cache" where
  "cache_after c [] = c"
| "cache_after c ((k, req, resp, t) # rest) = cache_after (cache_put_at c k req resp t) rest"

fun last_put :: "bytes \<Rightarrow> 'r put_call list \<Rightarrow> (bytes \<times> 'r \<times> instant) option" where
  "last_put k [] = None"
| "last_put k ((k', v) # rest) =
    (case last_put k rest of Some w \<Rightarrow> Some w | None \<Rightarrow> if k' = k then Some v else None)"

lemma cache_after_inv: "cache_inv c \<Longrightarrow> cache_inv (cache_after c puts)"
  by (induction c puts rule: cache_after.induct) (auto simp: cache_put_inv)

lemma cache_after_params [simp]:
  "cache_max (cache_after c puts) = cache_max c" "cache_ttl (cache_after c puts) = cache_ttl c"
  by (induction c puts rule: cache_after.induct) auto

lemma cache_after_entry:
  "map_of (cache_map (cache_after c puts)) k = Some e \<Longrightarrow>
   (case last_put k puts of
      Some v \<Rightarrow> v = (entry_request e, entry_response e, entry_at e)
    | None \<Rightarrow> map_of (cache_map c) k = Some e)"
proof (induction c puts rule: cache_after.induct)
  case (2 c k' req resp t rest)
  show ?case
  proof (cases "last_put k rest")
    case None
    then have e: "map_of (cache_map (cache_put_at c k' req resp t)) k = Some e"
      using 2 by simp
    show ?thesis
    proof (cases "k' = k")
      case True
      with e None show ?thesis by (auto simp: cache_put_same)
    next
      case False
      with e None cache_put_other [of k k'] show ?thesis by simp
    qed
  qed (use 2 in auto)
qed simp

subsection \<open>Properties\<close>

text \<open>C32: after any sequence of stored replies, the cache answers a lookup only with the reply
  that was stored last for that operation key, only when the request digest is the one stored
  with it, and only while the entry is younger than the time limit; the number of entries never
  exceeds the capacity (one entry when the capacity is zero).\<close>

theorem cached_reply_is_last_identical_request:
  assumes "cache_get_at (cache_after (cache_with_capacity mx ttl) puts) k req now = Some resp"
  shows "(\<exists>t. last_put k puts = Some (req, resp, t) \<and> now - t < ttl) \<and>
    length (cache_map (cache_after (cache_with_capacity mx ttl) puts :: 'r signed_result_cache))
      \<le> max 1 mx"
proof -
  let ?c = "cache_after (cache_with_capacity mx ttl) puts"
  obtain e where e: "map_of (cache_map ?c) k = Some e" "now - entry_at e < ttl"
    "entry_request e = req" "entry_response e = resp"
    using assms by (auto simp: cache_get_at_def cache_with_capacity_def split: option.splits if_splits)
  then have "last_put k puts = Some (req, resp, entry_at e)"
    using cache_after_entry [OF e(1)] by (auto simp: cache_with_capacity_def split: option.splits)
  moreover have "cache_inv (cache_after (cache_with_capacity mx ttl) puts :: 'r signed_result_cache)"
    by (rule cache_after_inv) simp
  ultimately show ?thesis
    using e(2) by (auto simp: cache_inv_def cache_with_capacity_def)
qed

theorem cached_reply_is_last_identical_request_witness:
  "\<exists>t. last_put [1] [([1], [9], 7, 100), ([1], [8], 6 :: nat, 101)] = Some ([8], 6, t) \<and> 105 - t < 10"
  using cached_reply_is_last_identical_request
    [of 4 10 "[([1], [9], 7, 100), ([1], [8], 6 :: nat, 101)]" "[1]" "[8]" 105 6]
  by (simp add: cache_with_capacity_def cache_put_at_def cache_get_at_def)

text \<open>Storing a reply and looking it up with the same key and request before the time limit returns
  that reply, and a lookup with another request digest returns nothing.\<close>

lemma cache_put_get:
  "cache_get_at (cache_put_at c k req resp t) k req' now =
    (if now - t < cache_ttl c \<and> req' = req then Some resp else None)"
  by (auto simp: cache_get_at_def cache_put_same)

end
