(* ===== verification/Rate_Limits.thy ===== *)
theory Rate_Limits
  imports Enclave_Error
begin

text \<open>
  The two in-memory rate limits: the sliding window of rights refills
  (\<open>enclave/src/state/refill_rate.rs\<close>) and the fixed window of submitted block
  headers (\<open>enclave/src/server/rate_limit.rs\<close>).

  The lemmas bound what either one admits over a whole run of requests.
\<close>

subsection \<open>Rights refills\<close>

definition MAX_REFILLS_PER_HOUR :: nat where
  "MAX_REFILLS_PER_HOUR = 12"

definition REFILL_WINDOW :: duration where
  "REFILL_WINDOW = from_secs (60 * 60)"

text \<open>The state is the queue of admitted instants, oldest first.\<close>

definition refill_admit :: "instant list \<Rightarrow> instant \<Rightarrow> unit enclave_result \<times> instant list" where
  "refill_admit admitted now =
    (let admitted = dropWhile (\<lambda>t. REFILL_WINDOW \<le> now - t) admitted
     in if MAX_REFILLS_PER_HOUR \<le> length admitted
        then (Inl (CrossCheck ''rights refill rate limit''), admitted)
        else (Inr (), admitted @ [now]))"

text \<open>A run of requests at the given instants; the second component collects the
  instants that were admitted.\<close>

fun refill_run :: "instant list \<Rightarrow> instant list \<Rightarrow> instant list \<times> instant list" where
  "refill_run q [] = (q, [])"
| "refill_run q (now # rest) =
    (let (r, q') = refill_admit q now; (q'', adm) = refill_run q' rest
     in (q'', (if is_ok r then [now] else []) @ adm))"

definition in_window :: "instant \<Rightarrow> instant list \<Rightarrow> instant list" where
  "in_window t xs = filter (\<lambda>y. y \<le> t \<and> t - y < REFILL_WINDOW) xs"

text \<open>The queue is the part of the log that may still count: everything the log holds
  before it has left the window.\<close>

definition refill_log_ok :: "instant \<Rightarrow> instant list \<Rightarrow> instant list \<Rightarrow> bool" where
  "refill_log_ok now log q \<longleftrightarrow>
    (\<exists>pre. log = pre @ q \<and> (\<forall>y\<in>set pre. REFILL_WINDOW \<le> now - y)) \<and>
    (\<forall>y\<in>set log. y \<le> now) \<and>
    (\<forall>t. length (in_window t log) \<le> MAX_REFILLS_PER_HOUR)"

lemma refill_log_later:
  assumes "refill_log_ok now log q" "now \<le> now'"
  shows "refill_log_ok now' log (dropWhile (\<lambda>t. REFILL_WINDOW \<le> now' - t) q)"
proof -
  let ?P = "\<lambda>t. REFILL_WINDOW \<le> now' - t"
  obtain pre where pre: "log = pre @ q" "\<forall>y\<in>set pre. REFILL_WINDOW \<le> now - y"
    using assms(1) by (auto simp: refill_log_ok_def)
  then have "log = (pre @ takeWhile ?P q) @ dropWhile ?P q"
    by simp
  moreover have "\<forall>y\<in>set (pre @ takeWhile ?P q). ?P y"
    using pre(2) assms(2) by (auto dest: set_takeWhile_conv intro: le_trans)
  ultimately show ?thesis
    using assms unfolding refill_log_ok_def by (blast intro: le_trans)
qed

lemma refill_log_push:
  assumes ok: "refill_log_ok now log q" and room: "length q < MAX_REFILLS_PER_HOUR"
  shows "refill_log_ok now (log @ [now]) (q @ [now])"
proof -
  obtain pre where pre: "log = pre @ q" "\<forall>y\<in>set pre. REFILL_WINDOW \<le> now - y"
    using ok by (auto simp: refill_log_ok_def)
  have "length (in_window t (log @ [now])) \<le> MAX_REFILLS_PER_HOUR" for t
  proof (cases "now \<le> t")
    case True
    have "in_window t pre = []"
      using pre(2) True by (fastforce simp: in_window_def filter_empty_conv)
    then have "length (in_window t (log @ [now])) \<le> length q + 1"
      by (simp add: in_window_def pre(1) le_SucI)
    with room show ?thesis by linarith
  next
    case False
    then show ?thesis
      using ok by (simp add: in_window_def refill_log_ok_def)
  qed
  with pre ok show ?thesis
    by (auto simp: refill_log_ok_def)
qed

lemma refill_admit_log:
  assumes "refill_log_ok now log q" "now \<le> now'" "refill_admit q now' = (r, q')"
  shows "refill_log_ok now' (log @ (if is_ok r then [now'] else [])) q'"
proof -
  let ?q = "dropWhile (\<lambda>t. REFILL_WINDOW \<le> now' - t) q"
  have later: "refill_log_ok now' log ?q"
    using assms(1,2) by (rule refill_log_later)
  show ?thesis
  proof (cases "MAX_REFILLS_PER_HOUR \<le> length ?q")
    case True
    with assms(3) later show ?thesis by (auto simp: refill_admit_def)
  next
    case False
    then have "length ?q < MAX_REFILLS_PER_HOUR" by simp
    with assms(3) refill_log_push [OF later] False show ?thesis
      by (auto simp: refill_admit_def)
  qed
qed

lemma refill_run_log:
  "refill_log_ok now log q \<Longrightarrow> sorted (now # ts) \<Longrightarrow> refill_run q ts = (q', adm) \<Longrightarrow>
   \<exists>now'. refill_log_ok now' (log @ adm) q'"
proof (induction ts arbitrary: now log q adm)
  case (Cons t ts)
  obtain r q1 where r: "refill_admit q t = (r, q1)" by fastforce
  obtain adm1 where run: "refill_run q1 ts = (q', adm1)"
    using Cons.prems(3) r by (auto split: prod.splits)
  have "refill_log_ok t (log @ (if is_ok r then [t] else [])) q1"
    by (rule refill_admit_log [OF Cons.prems(1) _ r]) (use Cons.prems(2) in simp)
  then have "\<exists>now'. refill_log_ok now' ((log @ (if is_ok r then [t] else [])) @ adm1) q'"
    by (rule Cons.IH) (use Cons.prems run in auto)
  with Cons.prems(3) r run show ?case by auto
qed auto

lemma refill_log_empty: "refill_log_ok 0 [] []"
  by (simp add: refill_log_ok_def in_window_def)

subsection \<open>Submitted headers\<close>

definition MAX_HEADERS_PER_RATE_WINDOW :: u64 where
  "MAX_HEADERS_PER_RATE_WINDOW = 100000"

definition RATE_LIMIT_WINDOW :: duration where
  "RATE_LIMIT_WINDOW = from_secs 60"

record submit_rate_limiter =
  window_start :: "system_time option"
  headers_in_window :: u64

definition submit_rate_limiter_default :: submit_rate_limiter where
  "submit_rate_limiter_default = \<lparr>window_start = None, headers_in_window = 0\<rparr>"

text \<open>\<open>SystemTime::duration_since\<close> fails when the clock went back; both that and a full
  window start a new window.\<close>

definition rate_reset :: "submit_rate_limiter \<Rightarrow> system_time \<Rightarrow> bool" where
  "rate_reset l now = (case window_start l of None \<Rightarrow> True
     | Some start \<Rightarrow> (if now < start then True else int RATE_LIMIT_WINDOW \<le> now - start))"

definition rate_check ::
  "submit_rate_limiter \<Rightarrow> u64 \<Rightarrow> system_time \<Rightarrow> unit enclave_result \<times> submit_rate_limiter" where
  "rate_check l count now =
    (let l = (if rate_reset l now then \<lparr>window_start = Some now, headers_in_window = 0\<rparr> else l);
         l = l\<lparr>headers_in_window := saturating_add (headers_in_window l) count\<rparr>
     in if MAX_HEADERS_PER_RATE_WINDOW < headers_in_window l
        then (Inl (Spv ''SubmitHeaders rate limit exceeded''), l)
        else (Inr (), l))"

text \<open>A run of \<open>SubmitHeaders\<close> calls, with the number of headers admitted since the
  current window began.\<close>

fun rate_run :: "submit_rate_limiter \<Rightarrow> nat \<Rightarrow> (u64 \<times> system_time) list \<Rightarrow> submit_rate_limiter \<times> nat" where
  "rate_run l admitted [] = (l, admitted)"
| "rate_run l admitted ((count, now) # rest) =
    (let (r, l') = rate_check l count now;
         base = (if rate_reset l now then 0 else admitted)
     in rate_run l' (if is_ok r then base + unat count else base) rest)"

definition rate_ok :: "submit_rate_limiter \<Rightarrow> nat \<Rightarrow> bool" where
  "rate_ok l admitted \<longleftrightarrow>
    admitted \<le> unat MAX_HEADERS_PER_RATE_WINDOW \<and> admitted \<le> unat (headers_in_window l)"

lemma rate_check_ok:
  assumes "rate_ok l admitted" "rate_check l count now = (r, l')"
  shows "rate_ok l' (if is_ok r then (if rate_reset l now then 0 else admitted) + unat count
                     else (if rate_reset l now then 0 else admitted))"
proof -
  let ?h = "if rate_reset l now then 0 else headers_in_window l"
  let ?a = "if rate_reset l now then 0 else admitted"
  have h': "headers_in_window l' = saturating_add ?h count"
    using assms(2) by (auto simp: rate_check_def Let_def split: if_splits)
  have a: "?a \<le> unat ?h" "?a \<le> unat MAX_HEADERS_PER_RATE_WINDOW"
    using assms(1) by (auto simp: rate_ok_def)
  have grow: "unat (headers_in_window l') = min (unat ?h + unat count) (2 ^ 64 - 1)"
    unfolding h' by (simp add: unat_saturating_add)
  have lim: "unat ?h < 2 ^ 64" using unsigned_less [of ?h] by simp
  show ?thesis
  proof (cases "is_ok r")
    case True
    then have "headers_in_window l' \<le> MAX_HEADERS_PER_RATE_WINDOW"
      using assms(2) by (auto simp: rate_check_def Let_def split: if_splits)
    then have le: "unat (headers_in_window l') \<le> 100000"
      by (simp add: word_le_nat_alt MAX_HEADERS_PER_RATE_WINDOW_def)
    then have "unat (headers_in_window l') = unat ?h + unat count"
      using grow by (simp add: min_def split: if_splits)
    with True a le show ?thesis
      by (auto simp: rate_ok_def MAX_HEADERS_PER_RATE_WINDOW_def)
  next
    case False
    have "unat ?h \<le> unat (headers_in_window l')"
      using grow lim by linarith
    with False a show ?thesis by (auto simp: rate_ok_def)
  qed
qed

lemma rate_run_ok: "rate_ok l admitted \<Longrightarrow> rate_run l admitted calls = (l', n) \<Longrightarrow> rate_ok l' n"
proof (induction calls arbitrary: l admitted)
  case (Cons call calls)
  obtain count now where call: "call = (count, now)" by fastforce
  obtain r l1 where r: "rate_check l count now = (r, l1)" by fastforce
  from rate_check_ok [OF Cons.prems(1) r] show ?case
    using Cons.IH Cons.prems(2) unfolding call rate_run.simps r Let_def prod.case by blast
qed simp

subsection \<open>Properties\<close>

text \<open>C33: over any run of refill requests at non-decreasing times, every window of one hour holds
  at most twelve admitted refills.\<close>

theorem refills_per_sliding_hour:
  assumes "sorted requests" "refill_run [] requests = (q, admitted)"
  shows "length (filter (\<lambda>y. y \<le> t \<and> t - y < REFILL_WINDOW) admitted) \<le> 12"
proof -
  have "sorted (0 # requests)" using assms(1) by simp
  from refill_run_log [OF refill_log_empty this assms(2)] show ?thesis
    by (auto simp: refill_log_ok_def in_window_def MAX_REFILLS_PER_HOUR_def)
qed

theorem refills_per_sliding_hour_witness:
  "length (filter (\<lambda>y. y \<le> 10 \<and> 10 - y < REFILL_WINDOW) [3, 5]) \<le> 12"
  by (rule refills_per_sliding_hour [of "[3, 5]" "[3, 5]"])
    (simp_all add: refill_admit_def REFILL_WINDOW_def from_secs_def MAX_REFILLS_PER_HOUR_def)

text \<open>Over any run of header submissions, valid or not, the headers admitted since the current
  rate window began sum to at most 100,000, although the counter saturates instead of
  overflowing.\<close>

lemma headers_per_rate_window:
  "snd (rate_run submit_rate_limiter_default 0 calls) \<le> 100000"
proof -
  obtain l n where run: "rate_run submit_rate_limiter_default 0 calls = (l, n)" by fastforce
  have "rate_ok submit_rate_limiter_default 0" by (simp add: rate_ok_def)
  from rate_run_ok [OF this run] run show ?thesis
    by (simp add: rate_ok_def MAX_HEADERS_PER_RATE_WINDOW_def)
qed

end
