(* ===== verification/Enclave_Phase.thy ===== *)
theory Enclave_Phase
  imports Replay_Guard Result_Cache Rate_Limits
begin

text \<open>
  The lifecycle of the enclave (\<open>enclave/src/state/enclave.rs\<close>), the pending cloning
  session (\<open>enclave/src/state/cloning_session.rs\<close>) and the strength check of a cloning
  secret (\<open>enclave/src/cloning.rs\<close>).

  A key manager is a value of the type parameter \<open>'km\<close>; the functions that build one
  are arguments. Every operation below is one critical section of the phase mutex; the
  two critical sections of the seed recovery are two operations, because other handlers
  run between them. The lemmas give the transition table, that an active key is never
  replaced, and that the export quota holds for concurrent exports.
\<close>

subsection \<open>Cloning secret and session\<close>

definition MIN_CLONING_SECRET_BYTES :: nat where
  "MIN_CLONING_SECRET_BYTES = 32"

definition MIN_CLONING_SECRET_DISTINCT_BYTES :: nat where
  "MIN_CLONING_SECRET_DISTINCT_BYTES = 8"

text \<open>The table of 256 flags and the counter of the loop; \<open>seen\<close> is indexed by the byte.\<close>

fun count_distinct :: "bytes \<Rightarrow> bool list \<Rightarrow> nat \<Rightarrow> nat" where
  "count_distinct [] flags n = n"
| "count_distinct (b # bs) flags n =
    count_distinct bs (flags[unat b := True]) (if flags ! unat b then n else n + 1)"

definition validate_cloning_secret :: "bytes \<Rightarrow> unit enclave_result" where
  "validate_cloning_secret secret =
    (if secret = [] then Inl (InvalidRequest ''cloning_secret is required'')
     else if length secret < MIN_CLONING_SECRET_BYTES
       then Inl (InvalidRequest ''cloning_secret too short'')
     else if count_distinct secret (replicate 256 False) 0 < MIN_CLONING_SECRET_DISTINCT_BYTES
       then Inl (InvalidRequest ''cloning_secret too low-entropy'')
     else Inr ())"

lemma count_distinct_card:
  assumes "length flags = 256"
  shows "count_distinct bs flags n = n + card (set bs - {b. flags ! unat b})"
  using assms
proof (induction bs flags n rule: count_distinct.induct)
  case (2 b bs flags n)
  let ?F = "{b. flags ! unat b}"
  have upd: "{c. flags[unat b := True] ! unat c} = insert b ?F"
  proof -
    have "unat b < length flags"
      using 2(2) unat_byte_lt by simp
    then show ?thesis
      by (auto simp: nth_list_update word_unat_eq_iff)
  qed
  have step: "count_distinct (b # bs) flags n
      = (if flags ! unat b then n else n + 1) + card (set bs - insert b ?F)"
    using 2 upd by simp
  show ?case
  proof (cases "flags ! unat b")
    case True
    then have "insert b ?F = ?F" by auto
    with True show ?thesis unfolding step by (simp add: insert_Diff_if)
  next
    case False
    have "set (b # bs) - ?F = insert b (set bs - insert b ?F)"
      using False by auto
    moreover have "card (insert b (set bs - insert b ?F)) = Suc (card (set bs - insert b ?F))"
      by (rule card_insert_disjoint) auto
    ultimately show ?thesis using False unfolding step by simp
  qed
qed simp

lemma validate_cloning_secret_iff:
  "validate_cloning_secret s = Inr () \<longleftrightarrow> 32 \<le> length s \<and> 8 \<le> card (set s)"
proof -
  have "{b :: u8. replicate 256 False ! unat b} = {}"
    using unat_byte_lt by auto
  then have "count_distinct s (replicate 256 False) 0 = card (set s)"
    using count_distinct_card [of "replicate 256 False" s 0] by simp
  then show ?thesis
    by (auto simp: validate_cloning_secret_def MIN_CLONING_SECRET_BYTES_def
        MIN_CLONING_SECRET_DISTINCT_BYTES_def)
qed

definition CLONING_SESSION_TTL :: duration where
  "CLONING_SESSION_TTL = from_secs (5 * 60)"

record clone_session =
  clone_secret :: bytes
  clone_public :: bytes

record cloning_session =
  session :: clone_session
  cluster_public_key :: bytes
  session_donor_secret :: bytes
  created_at :: instant

definition cloning_session_new_at ::
  "clone_session \<Rightarrow> bytes \<Rightarrow> bytes \<Rightarrow> instant \<Rightarrow> cloning_session enclave_result" where
  "cloning_session_new_at sess cluster secret now =
    and_then (validate_cloning_secret secret) (\<lambda>_.
      Inr \<lparr>session = sess, cluster_public_key = cluster, session_donor_secret = secret,
           created_at = now\<rparr>)"

definition session_is_expired :: "cloning_session \<Rightarrow> instant \<Rightarrow> bool" where
  "session_is_expired s now \<longleftrightarrow> CLONING_SESSION_TTL \<le> now - created_at s"

subsection \<open>State\<close>

datatype 'km phase =
  Initial
| Initializing
| Cloning cloning_session
| Active 'km

fun phase_name :: "'km phase \<Rightarrow> string" where
  "phase_name Initial = ''initial''"
| "phase_name Initializing = ''initializing''"
| "phase_name (Cloning _) = ''cloning''"
| "phase_name (Active _) = ''active''"

record ('km, 'r) enclave_state =
  phase :: "'km phase"
  seed_source :: "(instant \<Rightarrow> 'km enclave_result) option"
  donor_cloning_secret :: "bytes option"
  replay_guard :: nonce_replay_guard
  op_replay_guard :: nonce_replay_guard
  signed_results :: "'r signed_result_cache"
  refill_rate :: "instant list"
  seed_export_count :: u64
  seed_export_slots :: u64
  seed_export_soft_cap :: u64
  seed_export_hard_cap :: u64

text \<open>The two caps are the parsed environment variables, 0 when unset or invalid.\<close>

definition enclave_state_new :: "u64 \<Rightarrow> u64 \<Rightarrow> ('km, 'r) enclave_state" where
  "enclave_state_new soft hard =
    \<lparr>phase = Initial, seed_source = None, donor_cloning_secret = None,
     replay_guard = with_capacity DEFAULT_NONCE_MAX DEFAULT_NONCE_TTL,
     op_replay_guard = with_capacity DEFAULT_OP_DEDUP_MAX DEFAULT_OP_DEDUP_TTL,
     signed_results = cache_with_capacity DEFAULT_RESULT_MAX DEFAULT_RESULT_TTL,
     refill_rate = [],
     seed_export_count = 0, seed_export_slots = 0,
     seed_export_soft_cap = soft, seed_export_hard_cap = hard\<rparr>"

fun ensure_initial :: "'km phase \<Rightarrow> unit enclave_result" where
  "ensure_initial Initial = Inr ()"
| "ensure_initial Initializing = Inl (NotReady (phase_name (Initializing :: 'km phase)))"
| "ensure_initial _ = Inl AlreadyInitialized"

definition is_initialized :: "('km, 'r) enclave_state \<Rightarrow> bool" where
  "is_initialized st = (case phase st of Active _ \<Rightarrow> True | _ \<Rightarrow> False)"

definition with_active ::
  "('km, 'r) enclave_state \<Rightarrow> ('km \<Rightarrow> 'a enclave_result) \<Rightarrow> 'a enclave_result" where
  "with_active st f = (case phase st of Active km \<Rightarrow> f km | _ \<Rightarrow> Inl KeyNotInitialized)"

subsection \<open>Initialisation\<close>

definition set_seed_source ::
  "('km, 'r) enclave_state \<Rightarrow> (instant \<Rightarrow> 'km enclave_result)
    \<Rightarrow> unit enclave_result \<times> ('km, 'r) enclave_state" where
  "set_seed_source st src = (case seed_source st of
      None \<Rightarrow> (Inr (), st\<lparr>seed_source := Some src\<rparr>)
    | Some _ \<Rightarrow> (Inl (Internal ''the seed source is already set''), st))"

definition remaining_until :: "instant \<Rightarrow> instant \<Rightarrow> duration enclave_result" where
  "remaining_until deadline now =
    (if deadline - now = 0 then Inl (Io ''request deadline exceeded'') else Inr (deadline - now))"

text \<open>The common body of \<open>initialize_from_entropy\<close>, \<open>initialize_from_mnemonic\<close> and
  \<open>initialize_from_seed\<close>: they differ in the constructor of \<open>KeyManager\<close> they call and in
  what they return beside it.\<close>

definition initialize_with ::
  "('km, 'r) enclave_state \<Rightarrow> ('km \<times> 'a) enclave_result
    \<Rightarrow> 'a enclave_result \<times> ('km, 'r) enclave_state" where
  "initialize_with st made =
    (case and_then (ensure_initial (phase st)) (\<lambda>_. made) of
       Inl e \<Rightarrow> (Inl e, st)
     | Inr (km, x) \<Rightarrow> (Inr x, st\<lparr>phase := Active km\<rparr>))"

definition initialize_from_entropy ::
  "(bytes \<Rightarrow> ('km \<times> string) enclave_result) \<Rightarrow> ('km, 'r) enclave_state \<Rightarrow> bytes
    \<Rightarrow> string enclave_result \<times> ('km, 'r) enclave_state" where
  "initialize_from_entropy generate st entropy = initialize_with st (generate entropy)"

definition initialize_from_mnemonic ::
  "(string \<Rightarrow> 'km enclave_result) \<Rightarrow> ('km, 'r) enclave_state \<Rightarrow> string
    \<Rightarrow> unit enclave_result \<times> ('km, 'r) enclave_state" where
  "initialize_from_mnemonic from_mnemonic st m =
    initialize_with st (and_then (from_mnemonic m) (\<lambda>km. Inr (km, ())))"

definition initialize_from_seed ::
  "(bytes \<Rightarrow> 'km enclave_result) \<Rightarrow> ('km, 'r) enclave_state \<Rightarrow> bytes
    \<Rightarrow> unit enclave_result \<times> ('km, 'r) enclave_state" where
  "initialize_from_seed from_seed st seed =
    initialize_with st (and_then (from_seed seed) (\<lambda>km. Inr (km, ())))"

definition RECOVERY_TIMEOUT :: duration where
  "RECOVERY_TIMEOUT = from_secs 25"

text \<open>The first critical section of \<open>initialize_from_persistence_until\<close>: it returns the
  deadline and the seed source that the recovery then calls without the lock.\<close>

definition recovery_begin ::
  "('km, 'r) enclave_state \<Rightarrow> instant \<Rightarrow> instant
    \<Rightarrow> (instant \<times> (instant \<Rightarrow> 'km enclave_result)) enclave_result \<times> ('km, 'r) enclave_state" where
  "recovery_begin st deadline now =
    (let deadline = min deadline (now + RECOVERY_TIMEOUT) in
     case and_then (remaining_until deadline now) (\<lambda>_.
          and_then (ok_or (seed_source st)
            (InvalidRequest ''KMS persistence requires a configured seed source'')) (\<lambda>src.
          and_then (ensure_initial (phase st)) (\<lambda>_. Inr (deadline, src)))) of
       Inl e \<Rightarrow> (Inl e, st)
     | Inr r \<Rightarrow> (Inr r, st\<lparr>phase := Initializing\<rparr>))"

text \<open>The drop guard of the reservation.\<close>

definition seed_initialization_drop :: "('km, 'r) enclave_state \<Rightarrow> ('km, 'r) enclave_state" where
  "seed_initialization_drop st =
    (case phase st of Initializing \<Rightarrow> st\<lparr>phase := Initial\<rparr> | _ \<Rightarrow> st)"

text \<open>The second critical section, with what \<open>load_keys\<close> returned and the time at which
  the lock is taken again; the drop guard runs on every return.\<close>

definition recovery_finish ::
  "('km, 'r) enclave_state \<Rightarrow> 'km enclave_result \<Rightarrow> instant \<Rightarrow> instant
    \<Rightarrow> unit enclave_result \<times> ('km, 'r) enclave_state" where
  "recovery_finish st loaded deadline now =
    (case and_then loaded (\<lambda>km.
          and_then (remaining_until deadline now) (\<lambda>_.
          (case phase st of Initializing \<Rightarrow> Inr km | p \<Rightarrow> Inl (NotReady (phase_name p))))) of
       Inl e \<Rightarrow> (Inl e, seed_initialization_drop st)
     | Inr km \<Rightarrow> (Inr (), seed_initialization_drop (st\<lparr>phase := Active km\<rparr>)))"

definition initialize_from_persistence_until ::
  "('km, 'r) enclave_state \<Rightarrow> instant \<Rightarrow> instant \<Rightarrow> instant
    \<Rightarrow> unit enclave_result \<times> ('km, 'r) enclave_state" where
  "initialize_from_persistence_until st deadline now now' =
    (case recovery_begin st deadline now of
       (Inl e, st') \<Rightarrow> (Inl e, st')
     | (Inr (dl, src), st') \<Rightarrow> recovery_finish st' (src dl) dl now')"

subsection \<open>Cloning\<close>

definition set_donor_cloning_secret ::
  "('km, 'r) enclave_state \<Rightarrow> bytes \<Rightarrow> unit enclave_result \<times> ('km, 'r) enclave_state" where
  "set_donor_cloning_secret st secret =
    (case validate_cloning_secret secret of
       Inl e \<Rightarrow> (Inl e, st)
     | Inr _ \<Rightarrow> (Inr (), st\<lparr>donor_cloning_secret := Some secret\<rparr>))"

definition with_donor_cloning_secret ::
  "('km, 'r) enclave_state \<Rightarrow> (bytes \<Rightarrow> 'a enclave_result) \<Rightarrow> 'a enclave_result" where
  "with_donor_cloning_secret st f = (case donor_cloning_secret st of
      Some secret \<Rightarrow> f secret
    | None \<Rightarrow> Inl (NotReady ''donor cloning secret not configured''))"

definition enter_cloning_at ::
  "('km, 'r) enclave_state \<Rightarrow> cloning_session \<Rightarrow> instant
    \<Rightarrow> unit enclave_result \<times> ('km, 'r) enclave_state" where
  "enter_cloning_at st sess now =
    (if (case phase st of
           Initial \<Rightarrow> True
         | Cloning existing \<Rightarrow> session_is_expired existing now
         | _ \<Rightarrow> False)
     then (Inr (), st\<lparr>phase := Cloning sess\<rparr>)
     else (Inl AlreadyInitialized, st))"

definition with_cloning_session ::
  "('km, 'r) enclave_state \<Rightarrow> (cloning_session \<Rightarrow> 'a enclave_result) \<Rightarrow> 'a enclave_result" where
  "with_cloning_session st f = (case phase st of
      Cloning s \<Rightarrow> f s
    | other \<Rightarrow> Inl (NotReady (phase_name other)))"

definition complete_cloning ::
  "('km, 'r) enclave_state \<Rightarrow> (cloning_session \<Rightarrow> 'km enclave_result)
    \<Rightarrow> unit enclave_result \<times> ('km, 'r) enclave_state" where
  "complete_cloning st f = (case phase st of
      Cloning s \<Rightarrow> (case f s of
          Inl e \<Rightarrow> (Inl e, st)
        | Inr km \<Rightarrow> (Inr (), st\<lparr>donor_cloning_secret := Some (session_donor_secret s),
                               phase := Active km\<rparr>))
    | other \<Rightarrow> (Inl (NotReady (phase_name other)), st))"

subsection \<open>Seed exports\<close>

record export_quota_reservation =
  reserved :: bool

definition reserve_export_quota ::
  "('km, 'r) enclave_state
    \<Rightarrow> export_quota_reservation enclave_result \<times> ('km, 'r) enclave_state" where
  "reserve_export_quota st =
    (let cap = seed_export_hard_cap st; used = seed_export_slots st in
     if 0 < cap then
       (if used < cap then (Inr \<lparr>reserved = True\<rparr>, st\<lparr>seed_export_slots := used + 1\<rparr>)
        else (Inl (ExportCapReached used cap), st))
     else (Inr \<lparr>reserved = False\<rparr>, st))"

definition record_seed_export :: "('km, 'r) enclave_state \<Rightarrow> u64 \<times> ('km, 'r) enclave_state" where
  "record_seed_export st =
    (let count = seed_export_count st + 1 in (count, st\<lparr>seed_export_count := count\<rparr>))"

text \<open>\<open>commit\<close> clears the flag, so the drop that follows it releases nothing.\<close>

definition export_drop ::
  "('km, 'r) enclave_state \<Rightarrow> export_quota_reservation \<Rightarrow> ('km, 'r) enclave_state" where
  "export_drop st q =
    (if reserved q then st\<lparr>seed_export_slots := seed_export_slots st - 1\<rparr> else st)"

definition export_commit ::
  "('km, 'r) enclave_state \<Rightarrow> export_quota_reservation \<Rightarrow> u64 \<times> ('km, 'r) enclave_state" where
  "export_commit st q =
    (let q = q\<lparr>reserved := False\<rparr>; (count, st') = record_seed_export st
     in (count, export_drop st' q))"

subsection \<open>The phase machine\<close>

text \<open>One step is one critical section run by some handler thread.\<close>

inductive phase_step :: "('km, 'r) enclave_state \<Rightarrow> ('km, 'r) enclave_state \<Rightarrow> bool" where
  step_entropy: "initialize_from_entropy generate st entropy = (m, st') \<Longrightarrow> phase_step st st'"
| step_mnemonic: "initialize_from_mnemonic from_m st words = (r, st') \<Longrightarrow> phase_step st st'"
| step_seed: "initialize_from_seed from_s st seed = (r, st') \<Longrightarrow> phase_step st st'"
| step_recovery_begin: "recovery_begin st dl now = (r, st') \<Longrightarrow> phase_step st st'"
| step_recovery_finish: "recovery_finish st loaded dl now = (r, st') \<Longrightarrow> phase_step st st'"
| step_set_seed_source: "set_seed_source st src = (r, st') \<Longrightarrow> phase_step st st'"
| step_set_donor: "set_donor_cloning_secret st secret = (r, st') \<Longrightarrow> phase_step st st'"
| step_enter_cloning: "cloning_session_new_at cs cluster secret now = Inr sess \<Longrightarrow>
    enter_cloning_at st sess now' = (r, st') \<Longrightarrow> phase_step st st'"
| step_complete_cloning: "complete_cloning st f = (r, st') \<Longrightarrow> phase_step st st'"
| step_export: "reserve_export_quota st = (r, st') \<Longrightarrow> phase_step st st'"
| step_export_commit: "export_commit st q = (n, st') \<Longrightarrow> phase_step st st'"
| step_export_drop: "phase_step st (export_drop st q)"

text \<open>The transitions listed at \<open>Phase\<close> in the source, an expired session included.\<close>

inductive allowed :: "'km phase \<Rightarrow> 'km phase \<Rightarrow> bool" where
  "allowed p p"
| "allowed Initial (Active km)"
| "allowed Initial Initializing"
| "allowed Initializing (Active km)"
| "allowed Initializing Initial"
| "allowed Initial (Cloning s)"
| "session_is_expired s now \<Longrightarrow> allowed (Cloning s) (Cloning s')"
| "allowed (Cloning s) (Active km)"

inductive_simps allowed_from_Active [simp]: "allowed (Active km) p"

lemmas phase_op_defs = initialize_with_def recovery_begin_def recovery_finish_def
  set_seed_source_def set_donor_cloning_secret_def enter_cloning_at_def complete_cloning_def
  reserve_export_quota_def export_commit_def record_seed_export_def export_drop_def
  seed_initialization_drop_def

lemma ensure_initial_Inr: "ensure_initial p = Inr u \<longleftrightarrow> p = Initial"
  by (cases p) auto

lemma initialize_with_allowed:
  "initialize_with st made = (r, st') \<Longrightarrow> allowed (phase st) (phase st')"
  by (auto simp: initialize_with_def result_simps ensure_initial_Inr
      split: sum.splits prod.splits intro: allowed.intros)

lemma recovery_begin_allowed:
  "recovery_begin st dl now = (r, st') \<Longrightarrow> allowed (phase st) (phase st')"
  by (auto simp: recovery_begin_def Let_def result_simps ensure_initial_Inr
      split: sum.splits prod.splits intro: allowed.intros)

lemma recovery_finish_allowed:
  "recovery_finish st loaded dl now = (r, st') \<Longrightarrow> allowed (phase st) (phase st')"
  by (cases "phase st") (auto simp: recovery_finish_def seed_initialization_drop_def result_simps
      split: sum.splits intro: allowed.intros)

lemma enter_cloning_allowed:
  "enter_cloning_at st sess now = (r, st') \<Longrightarrow> allowed (phase st) (phase st')"
  by (auto simp: enter_cloning_at_def split: if_splits phase.splits intro: allowed.intros)

lemma complete_cloning_allowed:
  "complete_cloning st f = (r, st') \<Longrightarrow> allowed (phase st) (phase st')"
  by (auto simp: complete_cloning_def split: sum.splits phase.splits intro: allowed.intros)

lemma phase_step_allowed: "phase_step st st' \<Longrightarrow> allowed (phase st) (phase st')"
proof (induction rule: phase_step.induct)
  case (step_set_seed_source st src r st')
  then show ?case
    by (auto simp: set_seed_source_def split: option.splits intro: allowed.intros)
next
  case (step_set_donor st secret r st')
  then show ?case
    by (auto simp: set_donor_cloning_secret_def split: sum.splits intro: allowed.intros)
next
  case (step_export st r st')
  then show ?case
    by (auto simp: reserve_export_quota_def Let_def split: if_splits intro: allowed.intros)
next
  case (step_export_commit st q n st')
  then show ?case
    by (auto simp: export_commit_def record_seed_export_def export_drop_def Let_def
        intro: allowed.intros)
next
  case (step_export_drop st q)
  then show ?case by (auto simp: export_drop_def intro: allowed.intros)
qed (auto simp: initialize_from_entropy_def initialize_from_mnemonic_def initialize_from_seed_def
    intro: initialize_with_allowed recovery_begin_allowed recovery_finish_allowed
    enter_cloning_allowed complete_cloning_allowed)

lemma active_stays:
  "phase_step\<^sup>*\<^sup>* st st' \<Longrightarrow> phase st = Active km \<Longrightarrow> phase st' = Active km"
proof (induction rule: rtranclp_induct)
  case (step st1 st2)
  then have "allowed (Active km) (phase st2)"
    using phase_step_allowed [OF step(2)] by simp
  then show ?case by simp
qed simp

subsection \<open>Concurrent exports\<close>

text \<open>The state together with the export reservations that handlers still hold.\<close>

inductive export_reachable ::
  "u64 \<Rightarrow> ('km, 'r) enclave_state \<Rightarrow> export_quota_reservation list \<Rightarrow> bool" for cap :: u64 where
  export_init: "export_reachable cap (enclave_state_new soft cap) []"
| export_take: "export_reachable cap st qs \<Longrightarrow> reserve_export_quota st = (Inr q, st')
    \<Longrightarrow> export_reachable cap st' (q # qs)"
| export_refused: "export_reachable cap st qs \<Longrightarrow> reserve_export_quota st = (Inl e, st')
    \<Longrightarrow> export_reachable cap st' qs"
| export_done: "export_reachable cap st qs \<Longrightarrow> q \<in> set qs \<Longrightarrow> export_commit st q = (n, st')
    \<Longrightarrow> export_reachable cap st' (remove1 q qs)"
| export_failed: "export_reachable cap st qs \<Longrightarrow> q \<in> set qs
    \<Longrightarrow> export_reachable cap (export_drop st q) (remove1 q qs)"

definition export_inv ::
  "u64 \<Rightarrow> ('km, 'r) enclave_state \<Rightarrow> export_quota_reservation list \<Rightarrow> bool" where
  "export_inv cap st qs \<longleftrightarrow> seed_export_hard_cap st = cap \<and>
    (\<forall>q\<in>set qs. reserved q \<longleftrightarrow> 0 < cap) \<and>
    (0 < cap \<longrightarrow> unat (seed_export_slots st) = unat (seed_export_count st) + length qs \<and>
       seed_export_slots st \<le> cap)"

lemma export_inv_take:
  assumes "export_inv cap st qs" "reserve_export_quota st = (Inr q, st')"
  shows "export_inv cap st' (q # qs)"
proof (cases "0 < cap")
  case True
  then have lt: "seed_export_slots st < cap"
    and st': "st' = st\<lparr>seed_export_slots := seed_export_slots st + 1\<rparr>" "reserved q"
    using assms by (auto simp: export_inv_def reserve_export_quota_def Let_def split: if_splits)
  have "seed_export_slots st + 1 \<le> cap"
    using lt unat_inc [OF lt] by (simp add: word_le_nat_alt word_less_nat_alt)
  with True assms(1) st' unat_inc [OF lt] show ?thesis
    by (simp add: export_inv_def)
next
  case False
  with assms show ?thesis
    by (auto simp: export_inv_def reserve_export_quota_def Let_def split: if_splits)
qed

lemma export_inv_refused:
  "export_inv cap st qs \<Longrightarrow> reserve_export_quota st = (Inl e, st') \<Longrightarrow> export_inv cap st' qs"
  by (auto simp: reserve_export_quota_def Let_def split: if_splits)

lemma length_remove1_Suc: "q \<in> set qs \<Longrightarrow> length qs = Suc (length (remove1 q qs))"
  by (simp add: length_remove1) (metis length_pos_if_in_set Suc_pred)

lemma export_inv_done:
  assumes inv: "export_inv cap st qs" and q: "q \<in> set qs" and c: "export_commit st q = (n, st')"
  shows "export_inv cap st' (remove1 q qs)"
proof -
  have st': "st' = st\<lparr>seed_export_count := seed_export_count st + 1\<rparr>"
    using c by (auto simp: export_commit_def record_seed_export_def export_drop_def Let_def)
  have "unat (seed_export_count st + 1) = Suc (unat (seed_export_count st))" if "0 < cap"
  proof (rule unat_inc)
    show "seed_export_count st < seed_export_slots st"
      using inv that length_remove1_Suc [OF q] by (simp add: export_inv_def word_less_nat_alt)
  qed
  with inv length_remove1_Suc [OF q] show ?thesis
    unfolding st' by (auto simp: export_inv_def dest: notin_set_remove1)
qed

lemma export_inv_failed:
  assumes inv: "export_inv cap st qs" and q: "q \<in> set qs"
  shows "export_inv cap (export_drop st q) (remove1 q qs)"
proof (cases "0 < cap")
  case True
  have pos: "0 < unat (seed_export_slots st)"
    using inv True length_remove1_Suc [OF q] by (simp add: export_inv_def)
  then have "unat (seed_export_slots st - 1) = unat (seed_export_slots st) - 1"
    by (intro unat_minus_one) auto
  moreover have "seed_export_slots st - 1 \<le> cap"
    using calculation inv True unfolding export_inv_def word_le_nat_alt by linarith
  moreover have "reserved q"
    using inv q True by (simp add: export_inv_def)
  ultimately show ?thesis
    using inv True length_remove1_Suc [OF q]
    by (auto simp: export_inv_def export_drop_def dest: notin_set_remove1)
next
  case False
  with inv q show ?thesis
    by (auto simp: export_inv_def export_drop_def dest: notin_set_remove1)
qed

lemma export_reachable_inv: "export_reachable cap st qs \<Longrightarrow> export_inv cap st qs"
proof (induction rule: export_reachable.induct)
  case (export_init soft)
  then show ?case by (simp add: export_inv_def enclave_state_new_def)
qed (blast intro: export_inv_take export_inv_refused export_inv_done export_inv_failed)+

subsection \<open>Properties\<close>

definition demo_state :: "(nat, nat) enclave_state" where
  "demo_state = enclave_state_new 0 1"

definition demo_active :: "(nat, nat) enclave_state" where
  "demo_active = demo_state\<lparr>phase := Active 7\<rparr>"

lemma demo_activate: "initialize_from_seed (\<lambda>s. Inr 7) demo_state [1] = (Inr (), demo_active)"
  by (simp add: initialize_from_seed_def initialize_with_def demo_state_def demo_active_def
      enclave_state_new_def)



text \<open>C12: once keys are active, no interleaving of initialisation, recovery, cloning and export
  operations ever replaces or removes them.\<close>

theorem active_keys_never_replaced:
  assumes "phase_step\<^sup>*\<^sup>* st st'" "phase st = Active km"
  shows "phase st' = Active km \<and> with_active st' f = f km"
  using active_stays [OF assms] by (simp add: with_active_def)

theorem active_keys_never_replaced_witness:
  "phase (snd (initialize_from_seed (\<lambda>s. Inr 8) demo_active [2])) = Active 7"
proof -
  obtain r st' where s: "initialize_from_seed (\<lambda>s. Inr 8) demo_active [2] = (r, st')" by fastforce
  have "phase_step\<^sup>*\<^sup>* demo_active st'"
    using step_seed [OF s] by blast
  moreover have "phase demo_active = Active 7"
    by (simp add: demo_active_def)
  ultimately have "phase st' = Active 7 \<and>
      with_active st' (\<lambda>_. Inl KeyNotInitialized :: unit enclave_result) = Inl KeyNotInitialized"
    by (rule active_keys_never_replaced)
  then show ?thesis by (simp add: s)
qed

text \<open>C22: with a hard cap, under any interleaving of export reservations, commits and failures,
  the exports done plus the exports in progress equal the used slots and never exceed the cap;
  releasing a slot never underflows the counter.\<close>

theorem seed_exports_capped:
  assumes "export_reachable cap st qs" "0 < cap"
  shows "unat (seed_export_count st) + length qs = unat (seed_export_slots st) \<and>
    unat (seed_export_count st) + length qs \<le> unat cap"
  using export_reachable_inv [OF assms(1)] assms(2) by (simp add: export_inv_def word_le_nat_alt)

theorem seed_exports_capped_witness:
  "\<exists>st. reserve_export_quota demo_state = (Inr \<lparr>reserved = True\<rparr>, st) \<and>
     unat (seed_export_count st) + 1 \<le> unat (1 :: u64)"
proof -
  obtain st where st: "reserve_export_quota demo_state = (Inr \<lparr>reserved = True\<rparr>, st)"
    by (simp add: reserve_export_quota_def demo_state_def enclave_state_new_def)
  have "export_reachable 1 st [\<lparr>reserved = True\<rparr>]"
    using export_take [OF export_init st [unfolded demo_state_def]] .
  from seed_exports_capped [OF this] st show ?thesis by auto
qed

text \<open>C31: a seed recovery that starts in the initial phase activates the keys that the source
  returned only if the source succeeds and the deadline, capped at 25 seconds, has passed
  neither before nor after the call; in every other case the phase is \<open>Initial\<close> again and the
  state is unchanged.\<close>

theorem seed_recovery_outcome:
  assumes "phase st = Initial" "seed_source st = Some src"
  shows "initialize_from_persistence_until st deadline now now' =
    (let dl = min deadline (now + RECOVERY_TIMEOUT) in
     if dl \<le> now then (Inl (Io ''request deadline exceeded''), st)
     else case src dl of
         Inl e \<Rightarrow> (Inl e, st)
       | Inr km \<Rightarrow> (if dl \<le> now' then (Inl (Io ''request deadline exceeded''), st)
                   else (Inr (), st\<lparr>phase := Active km\<rparr>)))"
  using assms
  by (auto simp: initialize_from_persistence_until_def recovery_begin_def recovery_finish_def
      remaining_until_def seed_initialization_drop_def Let_def split: sum.split)

theorem seed_recovery_outcome_witness:
  "initialize_from_persistence_until (demo_state\<lparr>seed_source := Some (\<lambda>_. Inr 7)\<rparr>) 100 1 2 =
     (Inr (), demo_state\<lparr>seed_source := Some (\<lambda>_. Inr 7), phase := Active 7\<rparr>)"
  using seed_recovery_outcome [of "demo_state\<lparr>seed_source := Some (\<lambda>_. Inr 7)\<rparr>" "\<lambda>_. Inr 7" 100 1 2]
  by (simp add: demo_state_def enclave_state_new_def RECOVERY_TIMEOUT_def from_secs_def)

end
