(* ===== verification/Header_Rules.thy ===== *)
theory Header_Rules
  imports Enclave_Error
begin

text \<open>
  Bitcoin networks, checkpoints and the per-header rules
  (\<open>enclave/src/networks/rgb/spv/types.rs\<close>, \<open>checkpoint.rs\<close>, \<open>validation.rs\<close>).

  The \<open>bitcoin\<close> crate is a parameter: a record of the functions that the code calls
  (parsing and hashing a header, its work, the proof-of-work check against its own
  target, the retarget formula and the consensus parameters). The lemmas characterise
  each rule, and \<open>validate_header_full\<close> as their conjunction in order.
\<close>

subsection \<open>Networks and errors\<close>

datatype btc_network = Mainnet | Signet | SignetCustom | Testnet3 | Testnet4 | Regtest

definition network_from_env_str :: "string \<Rightarrow> btc_network option" where
  "network_from_env_str s =
    (if s = ''bitcoin'' \<or> s = ''mainnet'' then Some Mainnet
     else if s = ''signet'' then Some Signet
     else if s = ''signetcustom'' then Some SignetCustom
     else if s = ''testnet'' \<or> s = ''testnet3'' then Some Testnet3
     else if s = ''testnet4'' then Some Testnet4
     else if s = ''regtest'' then Some Regtest
     else None)"

datatype key_network = KeyBitcoin | KeySignet | KeyTestnet | KeyTestnet4 | KeyRegtest

fun bitcoin_network :: "btc_network \<Rightarrow> key_network" where
  "bitcoin_network Mainnet = KeyBitcoin"
| "bitcoin_network Signet = KeySignet"
| "bitcoin_network SignetCustom = KeySignet"
| "bitcoin_network Testnet3 = KeyTestnet"
| "bitcoin_network Testnet4 = KeyTestnet4"
| "bitcoin_network Regtest = KeyRegtest"

datatype chain_net =
  BitcoinMainnet | BitcoinSignet | BitcoinSignetCustom
| BitcoinTestnet3 | BitcoinTestnet4 | BitcoinRegtest

fun network_chain_net :: "btc_network \<Rightarrow> chain_net" where
  "network_chain_net Mainnet = BitcoinMainnet"
| "network_chain_net Signet = BitcoinSignet"
| "network_chain_net SignetCustom = BitcoinSignetCustom"
| "network_chain_net Testnet3 = BitcoinTestnet3"
| "network_chain_net Testnet4 = BitcoinTestnet4"
| "network_chain_net Regtest = BitcoinRegtest"

definition enforces_pow :: "btc_network \<Rightarrow> bool" where
  "enforces_pow n \<longleftrightarrow> n = Mainnet \<or> n = Testnet3 \<or> n = Testnet4"

definition bip94 :: "btc_network \<Rightarrow> bool" where
  "bip94 n \<longleftrightarrow> n = Testnet4"

datatype spv_error =
  HeaderParse nat
| ChainLinkage u32
| PowFailed u32
| BitsMismatch u32 u32 u32
| NonContiguous u32 u32
| BelowCheckpoint u32 u32
| ReorgTooDeep u32 u32
| WeakerChain
| BatchTooLarge nat nat
| ChainTooLong nat nat
| Timewarp u32 u32 u32
| TimeTooNew u32 u32 u64
| TimeTooOld u32 u32 u32
| HeaderNotFound u32
| CheckpointPlaceholder

type_synonym 'a spv_result = "(spv_error, 'a) result"

subsection \<open>Interface of the bitcoin crate\<close>

record btc_header =
  hdr_version :: u32
  prev_blockhash :: bytes
  merkle_root :: bytes
  hdr_time :: u32
  hdr_bits :: u32
  hdr_nonce :: u32

text \<open>\<open>Work\<close> is a 256-bit unsigned number of the crate, compared as such; its addition is
  the crate's. \<open>meets_target h\<close> is \<open>h.validate_pow(h.target())\<close> returning \<open>Ok\<close>.\<close>

record btc_lib =
  deserialize_header :: "bytes \<Rightarrow> btc_header option"
  block_hash :: "btc_header \<Rightarrow> bytes"
  header_work :: "btc_header \<Rightarrow> u256"
  work_add :: "u256 \<Rightarrow> u256 \<Rightarrow> u256"
  meets_target :: "btc_header \<Rightarrow> bool"
  next_work_required :: "u32 \<Rightarrow> u64 \<Rightarrow> btc_network \<Rightarrow> u32"
  pow_target_spacing :: "btc_network \<Rightarrow> u64"
  allow_min_difficulty_blocks :: "btc_network \<Rightarrow> bool"
  max_target_bits :: "btc_network \<Rightarrow> u32"

definition allows_min_difficulty :: "btc_lib \<Rightarrow> btc_network \<Rightarrow> bool" where
  "allows_min_difficulty lib n \<longleftrightarrow> enforces_pow n \<and> allow_min_difficulty_blocks lib n"

definition pow_limit_bits :: "btc_lib \<Rightarrow> btc_network \<Rightarrow> u32" where
  "pow_limit_bits lib n = max_target_bits lib n"

subsection \<open>Rules\<close>

definition RETARGET_INTERVAL :: u32 where "RETARGET_INTERVAL = 2016"
definition MAX_TIMEWARP_SECS :: u32 where "MAX_TIMEWARP_SECS = 600"
definition MAX_FUTURE_BLOCK_TIME_SECS :: u64 where "MAX_FUTURE_BLOCK_TIME_SECS = 2 * 60 * 60"
definition MEDIAN_TIME_SPAN :: nat where "MEDIAN_TIME_SPAN = 11"

definition is_retarget_height :: "u32 \<Rightarrow> bool" where
  "is_retarget_height height \<longleftrightarrow> height mod RETARGET_INTERVAL = 0"

definition check_linkage :: "btc_header \<Rightarrow> bytes \<Rightarrow> u32 \<Rightarrow> unit spv_result" where
  "check_linkage header expected_prev_hash height =
    require (prev_blockhash header = expected_prev_hash) (ChainLinkage height)"

definition check_pow :: "btc_lib \<Rightarrow> btc_header \<Rightarrow> u32 \<Rightarrow> btc_network \<Rightarrow> unit spv_result" where
  "check_pow lib header height network =
    (if \<not> enforces_pow network then Inr ()
     else require (meets_target lib header) (PowFailed height))"

record bits_input =
  bi_height :: u32
  bi_header_time :: u32
  bi_prev_bits :: u32
  bi_prev_time :: u32
  bi_period_bits :: u32
  bi_epoch_first_bits :: u32
  bi_epoch_first_time :: u32

text \<open>\<open>u64::from\<close> of a \<open>u32\<close> is \<^const>\<open>ucast\<close>; the sums below stay in \<open>u64\<close>.\<close>

definition expected_bits :: "btc_lib \<Rightarrow> bits_input \<Rightarrow> btc_network \<Rightarrow> u32 option" where
  "expected_bits lib input network =
    (if \<not> enforces_pow network then None
     else if \<not> is_retarget_height (bi_height input) then
       (if \<not> allows_min_difficulty lib network then Some (bi_prev_bits input)
        else let min_difficulty_after =
               ucast (bi_prev_time input) + 2 * pow_target_spacing lib network
          in if min_difficulty_after < ucast (bi_header_time input)
             then Some (pow_limit_bits lib network)
             else Some (bi_period_bits input))
     else let base = (if bip94 network then bi_epoch_first_bits input else bi_prev_bits input);
              actual_timespan =
                ucast (saturating_sub (bi_prev_time input) (bi_epoch_first_time input))
       in Some (next_work_required lib base actual_timespan network))"

definition check_timewarp :: "u32 \<Rightarrow> u32 \<Rightarrow> u32 \<Rightarrow> btc_network \<Rightarrow> unit spv_result" where
  "check_timewarp height time prev_time network =
    (if \<not> bip94 network \<or> \<not> is_retarget_height height then Inr ()
     else if (ucast time + ucast MAX_TIMEWARP_SECS :: u64) < ucast prev_time
       then Inl (Timewarp height time prev_time)
     else Inr ())"

definition check_future_time :: "u32 \<Rightarrow> u32 \<Rightarrow> u64 \<Rightarrow> unit spv_result" where
  "check_future_time height time now_unix =
    (if saturating_add now_unix MAX_FUTURE_BLOCK_TIME_SECS < ucast time
     then Inl (TimeTooNew height time now_unix) else Inr ())"

text \<open>The function sorts its argument and takes the middle value; it is called on a
  non-empty window only.\<close>

definition median_time_past :: "u32 list \<Rightarrow> u32" where
  "median_time_past ts = sort ts ! (length ts div 2)"

definition check_time_too_old :: "u32 \<Rightarrow> u32 \<Rightarrow> u32 option \<Rightarrow> unit spv_result" where
  "check_time_too_old height time mtp = (case mtp of
      None \<Rightarrow> Inr ()
    | Some m \<Rightarrow> if time \<le> m then Inl (TimeTooOld height time m) else Inr ())"

record predecessor =
  pred_hash :: bytes
  pred_time :: u32

definition validate_header_full ::
  "btc_lib \<Rightarrow> btc_header \<Rightarrow> u32 \<Rightarrow> predecessor \<Rightarrow> u32 option \<Rightarrow> u32 option
    \<Rightarrow> btc_network \<Rightarrow> u64 \<Rightarrow> unit spv_result" where
  "validate_header_full lib header height prev mtp expected_bits_value network now_unix =
    and_then (check_linkage header (pred_hash prev) height) (\<lambda>_.
    and_then (check_timewarp height (hdr_time header) (pred_time prev) network) (\<lambda>_.
    and_then (check_future_time height (hdr_time header) now_unix) (\<lambda>_.
    and_then (check_time_too_old height (hdr_time header) mtp) (\<lambda>_.
    and_then (case expected_bits_value of
        None \<Rightarrow> Inr ()
      | Some expected \<Rightarrow> require (hdr_bits header = expected)
                           (BitsMismatch height (hdr_bits header) expected)) (\<lambda>_.
    check_pow lib header height network)))))"

subsection \<open>What the rules say\<close>

lemma is_retarget_height_nat: "is_retarget_height h \<longleftrightarrow> unat h mod 2016 = 0"
  by (simp add: is_retarget_height_def RETARGET_INTERVAL_def word_unat_eq_iff unat_mod_distrib)

lemma check_linkage_Inr [result_simps]:
  "check_linkage h p ht = Inr u \<longleftrightarrow> prev_blockhash h = p"
  by (simp add: check_linkage_def)

lemma check_pow_Inr [result_simps]:
  "check_pow lib h ht n = Inr u \<longleftrightarrow> (enforces_pow n \<longrightarrow> meets_target lib h)"
  by (simp add: check_pow_def)

lemma check_timewarp_Inr [result_simps]:
  "check_timewarp ht t p n = Inr u \<longleftrightarrow>
    (bip94 n \<and> is_retarget_height ht \<longrightarrow> unat p \<le> unat t + 600)"
proof -
  have "unat (ucast t + ucast MAX_TIMEWARP_SECS :: u64) = unat t + 600"
    using unat_u32_less [of t]
    by (subst unat_add_lem [THEN iffD1]) (simp_all add: MAX_TIMEWARP_SECS_def)
  then show ?thesis
    by (auto simp: check_timewarp_def word_less_nat_alt)
qed

lemma check_future_time_Inr [result_simps]:
  "check_future_time ht t now = Inr u \<longleftrightarrow> unat t \<le> unat now + 7200"
  using unat_u32_less [of t]
  by (auto simp: check_future_time_def word_less_nat_alt unat_saturating_add
      MAX_FUTURE_BLOCK_TIME_SECS_def)

lemma check_time_too_old_Inr [result_simps]:
  "check_time_too_old ht t mtp = Inr u \<longleftrightarrow> (\<forall>m. mtp = Some m \<longrightarrow> m < t)"
  by (auto simp: check_time_too_old_def not_le split: option.splits)

lemma validate_header_full_Inr:
  "validate_header_full lib h ht prev mtp eb n now = Inr u \<longleftrightarrow>
    prev_blockhash h = pred_hash prev \<and>
    (bip94 n \<and> is_retarget_height ht \<longrightarrow> unat (pred_time prev) \<le> unat (hdr_time h) + 600) \<and>
    unat (hdr_time h) \<le> unat now + 7200 \<and>
    (\<forall>m. mtp = Some m \<longrightarrow> m < hdr_time h) \<and>
    (\<forall>b. eb = Some b \<longrightarrow> hdr_bits h = b) \<and>
    (enforces_pow n \<longrightarrow> meets_target lib h)"
  by (auto simp: validate_header_full_def result_simps split: option.splits)

subsection \<open>Checkpoints\<close>

record checkpoint =
  cp_height :: u32
  cp_hash :: bytes
  cp_bits :: u32
  cp_time :: u32
  cp_is_real :: bool
  cp_chain_work :: "bytes option"

definition MAINNET_CHECKPOINT :: checkpoint where
  "MAINNET_CHECKPOINT = \<lparr>
    cp_height = 951552,
    cp_hash = [0x64, 0xbb, 0x14, 0xbd, 0xb8, 0x12, 0x9e, 0xe3, 0x4b, 0xb1, 0x9f, 0x60, 0x86, 0x82,
      0x8c, 0x14, 0x86, 0x2f, 0x92, 0xf1, 0x72, 0xb4, 0x01, 0x00, 0x00, 0x00, 0x00, 0x00, 0x00,
      0x00, 0x00, 0x00],
    cp_bits = 0x1702068f,
    cp_time = 1780050586,
    cp_is_real = True,
    cp_chain_work = Some [0x00, 0x00, 0x00, 0x00, 0x00, 0x00, 0x00, 0x00, 0x00, 0x00, 0x00, 0x00,
      0x00, 0x00, 0x00, 0x00, 0x00, 0x00, 0x00, 0x01, 0x2b, 0xc5, 0x2b, 0x13, 0xac, 0x6c, 0x5e,
      0xd1, 0x70, 0x41, 0x49, 0xf2]\<rparr>"

definition SIGNET_CHECKPOINT :: checkpoint where
  "SIGNET_CHECKPOINT = \<lparr>
    cp_height = 334000,
    cp_hash = [0x66, 0xeb, 0x3a, 0x9f, 0xc3, 0xa2, 0xc6, 0x39, 0x83, 0x9c, 0xf2, 0xc8, 0x90, 0x51,
      0xb6, 0x4f, 0x4b, 0x16, 0x2e, 0x95, 0x59, 0xf8, 0x3b, 0x6d, 0xa2, 0xb8, 0xcc, 0x5f, 0xac,
      0x00, 0x00, 0x00],
    cp_bits = 0x1e0377ae,
    cp_time = 1780464472,
    cp_is_real = True,
    cp_chain_work = None\<rparr>"

definition TESTNET3_CHECKPOINT :: checkpoint where
  "TESTNET3_CHECKPOINT = \<lparr>cp_height = 0, cp_hash = replicate 32 0, cp_bits = 0, cp_time = 0,
    cp_is_real = False, cp_chain_work = None\<rparr>"

definition TESTNET4_CHECKPOINT :: checkpoint where
  "TESTNET4_CHECKPOINT = \<lparr>
    cp_height = 155232,
    cp_hash = [0x5b, 0x34, 0x40, 0x2d, 0x57, 0x0e, 0xb4, 0x29, 0x96, 0x97, 0x99, 0xfe, 0x0d, 0xc8,
      0xd2, 0x22, 0x8b, 0x40, 0x75, 0x01, 0xb9, 0xc5, 0x4d, 0x31, 0x02, 0x00, 0x00, 0x00, 0x00,
      0x00, 0x00, 0x00],
    cp_bits = 0x19037e43,
    cp_time = 1791203299,
    cp_is_real = True,
    cp_chain_work = None\<rparr>"

definition REGTEST_CHECKPOINT :: checkpoint where
  "REGTEST_CHECKPOINT = \<lparr>
    cp_height = 0,
    cp_hash = [0x06, 0x22, 0x6e, 0x46, 0x11, 0x1a, 0x0b, 0x59, 0xca, 0xaf, 0x12, 0x60, 0x43, 0xeb,
      0x5b, 0xbf, 0x28, 0xc3, 0x4f, 0x3a, 0x5e, 0x33, 0x2a, 0x1f, 0xc7, 0xb2, 0xb7, 0x3c, 0xf1,
      0x88, 0x91, 0x0f],
    cp_bits = 0x207fffff,
    cp_time = 1296688602,
    cp_is_real = True,
    cp_chain_work = Some (replicate 31 0 @ [2])\<rparr>"

text \<open>\<open>dev\<close> is the build exemption: debug assertions, tests or \<open>allow-seed-import\<close>.\<close>

definition assert_real_in_release :: "bool \<Rightarrow> checkpoint \<Rightarrow> (string, unit) result" where
  "assert_real_in_release dev cp =
    (if dev then Inr ()
     else require (cp_is_real cp) ''SPV checkpoint is a placeholder'')"

definition assert_retarget_aligned :: "checkpoint \<Rightarrow> btc_network \<Rightarrow> (string, unit) result" where
  "assert_retarget_aligned cp network =
    (if enforces_pow network \<and> cp_height cp mod RETARGET_INTERVAL \<noteq> 0
     then Inl ''SPV checkpoint is not on a retarget boundary'' else Inr ())"

fun checkpoint_for :: "btc_network \<Rightarrow> checkpoint" where
  "checkpoint_for Mainnet = MAINNET_CHECKPOINT"
| "checkpoint_for Signet = SIGNET_CHECKPOINT"
| "checkpoint_for SignetCustom = SIGNET_CHECKPOINT"
| "checkpoint_for Testnet3 = TESTNET3_CHECKPOINT"
| "checkpoint_for Testnet4 = TESTNET4_CHECKPOINT"
| "checkpoint_for Regtest = REGTEST_CHECKPOINT"

lemmas checkpoint_defs = MAINNET_CHECKPOINT_def SIGNET_CHECKPOINT_def TESTNET3_CHECKPOINT_def
  TESTNET4_CHECKPOINT_def REGTEST_CHECKPOINT_def

lemma checkpoint_for_aligned: "assert_retarget_aligned (checkpoint_for n) n = Inr ()"
  by (cases n) (simp_all add: assert_retarget_aligned_def enforces_pow_def RETARGET_INTERVAL_def
      checkpoint_defs)

lemma checkpoint_for_height: "unat (cp_height (checkpoint_for n)) \<le> 951552"
  by (cases n) (simp_all add: checkpoint_defs)

lemma assert_retarget_aligned_Inr:
  "assert_retarget_aligned cp n = Inr u \<longleftrightarrow>
    (enforces_pow n \<longrightarrow> unat (cp_height cp) mod 2016 = 0)"
proof -
  have "cp_height cp mod RETARGET_INTERVAL = 0 \<longleftrightarrow> unat (cp_height cp) mod 2016 = 0"
    by (simp add: RETARGET_INTERVAL_def word_unat_eq_iff unat_mod_distrib)
  then show ?thesis by (simp add: assert_retarget_aligned_def)
qed

end
