(* ===== verification/Header_Chain.thy ===== *)
theory Header_Chain
  imports Header_Rules
begin

text \<open>
  The store of validated block headers above a checkpoint
  (\<open>enclave/src/networks/rgb/spv/chain.rs\<close>).

  Heights are \<open>u32\<close> words as in the code; the invariant keeps every height of the chain
  below the word bound, so the arithmetic does not wrap. The lemmas show that the
  lookups that mix the staged batch, the committed chain and the checkpoint read the
  chain as it will be after the batch, that \<open>submit_headers\<close> keeps every consensus rule
  for every stored header, and what a reorganisation may displace.
\<close>

subsection \<open>State and readers\<close>

definition MAX_REORG_DEPTH :: u32 where "MAX_REORG_DEPTH = 100"
definition MAX_STORED_HEADERS :: nat where "MAX_STORED_HEADERS = 1000000"
definition MAX_HEADERS_PER_SUBMIT :: nat where "MAX_HEADERS_PER_SUBMIT = 10000"

record submit_outcome =
  last_block_height :: u32
  last_block_hash :: bytes
  headers_accepted :: u32
  out_reorg_depth :: u32

record header_chain =
  hc_network :: btc_network
  hc_checkpoint :: checkpoint
  hc_base_height :: u32
  hc_base_hash :: bytes
  hc_base_bits :: u32
  hc_base_time :: u32
  hc_headers :: "btc_header list"
  hc_hashes :: "bytes list"
  hc_max_stored :: nat

definition header_chain_new :: "btc_network \<Rightarrow> checkpoint \<Rightarrow> header_chain" where
  "header_chain_new network cp =
    \<lparr>hc_network = network, hc_checkpoint = cp, hc_base_height = cp_height cp,
     hc_base_hash = cp_hash cp, hc_base_bits = cp_bits cp, hc_base_time = cp_time cp,
     hc_headers = [], hc_hashes = [], hc_max_stored = MAX_STORED_HEADERS\<rparr>"

definition tip_height :: "header_chain \<Rightarrow> u32" where
  "tip_height c = hc_base_height c + of_nat (length (hc_headers c))"

definition tip_hash :: "header_chain \<Rightarrow> bytes" where
  "tip_hash c = (if hc_hashes c \<noteq> [] then last (hc_hashes c) else cp_hash (hc_checkpoint c))"

definition tip_time :: "header_chain \<Rightarrow> u32" where
  "tip_time c = (if hc_headers c \<noteq> [] then hdr_time (last (hc_headers c))
                 else cp_time (hc_checkpoint c))"

definition nth_opt :: "'a list \<Rightarrow> nat \<Rightarrow> 'a option" where
  "nth_opt xs i = (if i < length xs then Some (xs ! i) else None)"

definition header_at :: "header_chain \<Rightarrow> u32 \<Rightarrow> btc_header option" where
  "header_at c height =
    (if height \<le> hc_base_height c then None
     else nth_opt (hc_headers c) (unat (height - hc_base_height c - 1)))"

definition hash_at :: "header_chain \<Rightarrow> u32 \<Rightarrow> bytes option" where
  "hash_at c height =
    (if height = hc_base_height c then Some (hc_base_hash c)
     else if height < hc_base_height c then None
     else nth_opt (hc_hashes c) (unat (height - hc_base_height c - 1)))"

definition confirmations :: "header_chain \<Rightarrow> u32 \<Rightarrow> u32 \<Rightarrow> u32" where
  "confirmations c height cap =
    (if header_at c height = None then 0
     else min (tip_height c - height + 1) cap)"

subsection \<open>Reading the chain below a staged header\<close>

type_synonym staged = "(btc_header \<times> bytes) list"

definition block_at :: "header_chain \<Rightarrow> u32 \<Rightarrow> u32 \<Rightarrow> staged \<Rightarrow> (u32 \<times> u32) spv_result" where
  "block_at c height batch_start_height staged =
    (let staged_header =
       (case checked_sub height batch_start_height of
          None \<Rightarrow> None
        | Some i \<Rightarrow> map_option fst (nth_opt staged (unat i)))
     in case (case staged_header of Some h \<Rightarrow> Some h | None \<Rightarrow> header_at c height) of
          Some h \<Rightarrow> Inr (hdr_time h, hdr_bits h)
        | None \<Rightarrow> (if height = hc_base_height c then Inr (hc_base_time c, hc_base_bits c)
                  else Inl (HeaderNotFound height)))"

definition bits_input_for ::
  "btc_lib \<Rightarrow> header_chain \<Rightarrow> u32 \<Rightarrow> u32 \<Rightarrow> u32 \<times> u32 \<Rightarrow> u32 \<Rightarrow> staged \<Rightarrow> bits_input spv_result" where
  "bits_input_for lib c height header_time prev batch_start_height staged =
    (let input = \<lparr>bi_height = height, bi_header_time = header_time, bi_prev_bits = fst prev,
           bi_prev_time = snd prev, bi_period_bits = 0, bi_epoch_first_bits = 0,
           bi_epoch_first_time = 0\<rparr>
     in if is_retarget_height height then
          and_then (ok_or (checked_sub height RETARGET_INTERVAL) (HeaderNotFound 0)) (\<lambda>first.
          and_then (block_at c first batch_start_height staged) (\<lambda>(t, b).
            Inr (input\<lparr>bi_epoch_first_time := t, bi_epoch_first_bits := b\<rparr>)))
        else if allows_min_difficulty lib (hc_network c) then
          and_then (block_at c (height - height mod RETARGET_INTERVAL) batch_start_height staged)
            (\<lambda>(t, b). Inr (input\<lparr>bi_period_bits := b\<rparr>))
        else Inr input)"

text \<open>\<open>first..height\<close> as the list of its heights.\<close>

definition height_range :: "u32 \<Rightarrow> u32 \<Rightarrow> u32 list" where
  "height_range a b = map of_nat [unat a ..< unat b]"

definition median_time_past_below ::
  "header_chain \<Rightarrow> u32 \<Rightarrow> u32 \<Rightarrow> staged \<Rightarrow> u32 option spv_result" where
  "median_time_past_below c height batch_start_height staged =
    (let first = saturating_sub height (of_nat MEDIAN_TIME_SPAN)
     in if first < hc_base_height c then Inr None
        else and_then (collect_map (\<lambda>h. and_then (block_at c h batch_start_height staged)
                 (\<lambda>(t, b). Inr t)) (height_range first height))
               (\<lambda>times. Inr (Some (median_time_past times))))"

fun sum_work_from :: "btc_lib \<Rightarrow> u256 \<Rightarrow> btc_header list \<Rightarrow> u256" where
  "sum_work_from lib acc [] = acc"
| "sum_work_from lib acc (h # hs) = sum_work_from lib (work_add lib acc (header_work lib h)) hs"

fun sum_work :: "btc_lib \<Rightarrow> btc_header list \<Rightarrow> u256 option" where
  "sum_work lib [] = None"
| "sum_work lib (h # hs) = Some (sum_work_from lib (header_work lib h) hs)"

subsection \<open>Submitting a batch\<close>

text \<open>One iteration of the loop over the raw headers: the header at index \<open>i\<close>, with the
  predecessor of the batch as \<open>(hash, bits, time)\<close>.\<close>

definition stage_one ::
  "btc_lib \<Rightarrow> header_chain \<Rightarrow> u32 \<Rightarrow> u64 \<Rightarrow> bytes \<times> u32 \<times> u32 \<Rightarrow> nat \<Rightarrow> bytes \<Rightarrow> staged
    \<Rightarrow> (btc_header \<times> bytes) spv_result" where
  "stage_one lib c start_height now_unix pred i raw staged =
    and_then (ok_or (deserialize_header lib raw) (HeaderParse i)) (\<lambda>header.
    let height = start_height + of_nat i;
        (prev_hash, prev_bits, prev_time) =
          (if staged \<noteq> []
           then (snd (last staged), hdr_bits (fst (last staged)), hdr_time (fst (last staged)))
           else pred)
    in and_then
         (if enforces_pow (hc_network c) then
            and_then (bits_input_for lib c height (hdr_time header) (prev_bits, prev_time)
                start_height staged)
              (\<lambda>input. Inr (expected_bits lib input (hc_network c)))
          else Inr None) (\<lambda>expected_bits_value.
       and_then (median_time_past_below c height start_height staged) (\<lambda>mtp.
       and_then (validate_header_full lib header height
           \<lparr>pred_hash = prev_hash, pred_time = prev_time\<rparr> mtp expected_bits_value
           (hc_network c) now_unix) (\<lambda>_.
       Inr (header, block_hash lib header)))))"

fun stage_headers ::
  "btc_lib \<Rightarrow> header_chain \<Rightarrow> u32 \<Rightarrow> u64 \<Rightarrow> bytes \<times> u32 \<times> u32 \<Rightarrow> nat \<Rightarrow> bytes list \<Rightarrow> staged
    \<Rightarrow> staged spv_result" where
  "stage_headers lib c start_height now_unix pred i [] staged = Inr staged"
| "stage_headers lib c start_height now_unix pred i (raw # rest) staged =
    and_then (stage_one lib c start_height now_unix pred i raw staged) (\<lambda>entry.
      stage_headers lib c start_height now_unix pred (Suc i) rest (staged @ [entry]))"

definition batch_predecessor :: "header_chain \<Rightarrow> u32 \<Rightarrow> (bytes \<times> u32 \<times> u32) spv_result" where
  "batch_predecessor c pred_height =
    (if pred_height = hc_base_height c
     then Inr (hc_base_hash c, hc_base_bits c, hc_base_time c)
     else and_then (ok_or (header_at c pred_height) (HeaderNotFound pred_height)) (\<lambda>h.
          and_then (ok_or (hash_at c pred_height) (HeaderNotFound pred_height)) (\<lambda>hash.
          Inr (hash, hdr_bits h, hdr_time h))))"

text \<open>The checks before the loop, in order; the result is the reorganisation depth.\<close>

definition submit_guards :: "header_chain \<Rightarrow> u32 \<Rightarrow> nat \<Rightarrow> u32 spv_result" where
  "submit_guards c start_height n =
    (let tip = tip_height c in
     and_then (require (cp_height (hc_checkpoint c) < start_height)
       (BelowCheckpoint start_height (cp_height (hc_checkpoint c)))) (\<lambda>_.
     and_then (require (start_height \<le> tip + 1) (NonContiguous start_height tip)) (\<lambda>_.
     let reorg_depth = saturating_sub (tip + 1) start_height in
     and_then (require (reorg_depth \<le> MAX_REORG_DEPTH)
       (ReorgTooDeep reorg_depth MAX_REORG_DEPTH)) (\<lambda>_.
     let projected_len = unat (start_height - 1 - hc_base_height c) + n in
     and_then (require (projected_len \<le> hc_max_stored c)
       (ChainTooLong projected_len (hc_max_stored c))) (\<lambda>_.
     Inr reorg_depth)))))"

text \<open>The end of the call: the work comparison of a reorganisation, then the commit. The
  two \<open>expect\<close>s cannot fail; \<^const>\<open>None\<close> has no work to compare and keeps the chain.\<close>

definition commit_batch ::
  "btc_lib \<Rightarrow> header_chain \<Rightarrow> u32 \<Rightarrow> u32 \<Rightarrow> staged \<Rightarrow> header_chain spv_result" where
  "commit_batch lib c start_height reorg_depth staged =
    and_then
      (if 0 < reorg_depth then
         let truncate_idx = unat (start_height - 1 - hc_base_height c) in
         and_then (ok_or (sum_work lib (drop truncate_idx (hc_headers c))) WeakerChain) (\<lambda>existing_work.
         and_then (ok_or (sum_work lib (map fst staged)) WeakerChain) (\<lambda>new_work.
         and_then (require (existing_work < new_work) WeakerChain) (\<lambda>_.
         Inr (c\<lparr>hc_headers := take truncate_idx (hc_headers c),
                hc_hashes := take truncate_idx (hc_hashes c)\<rparr>))))
       else Inr c) (\<lambda>c'.
      Inr (c'\<lparr>hc_headers := hc_headers c' @ map fst staged,
              hc_hashes := hc_hashes c' @ map snd staged\<rparr>))"

definition submit_headers ::
  "btc_lib \<Rightarrow> header_chain \<Rightarrow> u32 \<Rightarrow> bytes list \<Rightarrow> u64
    \<Rightarrow> submit_outcome spv_result \<times> header_chain" where
  "submit_headers lib c start_height raw_headers now_unix =
    (if MAX_HEADERS_PER_SUBMIT < length raw_headers
     then (Inl (BatchTooLarge (length raw_headers) MAX_HEADERS_PER_SUBMIT), c)
     else if raw_headers = []
     then (Inr \<lparr>last_block_height = tip_height c, last_block_hash = tip_hash c,
                headers_accepted = 0, out_reorg_depth = 0\<rparr>, c)
     else case
       and_then (submit_guards c start_height (length raw_headers)) (\<lambda>reorg_depth.
       and_then (batch_predecessor c (start_height - 1)) (\<lambda>pred.
       and_then (stage_headers lib c start_height now_unix pred 0 raw_headers []) (\<lambda>staged.
       and_then (commit_batch lib c start_height reorg_depth staged) (\<lambda>c'.
       Inr (c', \<lparr>last_block_height = tip_height c', last_block_hash = tip_hash c',
                 headers_accepted = of_nat (length staged), out_reorg_depth = reorg_depth\<rparr>)))))
       of Inl e \<Rightarrow> (Inl e, c) | Inr (c', out) \<Rightarrow> (Inr out, c'))"

subsection \<open>Reference reading of a chain\<close>

text \<open>The chain below a header as a plain list \<open>pre\<close> of headers above the base; heights are
  natural numbers.\<close>

definition base :: "header_chain \<Rightarrow> nat" where
  "base c = unat (hc_base_height c)"

definition ref_block :: "header_chain \<Rightarrow> btc_header list \<Rightarrow> nat \<Rightarrow> (u32 \<times> u32) option" where
  "ref_block c pre n =
    (if n = base c then Some (hc_base_time c, hc_base_bits c)
     else if base c < n then map_option (\<lambda>h. (hdr_time h, hdr_bits h)) (nth_opt pre (n - base c - 1))
     else None)"

definition ref_prev :: "btc_lib \<Rightarrow> header_chain \<Rightarrow> btc_header list \<Rightarrow> bytes \<times> u32 \<times> u32" where
  "ref_prev lib c pre =
    (if pre = [] then (hc_base_hash c, hc_base_bits c, hc_base_time c)
     else (block_hash lib (last pre), hdr_bits (last pre), hdr_time (last pre)))"

definition ref_mtp :: "header_chain \<Rightarrow> btc_header list \<Rightarrow> u32 option" where
  "ref_mtp c pre =
    (let ht = base c + length pre + 1; first = ht - MEDIAN_TIME_SPAN in
     if first < base c then None
     else Some (median_time_past (map (\<lambda>n. fst (the (ref_block c pre n))) [first..<ht])))"

definition ref_bits_input ::
  "btc_lib \<Rightarrow> header_chain \<Rightarrow> btc_header list \<Rightarrow> u32 \<Rightarrow> bits_input option" where
  "ref_bits_input lib c pre t =
    (let ht = base c + length pre + 1;
         (_, prev_bits, prev_time) = ref_prev lib c pre;
         input = \<lparr>bi_height = of_nat ht, bi_header_time = t, bi_prev_bits = prev_bits,
           bi_prev_time = prev_time, bi_period_bits = 0, bi_epoch_first_bits = 0,
           bi_epoch_first_time = 0\<rparr>
     in if ht mod 2016 = 0 then
          (if ht < 2016 then None else
           map_option (\<lambda>(ft, fb). input\<lparr>bi_epoch_first_time := ft, bi_epoch_first_bits := fb\<rparr>)
             (ref_block c pre (ht - 2016)))
        else if allows_min_difficulty lib (hc_network c) then
          map_option (\<lambda>(pt, pb). input\<lparr>bi_period_bits := pb\<rparr>) (ref_block c pre (ht - ht mod 2016))
        else Some input)"

text \<open>The consensus rules of one stored header with respect to the chain below it.\<close>

definition header_rules :: "btc_lib \<Rightarrow> header_chain \<Rightarrow> btc_header list \<Rightarrow> btc_header \<Rightarrow> bool" where
  "header_rules lib c pre h \<longleftrightarrow>
    (let (prev_hash, prev_bits, prev_time) = ref_prev lib c pre;
         ht = base c + length pre + 1
     in prev_blockhash h = prev_hash \<and>
        (bip94 (hc_network c) \<and> ht mod 2016 = 0 \<longrightarrow> unat prev_time \<le> unat (hdr_time h) + 600) \<and>
        (\<forall>m. ref_mtp c pre = Some m \<longrightarrow> m < hdr_time h) \<and>
        (enforces_pow (hc_network c) \<longrightarrow>
          (\<exists>inp. ref_bits_input lib c pre (hdr_time h) = Some inp \<and>
             expected_bits lib inp (hc_network c) = Some (hdr_bits h)) \<and> meets_target lib h))"

definition chain_bounds :: "header_chain \<Rightarrow> bool" where
  "chain_bounds c \<longleftrightarrow> base c + hc_max_stored c + 1 < 2 ^ 32 \<and>
    length (hc_headers c) \<le> hc_max_stored c"

definition chain_inv :: "btc_lib \<Rightarrow> header_chain \<Rightarrow> bool" where
  "chain_inv lib c \<longleftrightarrow> chain_bounds c \<and>
    hc_base_height c = cp_height (hc_checkpoint c) \<and> hc_base_hash c = cp_hash (hc_checkpoint c) \<and>
    hc_base_bits c = cp_bits (hc_checkpoint c) \<and> hc_base_time c = cp_time (hc_checkpoint c) \<and>
    hc_hashes c = map (block_hash lib) (hc_headers c) \<and>
    (\<forall>i < length (hc_headers c). header_rules lib c (take i (hc_headers c)) (hc_headers c ! i))"

lemma nth_opt_Some [simp]: "nth_opt xs i = Some x \<longleftrightarrow> i < length xs \<and> xs ! i = x"
  by (auto simp: nth_opt_def)

lemma nth_opt_None [simp]: "nth_opt xs i = None \<longleftrightarrow> length xs \<le> i"
  by (auto simp: nth_opt_def)

lemma nth_opt_map: "nth_opt (map f xs) i = map_option f (nth_opt xs i)"
  by (simp add: nth_opt_def)

lemma unat_tip_height:
  assumes "chain_bounds c"
  shows "unat (tip_height c) = base c + length (hc_headers c)"
proof -
  have "base c + length (hc_headers c) < 2 ^ 32"
    using assms by (simp add: chain_bounds_def)
  then show ?thesis
    by (simp add: tip_height_def base_def unat_word_ariths unat_of_nat mod_simps)
qed

lemma unat_tip_Suc:
  assumes "chain_bounds c"
  shows "unat (tip_height c + 1) = base c + length (hc_headers c) + 1"
  using assms unat_tip_height [OF assms]
  by (simp add: chain_bounds_def unat_word_ariths)

lemma unat_offset:
  fixes b h :: "'a::len word"
  assumes "b < h"
  shows "unat (h - b - 1) = unat h - unat b - 1"
proof -
  have "b \<le> h" using assms by simp
  then have d: "unat (h - b) = unat h - unat b"
    by (rule unat_sub)
  then have "h - b \<noteq> 0"
    using assms by auto
  then show ?thesis
    using d by (simp add: unat_minus_one)
qed

lemma header_at_nat:
  "header_at c h = (if unat h \<le> base c then None else nth_opt (hc_headers c) (unat h - base c - 1))"
  by (auto simp: header_at_def base_def word_le_nat_alt not_le unat_offset word_less_nat_alt)

lemma hash_at_nat:
  "hash_at c h = (if unat h = base c then Some (hc_base_hash c)
     else if unat h < base c then None else nth_opt (hc_hashes c) (unat h - base c - 1))"
  by (auto simp: hash_at_def base_def word_unat_eq_iff word_less_nat_alt unat_offset not_less)

lemma block_at_ref:
  assumes start: "unat start = base c + k + 1" and k: "k \<le> length (hc_headers c)"
    and below: "unat h < unat start + length staged"
  shows "block_at c h start staged =
    ok_or (ref_block c (take k (hc_headers c) @ map fst staged) (unat h)) (HeaderNotFound h)"
proof (cases "start \<le> h")
  case True
  then have i: "unat (h - start) = unat h - unat start"
    by (rule unat_sub)
  have "unat start \<le> unat h"
    using True by (simp add: word_le_nat_alt)
  then have "unat h - base c - 1 = k + unat (h - start)" "unat (h - start) < length staged"
      "base c < unat h"
    using start below i by auto
  then show ?thesis
    using True k by (simp add: block_at_def checked_sub_def ref_block_def nth_opt_def nth_append)
next
  case False
  then have lt: "unat h < base c + k + 1"
    using start by (simp add: word_le_nat_alt)
  show ?thesis
  proof (cases "base c < unat h")
    case True
    then have "unat h - base c - 1 < k" using lt by simp
    then show ?thesis
      using False True k
      by (simp add: block_at_def checked_sub_def header_at_nat ref_block_def nth_opt_def nth_append)
  next
    case False
    then show ?thesis
      using \<open>\<not> start \<le> h\<close>
      by (auto simp: block_at_def checked_sub_def header_at_nat ref_block_def base_def
          word_unat_eq_iff)
  qed
qed

text \<open>\<open>batch_ctx c k start staged\<close>: a batch that keeps the first \<open>k\<close> headers of the chain
  and has staged some headers above them.\<close>

definition batch_ctx :: "header_chain \<Rightarrow> nat \<Rightarrow> u32 \<Rightarrow> staged \<Rightarrow> bool" where
  "batch_ctx c k start staged \<longleftrightarrow> unat start = base c + k + 1 \<and> k \<le> length (hc_headers c) \<and>
    base c + k + length staged + 1 < 2 ^ 32"

abbreviation below_of :: "header_chain \<Rightarrow> nat \<Rightarrow> staged \<Rightarrow> btc_header list" where
  "below_of c k staged \<equiv> take k (hc_headers c) @ map fst staged"

lemma batch_height:
  assumes "batch_ctx c k start staged"
  shows "unat (start + of_nat (length staged)) = base c + k + length staged + 1"
    and "length (below_of c k staged) = k + length staged"
  using assms by (auto simp: batch_ctx_def unat_word_ariths unat_of_nat mod_simps)

lemma batch_block_at:
  assumes "batch_ctx c k start staged" "unat h < base c + k + length staged + 1"
  shows "block_at c h start staged = ok_or (ref_block c (below_of c k staged) (unat h)) (HeaderNotFound h)"
  using assms by (intro block_at_ref) (auto simp: batch_ctx_def)

lemma bits_input_ref:
  assumes ctx: "batch_ctx c k start staged"
    and prev: "ref_prev lib c (below_of c k staged) = (ph, pb, pt)"
  shows "bits_input_for lib c (start + of_nat (length staged)) t (pb, pt) start staged = Inr inp
    \<longleftrightarrow> ref_bits_input lib c (below_of c k staged) t = Some inp"
proof -
  let ?h = "start + of_nat (length staged)"
  let ?pre = "below_of c k staged"
  define n where "n = base c + k + length staged + 1"
  have n: "unat ?h = n" "base c + length ?pre + 1 = n"
    using batch_height [OF ctx] by (simp_all add: n_def)
  have "of_nat (unat ?h) = ?h" by simp
  with n(1) have n': "of_nat n = ?h" by simp
  have look: "block_at c x start staged = ok_or (ref_block c ?pre (unat x)) (HeaderNotFound x)"
    if "unat x < n" for x
    using batch_block_at [OF ctx] that by (simp add: n_def)
  consider (boundary) "n mod 2016 = 0" | (period) "n mod 2016 \<noteq> 0" "allows_min_difficulty lib (hc_network c)"
    | (plain) "n mod 2016 \<noteq> 0" "\<not> allows_min_difficulty lib (hc_network c)" by blast
  then show ?thesis
  proof cases
    case boundary
    show ?thesis
    proof (cases "2016 \<le> n")
      case True
      have "RETARGET_INTERVAL \<le> ?h"
        using True n by (simp add: word_le_nat_alt RETARGET_INTERVAL_def)
      moreover from this have first: "unat (?h - RETARGET_INTERVAL) = n - 2016"
        using n by (simp add: unat_sub RETARGET_INTERVAL_def)
      moreover have "block_at c (?h - RETARGET_INTERVAL) start staged
          = ok_or (ref_block c ?pre (n - 2016)) (HeaderNotFound (?h - RETARGET_INTERVAL))"
        using look [of "?h - RETARGET_INTERVAL"] first True by simp
      ultimately show ?thesis
        using boundary n n' prev True
        by (auto simp: bits_input_for_def ref_bits_input_def is_retarget_height_nat checked_sub_def
            and_then_Inr)
    next
      case False
      then have "\<not> RETARGET_INTERVAL \<le> ?h"
        using n by (simp add: word_le_nat_alt RETARGET_INTERVAL_def)
      with False boundary n prev show ?thesis
        by (auto simp: bits_input_for_def ref_bits_input_def is_retarget_height_nat checked_sub_def)
    qed
  next
    case period
    have "?h mod RETARGET_INTERVAL \<le> ?h"
      by (simp add: word_le_nat_alt unat_mod_distrib)
    then have ps: "unat (?h - ?h mod RETARGET_INTERVAL) = n - n mod 2016"
      using n by (simp add: unat_sub unat_mod_distrib RETARGET_INTERVAL_def)
    then have "block_at c (?h - ?h mod RETARGET_INTERVAL) start staged
        = ok_or (ref_block c ?pre (n - n mod 2016)) (HeaderNotFound (?h - ?h mod RETARGET_INTERVAL))"
      using look [of "?h - ?h mod RETARGET_INTERVAL"] period by (simp add: n_def)
    with period n n' prev show ?thesis
      by (auto simp: bits_input_for_def ref_bits_input_def is_retarget_height_nat and_then_Inr)
  next
    case plain
    with n n' prev show ?thesis
      by (auto simp: bits_input_for_def ref_bits_input_def is_retarget_height_nat)
  qed
qed

lemma ref_block_defined:
  "base c \<le> n \<Longrightarrow> n < base c + length pre + 1 \<Longrightarrow> \<exists>v. ref_block c pre n = Some v"
  by (auto simp: ref_block_def nth_opt_def)

lemma median_ref:
  assumes ctx: "batch_ctx c k start staged"
  shows "median_time_past_below c (start + of_nat (length staged)) start staged
    = Inr (ref_mtp c (below_of c k staged))"
proof -
  let ?h = "start + of_nat (length staged)"
  let ?pre = "below_of c k staged"
  define n where "n = base c + k + length staged + 1"
  have n: "unat ?h = n" "base c + length ?pre + 1 = n" "n < 2 ^ 32"
    using batch_height [OF ctx] ctx by (auto simp: n_def batch_ctx_def)
  have first: "unat (saturating_sub ?h (of_nat MEDIAN_TIME_SPAN)) = n - 11"
    using n by (simp add: unat_saturating_sub MEDIAN_TIME_SPAN_def)
  show ?thesis
  proof (cases "n - 11 < base c")
    case True
    with first n show ?thesis
      by (simp add: median_time_past_below_def ref_mtp_def word_less_nat_alt base_def MEDIAN_TIME_SPAN_def)
  next
    case False
    let ?f = "\<lambda>h. and_then (block_at c h start staged) (\<lambda>(t, b). Inr t)"
    have "?f (of_nat m) = Inr (fst (the (ref_block c ?pre m)))" if "n - 11 \<le> m" "m < n" for m
    proof -
      have m: "unat (of_nat m :: u32) = m"
        using that n by (simp add: unat_of_nat)
      have "base c \<le> m" "m < base c + length ?pre + 1"
        using that False n(2) by linarith+
      then obtain v where "ref_block c ?pre m = Some v"
        using ref_block_defined by blast
      moreover have "block_at c (of_nat m) start staged = ok_or (ref_block c ?pre m) (HeaderNotFound (of_nat m))"
        using batch_block_at [OF ctx, of "of_nat m"] m that by (simp add: n_def)
      ultimately show ?thesis by (simp split: prod.split)
    qed
    then have "collect_map (?f \<circ> of_nat) [n - 11..<n]
        = Inr (map (\<lambda>m. fst (the (ref_block c ?pre m))) [n - 11..<n])"
      by (intro collect_map_all) auto
    moreover have "collect_map ?f (map of_nat xs) = collect_map (?f \<circ> of_nat) xs" for xs
      by (induction xs) auto
    ultimately show ?thesis
      using False first n
      by (simp add: median_time_past_below_def ref_mtp_def height_range_def word_less_nat_alt
          base_def MEDIAN_TIME_SPAN_def)
  qed
qed

subsection \<open>Staging checks exactly the rules\<close>

lemma expected_bits_enforced:
  "enforces_pow n \<Longrightarrow> \<exists>b. expected_bits lib inp n = Some b"
  by (auto simp: expected_bits_def Let_def)

definition staged_ok :: "btc_lib \<Rightarrow> staged \<Rightarrow> bool" where
  "staged_ok lib staged \<longleftrightarrow> (\<forall>(h, hash) \<in> set staged. hash = block_hash lib h)"

lemma staged_prev:
  assumes "staged_ok lib staged" "pred = ref_prev lib c (take k (hc_headers c))"
  shows "(if staged \<noteq> []
           then (snd (last staged), hdr_bits (fst (last staged)), hdr_time (fst (last staged)))
           else pred) = ref_prev lib c (below_of c k staged)"
proof (cases "staged = []")
  case False
  then have "last staged \<in> set staged" by simp
  then have "snd (last staged) = block_hash lib (fst (last staged))"
    using assms(1) by (auto simp: staged_ok_def)
  with False show ?thesis by (simp add: ref_prev_def last_map)
qed (use assms in simp)

lemma stage_one_iff:
  assumes ctx: "batch_ctx c k start staged" and ok: "staged_ok lib staged"
    and pred: "pred = ref_prev lib c (take k (hc_headers c))"
  shows "stage_one lib c start now pred (length staged) raw staged = Inr e \<longleftrightarrow>
    (\<exists>h. deserialize_header lib raw = Some h \<and> e = (h, block_hash lib h) \<and>
       header_rules lib c (below_of c k staged) h \<and> unat (hdr_time h) \<le> unat now + 7200)"
proof -
  obtain ph pb pt where prev: "ref_prev lib c (below_of c k staged) = (ph, pb, pt)"
    using prod_cases3 by blast
  let ?h = "start + of_nat (length staged)"
  have ret: "is_retarget_height ?h \<longleftrightarrow> (base c + length (below_of c k staged) + 1) mod 2016 = 0"
    using batch_height [OF ctx] by (simp add: is_retarget_height_nat add.assoc)
  let ?val = "\<lambda>h eb. validate_header_full lib h ?h \<lparr>pred_hash = ph, pred_time = pt\<rparr>
      (ref_mtp c (below_of c k staged)) eb (hc_network c) now = Inr ()"
  let ?common = "\<lambda>h. ph = prev_blockhash h \<and>
      (bip94 (hc_network c) \<and> is_retarget_height ?h \<longrightarrow> unat pt \<le> unat (hdr_time h) + 600) \<and>
      unat (hdr_time h) \<le> unat now + 7200 \<and>
      (\<forall>m. ref_mtp c (below_of c k staged) = Some m \<longrightarrow> m < hdr_time h)"
  have rules: "header_rules lib c (below_of c k staged) h \<and> unat (hdr_time h) \<le> unat now + 7200 \<longleftrightarrow>
      ?common h \<and> (enforces_pow (hc_network c) \<longrightarrow>
        (\<exists>inp. ref_bits_input lib c (below_of c k staged) (hdr_time h) = Some inp \<and>
           expected_bits lib inp (hc_network c) = Some (hdr_bits h)) \<and> meets_target lib h)" for h
    unfolding header_rules_def prev Let_def ret by auto
  have unfold: "stage_one lib c start now pred (length staged) raw staged =
      and_then (ok_or (deserialize_header lib raw) (HeaderParse (length staged))) (\<lambda>h.
        and_then (if enforces_pow (hc_network c)
            then and_then (bits_input_for lib c ?h (hdr_time h) (pb, pt) start staged)
              (\<lambda>input. Inr (expected_bits lib input (hc_network c))) else Inr None) (\<lambda>eb.
        and_then (validate_header_full lib h ?h \<lparr>pred_hash = ph, pred_time = pt\<rparr>
            (ref_mtp c (below_of c k staged)) eb (hc_network c) now) (\<lambda>_.
        Inr (h, block_hash lib h))))"
    unfolding stage_one_def staged_prev [OF ok pred] prev median_ref [OF ctx] Let_def prod.case
      and_then_simps ..
  show ?thesis
  proof (cases "enforces_pow (hc_network c)")
    case True
    have eb: "?val h (expected_bits lib inp (hc_network c)) \<longleftrightarrow> ?common h \<and>
        expected_bits lib inp (hc_network c) = Some (hdr_bits h) \<and> meets_target lib h" for h inp
      unfolding validate_header_full_Inr using expected_bits_enforced [OF True, of lib inp] True by auto
    have "stage_one lib c start now pred (length staged) raw staged = Inr e \<longleftrightarrow>
      (\<exists>h. deserialize_header lib raw = Some h \<and> e = (h, block_hash lib h) \<and>
        (\<exists>inp. ref_bits_input lib c (below_of c k staged) (hdr_time h) = Some inp \<and>
           ?val h (expected_bits lib inp (hc_network c))))"
      unfolding unfold and_then_Inr using True by (auto simp: and_then_Inr bits_input_ref [OF ctx prev])
    then show ?thesis
      unfolding eb rules using True by blast
  next
    case False
    have "stage_one lib c start now pred (length staged) raw staged = Inr e \<longleftrightarrow>
      (\<exists>h. deserialize_header lib raw = Some h \<and> e = (h, block_hash lib h) \<and> ?val h None)"
      unfolding unfold and_then_Inr using False by auto
    then show ?thesis
      unfolding rules validate_header_full_Inr using False by auto
  qed
qed

text \<open>A batch is valid above \<open>pre\<close> when each of its headers obeys the rules with respect to
  \<open>pre\<close> and the headers before it, and is not dated too far ahead.\<close>

fun batch_valid ::
  "btc_lib \<Rightarrow> header_chain \<Rightarrow> u64 \<Rightarrow> btc_header list \<Rightarrow> bytes list \<Rightarrow> btc_header list \<Rightarrow> bool" where
  "batch_valid lib c now pre [] new \<longleftrightarrow> new = []"
| "batch_valid lib c now pre (raw # rest) new \<longleftrightarrow>
    (case new of [] \<Rightarrow> False
     | h # new' \<Rightarrow> deserialize_header lib raw = Some h \<and> header_rules lib c pre h \<and>
         unat (hdr_time h) \<le> unat now + 7200 \<and> batch_valid lib c now (pre @ [h]) rest new')"

lemma batch_valid_length: "batch_valid lib c now pre raws new \<Longrightarrow> length new = length raws"
  by (induction lib c now pre raws new rule: batch_valid.induct) (auto split: list.splits)

lemma batch_valid_rules:
  "batch_valid lib c now pre raws new \<Longrightarrow> j < length new \<Longrightarrow>
   header_rules lib c (pre @ take j new) (new ! j)"
proof (induction raws arbitrary: pre new j)
  case (Cons raw raws)
  then obtain h new' where new: "new = h # new'" "header_rules lib c pre h"
    "batch_valid lib c now (pre @ [h]) raws new'"
    by (auto split: list.splits)
  show ?case
  proof (cases j)
    case (Suc j')
    then show ?thesis using Cons.IH [OF new(3), of j'] Cons.prems(2) new(1) by simp
  qed (use new in simp)
qed simp

lemma stage_headers_iff:
  assumes "batch_ctx c k start (staged @ replicate (length raws) undefined)" "staged_ok lib staged"
    and pred: "pred = ref_prev lib c (take k (hc_headers c))"
  shows "stage_headers lib c start now pred (length staged) raws staged = Inr staged' \<longleftrightarrow>
    (\<exists>new. batch_valid lib c now (below_of c k staged) raws new \<and>
       staged' = staged @ map (\<lambda>h. (h, block_hash lib h)) new)"
  using assms(1,2)
proof (induction raws arbitrary: staged)
  case (Cons raw raws)
  have ctx: "batch_ctx c k start staged"
    using Cons.prems(1) by (simp add: batch_ctx_def)
  have IH: "stage_headers lib c start now pred (length (staged @ [e])) raws (staged @ [e]) = Inr staged' \<longleftrightarrow>
      (\<exists>new. batch_valid lib c now (below_of c k (staged @ [e])) raws new \<and>
       staged' = (staged @ [e]) @ map (\<lambda>h. (h, block_hash lib h)) new)"
    if "e = (h, block_hash lib h)" for e h
    using Cons.prems that by (intro Cons.IH) (auto simp: batch_ctx_def staged_ok_def)
  have "stage_headers lib c start now pred (length staged) (raw # raws) staged = Inr staged' \<longleftrightarrow>
     (\<exists>h. deserialize_header lib raw = Some h \<and> header_rules lib c (below_of c k staged) h \<and>
        unat (hdr_time h) \<le> unat now + 7200 \<and>
        stage_headers lib c start now pred (Suc (length staged)) raws
          (staged @ [(h, block_hash lib h)]) = Inr staged')"
    by (auto simp: and_then_Inr stage_one_iff [OF ctx Cons.prems(2) pred])
  also have "\<dots> \<longleftrightarrow> (\<exists>new. batch_valid lib c now (below_of c k staged) (raw # raws) new \<and>
       staged' = staged @ map (\<lambda>h. (h, block_hash lib h)) new)"
    using IH by (fastforce split: list.splits simp: neq_Nil_conv)
  finally show ?case .
qed auto

subsection \<open>The outcome of a submission\<close>

text \<open>\<open>kept c start\<close>: the headers of the chain below a batch.\<close>

definition kept :: "header_chain \<Rightarrow> u32 \<Rightarrow> nat" where
  "kept c start = unat start - base c - 1"

lemma submit_guards_Inr:
  assumes "chain_bounds c" "hc_base_height c = cp_height (hc_checkpoint c)"
  shows "submit_guards c start n = Inr d \<longleftrightarrow>
    base c < unat start \<and> kept c start \<le> length (hc_headers c) \<and>
    length (hc_headers c) - kept c start \<le> 100 \<and> kept c start + n \<le> hc_max_stored c \<and>
    unat d = length (hc_headers c) - kept c start \<and> d = saturating_sub (tip_height c + 1) start"
proof (cases "base c < unat start")
  case True
  then have "hc_base_height c < start"
    by (simp add: base_def word_less_nat_alt)
  then have off: "unat (start - 1 - hc_base_height c) = kept c start"
    using unat_offset [of "hc_base_height c" start]
    by (simp add: kept_def base_def algebra_simps)
  have depth: "unat (saturating_sub (tip_height c + 1) start)
      = base c + length (hc_headers c) + 1 - unat start"
    by (simp add: unat_saturating_sub unat_tip_Suc [OF assms(1)])
  have le: "start \<le> tip_height c + 1 \<longleftrightarrow> kept c start \<le> length (hc_headers c)"
    using True by (auto simp: word_le_nat_alt unat_tip_Suc [OF assms(1)] kept_def)
  have d': "base c + length (hc_headers c) + 1 - unat start = length (hc_headers c) - kept c start"
    using True by (auto simp: kept_def)
  have cp: "cp_height (hc_checkpoint c) < start"
    using \<open>hc_base_height c < start\<close> assms(2) by simp
  have cap: "saturating_sub (tip_height c + 1) start \<le> MAX_REORG_DEPTH \<longleftrightarrow>
      length (hc_headers c) - kept c start \<le> 100"
    unfolding word_le_nat_alt depth d' by (simp add: MAX_REORG_DEPTH_def)
  show ?thesis
    using depth d' by (auto simp: submit_guards_def Let_def and_then_Inr True cp off le cap)
next
  case False
  with assms(2) show ?thesis
    by (auto simp: submit_guards_def Let_def and_then_Inr base_def word_less_nat_alt)
qed

lemma batch_predecessor_ref:
  assumes "base c < unat start" "kept c start \<le> length (hc_headers c)"
    and "hc_hashes c = map (block_hash lib) (hc_headers c)"
  shows "batch_predecessor c (start - 1) = Inr (ref_prev lib c (take (kept c start) (hc_headers c)))"
proof -
  have "0 < unat start" using assms(1) by simp
  then have p: "unat (start - 1) = base c + kept c start"
    using assms(1) by (subst unat_minus_one) (auto simp: kept_def)
  show ?thesis
  proof (cases "kept c start = 0")
    case True
    with p have "start - 1 = hc_base_height c"
      by (simp add: word_unat_eq_iff base_def)
    with True show ?thesis by (simp add: batch_predecessor_def ref_prev_def)
  next
    case False
    then obtain m where m: "kept c start = Suc m" by (cases "kept c start") auto
    then have "last (take (Suc m) (hc_headers c)) = hc_headers c ! m"
      using assms(2) by (subst last_conv_nth) (auto simp: min_def)
    moreover have "take (Suc m) (hc_headers c) \<noteq> []"
      using m assms(2) by auto
    ultimately show ?thesis
      using m p assms(2,3)
      by (auto simp: batch_predecessor_def ref_prev_def header_at_nat hash_at_nat nth_opt_def
          word_unat_eq_iff base_def)
  qed
qed

text \<open>The chain after an accepted batch.\<close>

definition with_batch :: "btc_lib \<Rightarrow> header_chain \<Rightarrow> nat \<Rightarrow> btc_header list \<Rightarrow> header_chain" where
  "with_batch lib c k new =
    c\<lparr>hc_headers := take k (hc_headers c) @ new,
      hc_hashes := map (block_hash lib) (take k (hc_headers c) @ new)\<rparr>"

lemma commit_batch_Inr:
  assumes "base c < unat start" "kept c start \<le> length (hc_headers c)"
    and hashes: "hc_hashes c = map (block_hash lib) (hc_headers c)"
    and d: "unat d = length (hc_headers c) - kept c start"
  shows "commit_batch lib c start d (map (\<lambda>h. (h, block_hash lib h)) new) = Inr c' \<longleftrightarrow>
    c' = with_batch lib c (kept c start) new \<and>
    (kept c start < length (hc_headers c) \<longrightarrow>
      (\<exists>old_w new_w. sum_work lib (drop (kept c start) (hc_headers c)) = Some old_w \<and>
         sum_work lib new = Some new_w \<and> old_w < new_w))"
proof -
  have off: "unat (start - 1 - hc_base_height c) = kept c start"
    using unat_offset [of "hc_base_height c" start] assms(1)
    by (simp add: kept_def base_def algebra_simps word_less_nat_alt)
  have fst: "map fst (map (\<lambda>h. (h, block_hash lib h)) new) = new"
    "map snd (map (\<lambda>h. (h, block_hash lib h)) new) = map (block_hash lib) new"
    by (simp_all add: comp_def)
  show ?thesis
  proof (cases "kept c start < length (hc_headers c)")
    case True
    then have "0 < d" using d by (simp add: word_less_nat_alt)
    with True off hashes show ?thesis
      unfolding commit_batch_def fst
      by (auto simp: Let_def and_then_Inr with_batch_def take_map)
  next
    case False
    then have "\<not> 0 < d" "take (kept c start) (hc_headers c) = hc_headers c"
      using d by (simp_all add: word_less_nat_alt)
    with False hashes show ?thesis
      unfolding commit_batch_def fst by (auto simp: and_then_Inr with_batch_def)
  qed
qed

lemma with_batch_fields [simp]:
  "base (with_batch lib c k new) = base c"
  "hc_network (with_batch lib c k new) = hc_network c"
  "hc_checkpoint (with_batch lib c k new) = hc_checkpoint c"
  "hc_base_height (with_batch lib c k new) = hc_base_height c"
  "hc_base_hash (with_batch lib c k new) = hc_base_hash c"
  "hc_base_bits (with_batch lib c k new) = hc_base_bits c"
  "hc_base_time (with_batch lib c k new) = hc_base_time c"
  "hc_max_stored (with_batch lib c k new) = hc_max_stored c"
  "hc_headers (with_batch lib c k new) = take k (hc_headers c) @ new"
  "hc_hashes (with_batch lib c k new) = map (block_hash lib) (take k (hc_headers c) @ new)"
  by (simp_all add: with_batch_def base_def)

lemma ref_with_batch [simp]:
  "ref_block (with_batch lib c k new) = ref_block c"
  "ref_prev lib (with_batch lib c k new) = ref_prev lib c"
  by (simp_all add: fun_eq_iff ref_block_def ref_prev_def)

lemma ref_mtp_with_batch [simp]: "ref_mtp (with_batch lib c k new) = ref_mtp c"
  unfolding fun_eq_iff ref_mtp_def ref_with_batch with_batch_fields by simp

lemma ref_bits_input_with_batch [simp]:
  "ref_bits_input lib (with_batch lib c k new) = ref_bits_input lib c"
  unfolding fun_eq_iff ref_bits_input_def ref_with_batch with_batch_fields by simp

lemma header_rules_with_batch [simp]:
  "header_rules lib (with_batch lib c k new) = header_rules lib c"
  unfolding fun_eq_iff header_rules_def ref_with_batch ref_mtp_with_batch ref_bits_input_with_batch with_batch_fields by simp

text \<open>A submission of a non-empty batch succeeds exactly when the guards hold, the batch is
  valid above the headers it keeps and, if it displaces headers, it has more work.\<close>

definition accepts ::
  "btc_lib \<Rightarrow> header_chain \<Rightarrow> u32 \<Rightarrow> bytes list \<Rightarrow> u64 \<Rightarrow> btc_header list \<Rightarrow> bool" where
  "accepts lib c start raws now new \<longleftrightarrow>
    (let k = kept c start; old = drop k (hc_headers c) in
     length raws \<le> MAX_HEADERS_PER_SUBMIT \<and>
     base c < unat start \<and> k \<le> length (hc_headers c) \<and> length old \<le> 100 \<and>
     k + length raws \<le> hc_max_stored c \<and>
     batch_valid lib c now (take k (hc_headers c)) raws new \<and>
     (old \<noteq> [] \<longrightarrow> (\<exists>old_w new_w. sum_work lib old = Some old_w \<and> sum_work lib new = Some new_w
                      \<and> old_w < new_w)))"

lemma chain_inv_bounds:
  "chain_inv lib c \<Longrightarrow> chain_bounds c \<and> hc_base_height c = cp_height (hc_checkpoint c) \<and>
    hc_hashes c = map (block_hash lib) (hc_headers c)"
  by (simp add: chain_inv_def)

lemma submit_headers_accepts:
  assumes inv: "chain_inv lib c" and ne: "raws \<noteq> []"
  shows "(\<exists>out. submit_headers lib c start raws now = (Inr out, c')) \<longleftrightarrow>
    (\<exists>new. accepts lib c start raws now new \<and> c' = with_batch lib c (kept c start) new)"
proof -
  note b = chain_inv_bounds [OF inv]
  let ?k = "kept c start"
  let ?guards = "base c < unat start \<and> ?k \<le> length (hc_headers c) \<and>
    length (hc_headers c) - ?k \<le> 100 \<and> ?k + length raws \<le> hc_max_stored c"
  define d where "d = saturating_sub (tip_height c + 1) start"
  have guard: "submit_guards c start (length raws) = Inr d' \<longleftrightarrow>
      ?guards \<and> unat d' = length (hc_headers c) - ?k \<and> d' = d" for d'
    using b by (simp add: submit_guards_Inr d_def)
  show ?thesis
  proof (cases "length raws \<le> MAX_HEADERS_PER_SUBMIT \<and> ?guards \<and> unat d = length (hc_headers c) - ?k")
    case True
    then have g: "submit_guards c start (length raws) = Inr d"
      using guard by blast
    have pred: "batch_predecessor c (start - 1) = Inr (ref_prev lib c (take ?k (hc_headers c)))"
      using True b by (intro batch_predecessor_ref) auto
    have ctx: "batch_ctx c ?k start ([] @ replicate (length raws) undefined)"
      using True b by (auto simp: batch_ctx_def kept_def chain_bounds_def)
    have "staged_ok lib []" by (simp add: staged_ok_def)
    note stage = stage_headers_iff [OF ctx this refl, of now, simplified]
    have commit: "commit_batch lib c start d (map (\<lambda>h. (h, block_hash lib h)) new) = Inr c'' \<longleftrightarrow>
        c'' = with_batch lib c ?k new \<and> (?k < length (hc_headers c) \<longrightarrow>
          (\<exists>old_w new_w. sum_work lib (drop ?k (hc_headers c)) = Some old_w \<and>
             sum_work lib new = Some new_w \<and> old_w < new_w))" for new c''
      using True b by (intro commit_batch_Inr) auto
    have "(\<exists>out. submit_headers lib c start raws now = (Inr out, c')) \<longleftrightarrow>
        (\<exists>staged. stage_headers lib c start now (ref_prev lib c (take ?k (hc_headers c))) 0 raws []
            = Inr staged \<and> commit_batch lib c start d staged = Inr c')"
      using True ne by (auto simp: submit_headers_def g pred and_then_Inr split: sum.splits)
    then show ?thesis
      using True stage commit by (auto simp: accepts_def Let_def)
  next
    case False
    then have "\<not> (\<exists>out. submit_headers lib c start raws now = (Inr out, c'))"
      using ne guard by (auto simp: submit_headers_def and_then_Inr split: sum.splits)
    moreover have "unat d = length (hc_headers c) - ?k" if ?guards
      using that b unat_tip_Suc [of c] by (auto simp: d_def unat_saturating_sub kept_def)
    ultimately show ?thesis
      using False by (auto simp: accepts_def Let_def)
  qed
qed

lemma submit_headers_error:
  "submit_headers lib c start raws now = (Inl e, c') \<Longrightarrow> c' = c"
  by (auto simp: submit_headers_def split: if_splits sum.splits)

lemma submit_headers_empty:
  "submit_headers lib c start [] now = (r, c') \<Longrightarrow> c' = c"
  by (auto simp: submit_headers_def split: if_splits)

lemma with_batch_inv:
  assumes inv: "chain_inv lib c" and acc: "accepts lib c start raws now new"
  shows "chain_inv lib (with_batch lib c (kept c start) new)"
proof -
  let ?k = "kept c start"
  let ?hs = "take ?k (hc_headers c) @ new"
  have k: "?k \<le> length (hc_headers c)"
    and valid: "batch_valid lib c now (take ?k (hc_headers c)) raws new"
    and room: "?k + length new \<le> hc_max_stored c"
    using acc batch_valid_length by (fastforce simp: accepts_def Let_def)+
  have "header_rules lib c (take i ?hs) (?hs ! i)" if "i < length ?hs" for i
  proof (cases "i < ?k")
    case True
    with k inv show ?thesis
      by (auto simp: chain_inv_def nth_append min_def)
  next
    case False
    with k that batch_valid_rules [OF valid, of "i - ?k"] show ?thesis
      by (auto simp: nth_append min_def)
  qed
  then have "\<forall>i < length ?hs. header_rules lib (with_batch lib c ?k new) (take i ?hs) (?hs ! i)"
    by simp
  with inv room k show ?thesis
    unfolding chain_inv_def chain_bounds_def by simp
qed

lemma submit_headers_inv:
  assumes "chain_inv lib c" "submit_headers lib c start raws now = (r, c')"
  shows "chain_inv lib c'"
proof (cases r)
  case (Inl e)
  with assms show ?thesis using submit_headers_error by blast
next
  case (Inr out)
  show ?thesis
  proof (cases "raws = []")
    case True
    with assms show ?thesis using submit_headers_empty by blast
  next
    case False
    with assms Inr obtain new where "accepts lib c start raws now new"
      "c' = with_batch lib c (kept c start) new"
      using submit_headers_accepts by blast
    with assms(1) show ?thesis using with_batch_inv by blast
  qed
qed

lemma chain_inv_new:
  assumes "unat (cp_height cp) + MAX_STORED_HEADERS + 1 < 2 ^ 32"
  shows "chain_inv lib (header_chain_new n cp)"
  using assms by (simp add: chain_inv_def chain_bounds_def header_chain_new_def base_def)

subsection \<open>Reading the chain across a submission\<close>

lemma header_at_with_batch:
  "unat h \<le> base c + k \<Longrightarrow> k \<le> length (hc_headers c) \<Longrightarrow>
   header_at (with_batch lib c k new) h = header_at c h"
  by (auto simp: header_at_nat nth_opt_def nth_append)

lemma hash_at_with_batch:
  "unat h \<le> base c + k \<Longrightarrow> k \<le> length (hc_headers c) \<Longrightarrow>
   hc_hashes c = map (block_hash lib) (hc_headers c) \<Longrightarrow>
   hash_at (with_batch lib c k new) h = hash_at c h"
  by (auto simp: hash_at_nat nth_opt_def nth_append simp del: map_append)

lemma hash_at_header_at:
  assumes "chain_inv lib c" "header_at c h = Some hdr"
  shows "hash_at c h = Some (block_hash lib hdr)"
  using assms by (auto simp: chain_inv_def header_at_nat hash_at_nat split: if_splits)

lemma header_at_prev:
  assumes inv: "chain_inv lib c" and h: "header_at c h = Some hdr"
  shows "hash_at c (h - 1) = Some (prev_blockhash hdr)"
proof -
  let ?i = "unat h - base c - 1"
  have hi: "base c < unat h" "?i < length (hc_headers c)" "hdr = hc_headers c ! ?i"
    using h by (auto simp: header_at_nat split: if_splits)
  then have "0 < unat h" by simp
  then have p: "unat (h - 1) = unat h - 1"
    by (intro unat_minus_one) auto
  have "header_rules lib c (take ?i (hc_headers c)) hdr"
    using inv hi by (simp add: chain_inv_def)
  then have prev: "prev_blockhash hdr = fst (ref_prev lib c (take ?i (hc_headers c)))"
    by (auto simp: header_rules_def split: prod.splits)
  show ?thesis
  proof (cases ?i)
    case 0
    with p hi have "unat (h - 1) = base c" by simp
    with prev 0 show ?thesis by (simp add: hash_at_nat ref_prev_def)
  next
    case (Suc m)
    then have "last (take (Suc m) (hc_headers c)) = hc_headers c ! m"
      using hi by (subst last_conv_nth) (auto simp: min_def)
    moreover have "take (Suc m) (hc_headers c) \<noteq> []"
      using Suc hi by auto
    moreover have "unat (h - 1) - base c - 1 = m" "base c < unat (h - 1)"
      using p Suc by auto
    ultimately show ?thesis
      using prev Suc hi inv by (auto simp: hash_at_nat ref_prev_def nth_opt_def chain_inv_def)
  qed
qed

lemma confirmations_nat:
  assumes "chain_inv lib c" "header_at c h = Some hdr"
  shows "unat (confirmations c h cap) = min (base c + length (hc_headers c) - unat h + 1) (unat cap)"
proof -
  have b: "chain_bounds c" using assms(1) by (simp add: chain_inv_def)
  have hi: "base c < unat h" "unat h - base c - 1 < length (hc_headers c)"
    using assms(2) by (auto simp: header_at_nat split: if_splits)
  then have le: "h \<le> tip_height c"
    by (simp add: word_le_nat_alt unat_tip_height [OF b])
  have "unat (tip_height c - h) = base c + length (hc_headers c) - unat h"
    using unat_sub [OF le] unat_tip_height [OF b] by simp
  moreover have "base c + length (hc_headers c) - unat h + 1 < 2 ^ 32"
    using b by (auto simp: chain_bounds_def)
  ultimately have "unat (tip_height c - h + 1) = base c + length (hc_headers c) - unat h + 1"
    by (simp add: unat_word_ariths)
  then show ?thesis
    using assms(2) by (auto simp: confirmations_def min_def word_le_nat_alt)
qed

subsection \<open>Work\<close>

definition total_work :: "btc_lib \<Rightarrow> btc_header list \<Rightarrow> nat" where
  "total_work lib hs = sum_list (map (\<lambda>h. unat (header_work lib h)) hs)"

definition adds_work :: "btc_lib \<Rightarrow> bool" where
  "adds_work lib \<longleftrightarrow> (\<forall>a b. unat a + unat b < 2 ^ 256 \<longrightarrow> unat (work_add lib a b) = unat a + unat b)"

lemma sum_work_from_total:
  "adds_work lib \<Longrightarrow> unat acc + total_work lib hs < 2 ^ 256 \<Longrightarrow>
   unat (sum_work_from lib acc hs) = unat acc + total_work lib hs"
proof (induction lib acc hs rule: sum_work_from.induct)
  case (2 lib acc h hs)
  then have "unat (work_add lib acc (header_work lib h)) = unat acc + unat (header_work lib h)"
    by (auto simp: adds_work_def total_work_def)
  with 2 show ?case by (simp add: total_work_def)
qed (simp add: total_work_def)

lemma sum_work_total:
  "adds_work lib \<Longrightarrow> total_work lib hs < 2 ^ 256 \<Longrightarrow> sum_work lib hs = Some w \<Longrightarrow>
   unat w = total_work lib hs"
proof (cases hs)
  case (Cons h hs')
  assume "adds_work lib" "total_work lib hs < 2 ^ 256" "sum_work lib hs = Some w"
  with Cons sum_work_from_total [of lib "header_work lib h" hs'] show ?thesis
    by (auto simp: total_work_def)
qed simp

subsection \<open>Aligned checkpoints\<close>

text \<open>Above a checkpoint on a retarget boundary every block that the \<open>nBits\<close> rule reads is in
  the chain, so the lookups never fail.\<close>

lemma ref_bits_input_total:
  assumes "base c mod 2016 = 0"
  shows "\<exists>inp. ref_bits_input lib c pre t = Some inp"
proof -
  define n where "n = base c + length pre + 1"
  obtain q where q: "base c = 2016 * q" using assms by (metis dvdE mod_0_imp_dvd)
  have block: "\<exists>v. ref_block c pre m = Some v" if "base c \<le> m" "m < n" for m
    using ref_block_defined that by (simp add: n_def)
  have boundary: "\<not> n < 2016 \<and> (\<exists>v. ref_block c pre (n - 2016) = Some v)" if r0: "n mod 2016 = 0"
  proof -
    obtain r where r: "n = 2016 * r" using r0 by (metis dvdE mod_0_imp_dvd)
    moreover have "q < r" using q r by (simp add: n_def)
    ultimately have "\<not> n < 2016" "base c \<le> n - 2016" "n - 2016 < n"
      using q by linarith+
    then show ?thesis using block by blast
  qed
  have "2016 * q \<le> 2016 * (n div 2016)"
    using q div_le_mono [of "2016 * q" n 2016] by (simp add: n_def)
  then have "base c \<le> n - n mod 2016"
    using q by (simp add: minus_mod_eq_mult_div)
  then have period: "\<exists>v. ref_block c pre (n - n mod 2016) = Some v" if "n mod 2016 \<noteq> 0"
    using that by (intro block) (auto simp: n_def)
  obtain ph pb pt where prev: "ref_prev lib c pre = (ph, pb, pt)"
    using prod_cases3 by blast
  show ?thesis
  proof (cases "n mod 2016 = 0")
    case True
    with boundary obtain v where "\<not> n < 2016" "ref_block c pre (n - 2016) = Some v" by blast
    with True prev show ?thesis by (simp add: ref_bits_input_def n_def Let_def)
  next
    case False
    with period obtain v where "ref_block c pre (n - n mod 2016) = Some v" by blast
    with False prev show ?thesis by (simp add: ref_bits_input_def n_def Let_def)
  qed
qed

definition aligned :: "header_chain \<Rightarrow> bool" where
  "aligned c \<longleftrightarrow> (enforces_pow (hc_network c) \<longrightarrow> base c mod 2016 = 0)"

lemma stage_one_found:
  assumes ctx: "batch_ctx c k start staged" and ok: "staged_ok lib staged" and al: "aligned c"
    and pred: "pred = ref_prev lib c (take k (hc_headers c))"
  shows "stage_one lib c start now pred (length staged) raw staged \<noteq> Inl (HeaderNotFound x)"
proof -
  obtain ph pb pt where prev: "ref_prev lib c (below_of c k staged) = (ph, pb, pt)"
    using prod_cases3 by blast
  have val: "validate_header_full lib h ht p m eb n w \<noteq> Inl (HeaderNotFound x)" for h ht p m eb n w
    by (auto simp: validate_header_full_def and_then_Inl check_linkage_def check_timewarp_def
        check_future_time_def check_time_too_old_def check_pow_def split: if_splits option.splits)
  have bits: "\<exists>inp. bits_input_for lib c (start + of_nat (length staged)) t (pb, pt) start staged = Inr inp"
    if "enforces_pow (hc_network c)" for t
    using ref_bits_input_total [of c lib "below_of c k staged" t] al that
    unfolding aligned_def bits_input_ref [OF ctx prev] by simp
  show ?thesis
  proof (cases "deserialize_header lib raw")
    case (Some h)
    show ?thesis
      unfolding stage_one_def staged_prev [OF ok pred] prev median_ref [OF ctx] Let_def prod.case
      using val bits [of "hdr_time h"]
      by (cases "enforces_pow (hc_network c)") (auto simp: Some and_then_Inl)
  qed (simp add: stage_one_def)
qed

lemma stage_headers_found:
  assumes "batch_ctx c k start (staged @ replicate (length raws) undefined)" "staged_ok lib staged"
    and "aligned c" "pred = ref_prev lib c (take k (hc_headers c))"
  shows "stage_headers lib c start now pred (length staged) raws staged \<noteq> Inl (HeaderNotFound x)"
  using assms(1,2)
proof (induction raws arbitrary: staged)
  case (Cons raw raws)
  have ctx: "batch_ctx c k start staged"
    using Cons.prems(1) by (simp add: batch_ctx_def)
  have "stage_headers lib c start now pred (length (staged @ [e])) raws (staged @ [e])
      \<noteq> Inl (HeaderNotFound x)"
    if e: "stage_one lib c start now pred (length staged) raw staged = Inr e" for e
  proof (rule Cons.IH)
    obtain h where "e = (h, block_hash lib h)"
      using e unfolding stage_one_iff [OF ctx Cons.prems(2) assms(4)] by blast
    then show "staged_ok lib (staged @ [e])"
      using Cons.prems(2) by (auto simp: staged_ok_def)
  qed (use Cons.prems in \<open>simp add: batch_ctx_def\<close>)
  with stage_one_found [OF ctx Cons.prems(2) assms(3,4)] show ?case
    by (auto simp: and_then_Inl)
qed simp

lemma submit_headers_found:
  assumes inv: "chain_inv lib c" and al: "aligned c"
  shows "fst (submit_headers lib c start raws now) \<noteq> Inl (HeaderNotFound x)"
proof
  assume err: "fst (submit_headers lib c start raws now) = Inl (HeaderNotFound x)"
  note b = chain_inv_bounds [OF inv]
  have guards: "submit_guards c start n \<noteq> Inl (HeaderNotFound x)" for n
    by (auto simp: submit_guards_def Let_def and_then_Inl)
  have commit: "commit_batch lib c start d st \<noteq> Inl (HeaderNotFound x)" for d st
    by (auto simp: commit_batch_def Let_def and_then_Inl)
  obtain d where g: "submit_guards c start (length raws) = Inr d"
    and rest: "and_then (batch_predecessor c (start - 1)) (\<lambda>pred.
       and_then (stage_headers lib c start now pred 0 raws []) (\<lambda>staged.
       commit_batch lib c start d staged)) = Inl (HeaderNotFound x)"
    using err guards by (auto simp: submit_headers_def and_then_Inl split: if_splits sum.splits)
  from g b have k: "base c < unat start" "kept c start \<le> length (hc_headers c)"
    "kept c start + length raws \<le> hc_max_stored c"
    by (simp_all add: submit_guards_Inr)
  have ctx: "batch_ctx c (kept c start) start ([] @ replicate (length raws) undefined)"
    using k b by (auto simp: batch_ctx_def kept_def chain_bounds_def)
  have "staged_ok lib []" by (simp add: staged_ok_def)
  from stage_headers_found [OF ctx this al refl, of now x] rest commit show False
    using batch_predecessor_ref [of c start lib] k b by (auto simp: and_then_Inl)
qed

subsection \<open>Reachable chains\<close>

inductive chain_reachable :: "btc_lib \<Rightarrow> btc_network \<Rightarrow> header_chain \<Rightarrow> bool"
  for lib :: btc_lib and n :: btc_network where
  chain_start: "chain_reachable lib n (header_chain_new n (checkpoint_for n))"
| chain_submit: "chain_reachable lib n c \<Longrightarrow> submit_headers lib c start raws now = (r, c')
    \<Longrightarrow> chain_reachable lib n c'"

lemma submit_headers_fixed:
  assumes "chain_inv lib c" "submit_headers lib c start raws now = (r, c')"
  shows "hc_network c' = hc_network c" "base c' = base c" "hc_checkpoint c' = hc_checkpoint c"
    "hc_max_stored c' = hc_max_stored c"
proof -
  have "c' = c \<or> (\<exists>new. c' = with_batch lib c (kept c start) new)"
  proof (cases r)
    case (Inr out)
    with assms submit_headers_accepts [OF assms(1)] submit_headers_empty show ?thesis
      by (cases "raws = []") blast+
  qed (use assms submit_headers_error in blast)
  then show "hc_network c' = hc_network c" "base c' = base c" "hc_checkpoint c' = hc_checkpoint c"
    "hc_max_stored c' = hc_max_stored c"
    by auto
qed

lemma chain_reachable_inv:
  "chain_reachable lib n c \<Longrightarrow> chain_inv lib c \<and> hc_network c = n \<and> aligned c \<and>
    base c = unat (cp_height (checkpoint_for n)) \<and> hc_max_stored c = MAX_STORED_HEADERS"
proof (induction rule: chain_reachable.induct)
  case chain_start
  have "chain_inv lib (header_chain_new n (checkpoint_for n))"
    using checkpoint_for_height [of n] by (intro chain_inv_new) (simp add: MAX_STORED_HEADERS_def)
  moreover have "aligned (header_chain_new n (checkpoint_for n))"
    using checkpoint_for_aligned [of n]
    by (simp add: aligned_def assert_retarget_aligned_Inr header_chain_new_def base_def)
  ultimately show ?case
    by (simp add: header_chain_new_def base_def)
next
  case (chain_submit c start raws now r c')
  then show ?case
    using submit_headers_inv submit_headers_fixed [of lib c start raws now r c']
    by (auto simp: aligned_def)
qed

lemma accepted_batch:
  assumes "chain_inv lib c" "submit_headers lib c start raws now = (Inr out, c')" "raws \<noteq> []"
  obtains new where "accepts lib c start raws now new" "c' = with_batch lib c (kept c start) new"
  using assms submit_headers_accepts [OF assms(1,3)] by blast

lemma submit_reads_below:
  assumes inv: "chain_inv lib c" and sub: "submit_headers lib c start raws now = (r, c')"
    and h: "h < start"
  shows "hash_at c' h = hash_at c h" "header_at c' h = header_at c h"
proof -
  have "hash_at c' h = hash_at c h \<and> header_at c' h = header_at c h"
  proof (cases "raws = [] \<or> (\<exists>e. r = Inl e)")
    case True
    with sub have "c' = c" using submit_headers_empty submit_headers_error by blast
    then show ?thesis by simp
  next
    case False
    then obtain out where "r = Inr out" by (cases r) auto
    with False sub inv obtain new where acc: "accepts lib c start raws now new"
      and c': "c' = with_batch lib c (kept c start) new"
      using accepted_batch by blast
    have "unat h \<le> base c + kept c start" "kept c start \<le> length (hc_headers c)"
      using acc h by (auto simp: accepts_def Let_def kept_def word_less_nat_alt)
    then show ?thesis
      using chain_inv_bounds [OF inv] unfolding c'
      by (simp add: hash_at_with_batch header_at_with_batch)
  qed
  then show "hash_at c' h = hash_at c h" "header_at c' h = header_at c h" by auto
qed

lemma submit_reorg_depth:
  assumes inv: "chain_inv lib c" and sub: "submit_headers lib c start raws now = (Inr out, c')"
  shows "unat (out_reorg_depth out) = (if raws = [] then 0 else length (hc_headers c) - kept c start)"
proof (cases "raws = []")
  case True
  with sub show ?thesis by (auto simp: submit_headers_def split: if_splits)
next
  case False
  then obtain d where "submit_guards c start (length raws) = Inr d" "out_reorg_depth out = d"
    using sub by (auto simp: submit_headers_def and_then_Inr split: if_splits sum.splits)
  with False chain_inv_bounds [OF inv] show ?thesis
    by (auto simp: submit_guards_Inr)
qed

lemma total_work_append: "total_work lib (xs @ ys) = total_work lib xs + total_work lib ys"
  by (simp add: total_work_def)

lemma reorg_more_work:
  assumes acc: "accepts lib c start raws now new" and "adds_work lib"
    and old: "kept c start < length (hc_headers c)"
    and b1: "total_work lib (hc_headers c) < 2 ^ 256"
    and b2: "total_work lib (take (kept c start) (hc_headers c) @ new) < 2 ^ 256"
  shows "total_work lib (hc_headers c) < total_work lib (take (kept c start) (hc_headers c) @ new)"
proof -
  let ?k = "kept c start"
  obtain ow nw where w: "sum_work lib (drop ?k (hc_headers c)) = Some ow"
    "sum_work lib new = Some nw" "ow < nw"
    using acc old by (auto simp: accepts_def Let_def)
  have split: "total_work lib (hc_headers c)
      = total_work lib (take ?k (hc_headers c)) + total_work lib (drop ?k (hc_headers c))"
    by (simp flip: total_work_append)
  have "unat ow = total_work lib (drop ?k (hc_headers c))"
    using w(1) b1 split assms(2) by (intro sum_work_total) auto
  moreover have "unat nw = total_work lib new"
    using w(2) b2 assms(2) by (intro sum_work_total) (auto simp: total_work_append)
  ultimately show ?thesis
    using w(3) split by (simp add: total_work_append word_less_nat_alt)
qed

subsection \<open>A concrete run\<close>

text \<open>An instance of the crate interface for the concrete runs: a raw header is the hash of
  its predecessor followed by one byte, which is the hash of the header, every byte of its
  Merkle root, its work, and its offset in seconds from the regtest genesis time.\<close>

definition demo_header :: "bytes \<Rightarrow> u8 \<Rightarrow> btc_header" where
  "demo_header prev b = \<lparr>hdr_version = 0, prev_blockhash = prev, merkle_root = replicate 32 b,
     hdr_time = 1296688602 + ucast b, hdr_bits = 0x207fffff, hdr_nonce = 0\<rparr>"

definition demo_lib :: btc_lib where
  "demo_lib = \<lparr>
    deserialize_header = (\<lambda>raw. if raw = [] then None else Some (demo_header (butlast raw) (last raw))),
    block_hash = (\<lambda>h. take 1 (merkle_root h)),
    header_work = (\<lambda>h. ucast (hd (merkle_root h))),
    work_add = (+),
    meets_target = (\<lambda>h. True),
    next_work_required = (\<lambda>b t n. b),
    pow_target_spacing = (\<lambda>n. 600),
    allow_min_difficulty_blocks = (\<lambda>n. n \<noteq> Mainnet),
    max_target_bits = (\<lambda>n. 0x207fffff)\<rparr>"

definition demo_chain0 :: header_chain where
  "demo_chain0 = header_chain_new Regtest (checkpoint_for Regtest)"

definition demo_chain1 :: header_chain where
  "demo_chain1 = demo_chain0\<lparr>
     hc_headers := [demo_header (cp_hash REGTEST_CHECKPOINT) 1, demo_header [1] 2],
     hc_hashes := [[1], [2]]\<rparr>"

definition demo_chain2 :: header_chain where
  "demo_chain2 = demo_chain0\<lparr>
     hc_headers := [demo_header (cp_hash REGTEST_CHECKPOINT) 1, demo_header [1] 7, demo_header [7] 9],
     hc_hashes := [[1], [7], [9]]\<rparr>"

lemmas demo_defs = demo_lib_def demo_header_def demo_chain0_def demo_chain1_def demo_chain2_def
  REGTEST_CHECKPOINT_def header_chain_new_def

lemmas submit_defs = submit_headers_def submit_guards_def tip_height_def tip_hash_def
  batch_predecessor_def stage_one_def median_time_past_below_def commit_batch_def header_at_def
  hash_at_def nth_opt_def block_at_def checked_sub_def saturating_sub_def saturating_add_def
  validate_header_full_def check_linkage_def check_timewarp_def check_future_time_def
  check_time_too_old_def check_pow_def enforces_pow_def bip94_def MAX_HEADERS_PER_SUBMIT_def
  MAX_REORG_DEPTH_def MAX_STORED_HEADERS_def MEDIAN_TIME_SPAN_def MAX_FUTURE_BLOCK_TIME_SECS_def
  height_range_def median_time_past_def Let_def upt_conv_Cons word_le_nat_alt word_less_nat_alt

lemma demo_adds_work: "adds_work demo_lib"
  unfolding adds_work_def by (simp add: demo_lib_def unat_word_ariths)

lemma demo_submit:
  "submit_headers demo_lib demo_chain0 1 [cp_hash REGTEST_CHECKPOINT @ [1], [1, 2]] 1296688700 =
   (Inr \<lparr>last_block_height = 2, last_block_hash = [2], headers_accepted = 2, out_reorg_depth = 0\<rparr>,
    demo_chain1)"
  by (simp add: demo_defs submit_defs)

lemma demo_reorg:
  "submit_headers demo_lib demo_chain1 2 [[1, 7], [7, 9]] 1296688700 =
   (Inr \<lparr>last_block_height = 3, last_block_hash = [9], headers_accepted = 2, out_reorg_depth = 1\<rparr>,
    demo_chain2)"
  by (simp add: demo_defs submit_defs)

lemma demo_reachable0: "chain_reachable demo_lib Regtest demo_chain0"
  unfolding demo_chain0_def by (rule chain_start)

lemma demo_reachable1: "chain_reachable demo_lib Regtest demo_chain1"
  using demo_reachable0 demo_submit by (rule chain_submit)

subsection \<open>Properties\<close>

text \<open>C5: in every chain that submissions can reach from the compiled-in checkpoint, each stored
  header links to the block below it, its cached hash is its own hash, it meets its target
  where the network enforces proof of work, and it obeys the timewarp, median-time and
  \<open>nBits\<close> rules with respect to the headers below it.\<close>

theorem stored_headers_valid:
  assumes "chain_reachable lib n c" "header_at c h = Some hdr"
  shows "hash_at c (h - 1) = Some (prev_blockhash hdr) \<and>
    hash_at c h = Some (block_hash lib hdr) \<and>
    (enforces_pow n \<longrightarrow> meets_target lib hdr) \<and>
    h \<le> tip_height c \<and>
    header_rules lib c (take (unat h - base c - 1) (hc_headers c)) hdr"
proof -
  have inv: "chain_inv lib c" "hc_network c = n"
    using chain_reachable_inv [OF assms(1)] by auto
  have idx: "base c < unat h" "unat h - base c - 1 < length (hc_headers c)"
      "hdr = hc_headers c ! (unat h - base c - 1)"
    using assms(2) by (auto simp: header_at_nat split: if_splits)
  then have rules: "header_rules lib c (take (unat h - base c - 1) (hc_headers c)) hdr"
    using inv by (simp add: chain_inv_def)
  then have "enforces_pow n \<longrightarrow> meets_target lib hdr"
    using inv(2) by (auto simp: header_rules_def split: prod.splits)
  moreover have "h \<le> tip_height c"
    using idx inv(1) by (simp add: word_le_nat_alt unat_tip_height chain_inv_def)
  ultimately show ?thesis
    using rules header_at_prev [OF inv(1) assms(2)] hash_at_header_at [OF inv(1) assms(2)] by simp
qed

theorem stored_headers_valid_witness:
  "chain_reachable demo_lib Regtest demo_chain1 \<and>
   hash_at demo_chain1 1 = Some (prev_blockhash (demo_header [1] 2)) \<and> 2 \<le> tip_height demo_chain1"
proof -
  have "header_at demo_chain1 2 = Some (demo_header [1] 2)"
    by (simp add: demo_defs submit_defs)
  from stored_headers_valid [OF demo_reachable1 this] demo_reachable1 show ?thesis by simp
qed

text \<open>C10: a submission of at least one header succeeds exactly when the batch is within the size
  cap, starts above the checkpoint and at most one above the tip, displaces at most 100
  headers, fits the retention cap, consists of headers that parse, obey every rule and are
  dated at most two hours ahead, and, when it displaces headers, carries strictly more work
  than they do. The new chain is then the kept prefix followed by the batch; a refused
  submission leaves the chain as it was.\<close>

theorem submit_headers_exact:
  assumes "chain_reachable lib n c" "raws \<noteq> []"
  shows "((\<exists>out. submit_headers lib c start raws now = (Inr out, c')) \<longleftrightarrow>
      (\<exists>new. accepts lib c start raws now new \<and> c' = with_batch lib c (kept c start) new)) \<and>
    (is_ok (fst (submit_headers lib c start raws now)) \<or> snd (submit_headers lib c start raws now) = c)"
proof -
  have inv: "chain_inv lib c" using chain_reachable_inv [OF assms(1)] by simp
  have "is_ok (fst (submit_headers lib c start raws now)) \<or> snd (submit_headers lib c start raws now) = c"
    using submit_headers_error [of lib c start raws now]
    by (cases "submit_headers lib c start raws now"; cases "fst (submit_headers lib c start raws now)") auto
  with submit_headers_accepts [OF inv assms(2)] show ?thesis by blast
qed

theorem submit_headers_exact_witness:
  "\<exists>new. accepts demo_lib demo_chain1 2 [[1, 7], [7, 9]] 1296688700 new \<and>
     demo_chain2 = with_batch demo_lib demo_chain1 (kept demo_chain1 2) new"
proof -
  have "[[1, 7], [7, 9]] \<noteq> ([] :: bytes list)" by simp
  from submit_headers_exact [OF demo_reachable1 this, of 2 1296688700 demo_chain2] demo_reorg
  show ?thesis by blast
qed

text \<open>C21: an accepted reorganisation displaces at most 100 headers, never touches the checkpoint
  or a block below the start of the batch, and strictly increases the total work of the
  chain, provided that the crate's work addition is exact where the sum fits 256 bits and
  the totals do fit.\<close>

theorem reorg_bounded_and_heavier:
  assumes "chain_reachable lib n c"
    and "submit_headers lib c start raws now = (Inr out, c')" "0 < out_reorg_depth out"
    and "adds_work lib" "total_work lib (hc_headers c) < 2 ^ 256"
    and "total_work lib (hc_headers c') < 2 ^ 256"
  shows "unat (out_reorg_depth out) \<le> 100 \<and> cp_height (hc_checkpoint c) < start \<and>
    (h < start \<longrightarrow> hash_at c' h = hash_at c h \<and> header_at c' h = header_at c h) \<and>
    total_work lib (hc_headers c) < total_work lib (hc_headers c')"
proof -
  have inv: "chain_inv lib c" using chain_reachable_inv [OF assms(1)] by simp
  have depth: "raws \<noteq> []" "kept c start < length (hc_headers c)"
    "unat (out_reorg_depth out) = length (hc_headers c) - kept c start"
    using submit_reorg_depth [OF inv assms(2)] assms(3) by (auto simp: word_less_nat_alt split: if_splits)
  obtain new where acc: "accepts lib c start raws now new"
    and c': "c' = with_batch lib c (kept c start) new"
    using accepted_batch [OF inv assms(2) depth(1)] by blast
  have "cp_height (hc_checkpoint c) < start"
    using acc chain_inv_bounds [OF inv] by (simp add: accepts_def Let_def base_def word_less_nat_alt)
  moreover have "length (hc_headers c) - kept c start \<le> 100"
    using acc by (simp add: accepts_def Let_def)
  ultimately show ?thesis
    using depth reorg_more_work [OF acc assms(4) depth(2) assms(5)] assms(6)
      submit_reads_below [OF inv assms(2), of h] by (simp add: c')
qed

theorem reorg_bounded_and_heavier_witness:
  "total_work demo_lib (hc_headers demo_chain1) < total_work demo_lib (hc_headers demo_chain2) \<and>
   hash_at demo_chain2 1 = hash_at demo_chain1 1"
proof -
  have "total_work demo_lib (hc_headers demo_chain1) < 2 ^ 256"
    "total_work demo_lib (hc_headers demo_chain2) < 2 ^ 256"
    by (simp_all add: total_work_def demo_defs)
  with reorg_bounded_and_heavier [OF demo_reachable1 demo_reorg _ demo_adds_work, of 1] show ?thesis
    by simp
qed

text \<open>C27: from a compiled-in checkpoint a submission is never refused because a header that the
  difficulty or median-time rule needs is missing: every block those rules read is at or above
  the checkpoint.\<close>

theorem submit_never_misses_a_header:
  assumes "chain_reachable lib n c"
  shows "fst (submit_headers lib c start raws now) \<noteq> Inl (HeaderNotFound x)"
  using chain_reachable_inv [OF assms] submit_headers_found by blast

theorem submit_never_misses_a_header_witness:
  "fst (submit_headers demo_lib demo_chain1 3 [[2, 3]] 0) \<noteq> Inl (HeaderNotFound 0)"
  by (rule submit_never_misses_a_header [OF demo_reachable1])

text \<open>C28: while a batch is staged above the first \<open>k\<close> headers of the chain, the lookup that tries
  the batch, then the committed chain, then the checkpoint returns for every height below the
  next header what a lookup in the resulting chain returns, also when the batch replaces
  committed headers.\<close>

theorem block_at_reads_resulting_chain:
  assumes "batch_ctx c k start staged" "unat h < unat start + length staged"
  shows "block_at c h start staged =
    ok_or (ref_block c (take k (hc_headers c) @ map fst staged) (unat h)) (HeaderNotFound h)"
  using assms by (intro batch_block_at) (auto simp: batch_ctx_def)

theorem block_at_reads_resulting_chain_witness:
  "block_at demo_chain1 2 2 [(demo_header [1] 7, [7])] = Inr (1296688609, 0x207fffff)"
  using block_at_reads_resulting_chain [of demo_chain1 1 2 "[(demo_header [1] 7, [7])]" 2]
  by (simp add: batch_ctx_def base_def demo_defs ref_block_def nth_opt_def)

end
