(* ===== verification/Merkle_Proof.thy ===== *)
theory Merkle_Proof
  imports Enclave_Error
begin

text \<open>
  Merkle inclusion proofs (\<open>enclave/src/networks/rgb/spv/merkle.rs\<close>). The double SHA-256
  of the \<open>bitcoin\<close> crate is the parameter \<open>H\<close>.

  The lemmas relate the verifier to perfect binary trees: a proof read off a tree is
  accepted, an accepted proof of the depth of the tree names the leaf at its position
  unless it exhibits a collision of \<open>H\<close>, and \<open>is_64_byte_transaction\<close> recognises
  exactly the serialisations of 64 bytes that the comment in the source describes.
\<close>

definition MAX_MERKLE_PATH_DEPTH :: nat where
  "MAX_MERKLE_PATH_DEPTH = 32"

datatype merkle_error =
  BadSiblingLength nat nat
| RootMismatch bytes bytes
| PositionOutOfRange u32 nat
| TransactionShapedNode nat

definition MAX_MONEY_SATS :: u64 where
  "MAX_MONEY_SATS = 21000000 * 100000000"

text \<open>\<open>u64::from_le_bytes\<close> on eight bytes is \<^const>\<open>le_nat\<close>, which is below \<open>2 ^ 64\<close>.\<close>

definition is_64_byte_transaction :: "bytes \<Rightarrow> bool" where
  "is_64_byte_transaction node =
    (if node ! 4 \<noteq> 1 then False
     else let s = unat (node ! 41) in
       if 4 < s \<or> node ! (46 + s) \<noteq> 1 then False
       else let value = take 8 (drop (47 + s) node) in
         (of_nat (le_nat value) :: u64) \<le> MAX_MONEY_SATS \<and> unat (node ! (55 + s)) = 4 - s)"

text \<open>The loop over the path, with the level, the current hash and the shifted position.\<close>

fun merkle_climb ::
  "(bytes \<Rightarrow> bytes) \<Rightarrow> nat \<Rightarrow> bytes \<Rightarrow> u32 \<Rightarrow> bytes list \<Rightarrow> (merkle_error, bytes \<times> u32) result" where
  "merkle_climb H i current idx [] = Inr (current, idx)"
| "merkle_climb H i current idx (sibling # rest) =
    (if length sibling \<noteq> 32 then Inl (BadSiblingLength i (length sibling))
     else let buf = (if idx AND 1 = 0 then current @ sibling else sibling @ current) in
       if is_64_byte_transaction buf then Inl (TransactionShapedNode i)
       else merkle_climb H (Suc i) (H buf) (drop_bit 1 idx) rest)"

definition verify_merkle_proof ::
  "(bytes \<Rightarrow> bytes) \<Rightarrow> bytes \<Rightarrow> u32 \<Rightarrow> bytes list \<Rightarrow> bytes \<Rightarrow> (merkle_error, unit) result" where
  "verify_merkle_proof H txid position path merkle_root =
    and_then (merkle_climb H 0 txid position path) (\<lambda>(current, idx).
      if idx \<noteq> 0 then Inl (PositionOutOfRange position (length path))
      else require (current = merkle_root) (RootMismatch current merkle_root))"

subsection \<open>Trees\<close>

datatype mtree = Leaf bytes | Node mtree mtree

fun tree_root :: "(bytes \<Rightarrow> bytes) \<Rightarrow> mtree \<Rightarrow> bytes" where
  "tree_root H (Leaf h) = h"
| "tree_root H (Node l r) = H (tree_root H l @ tree_root H r)"

fun perfect :: "nat \<Rightarrow> mtree \<Rightarrow> bool" where
  "perfect 0 (Leaf h) \<longleftrightarrow> length h = 32"
| "perfect (Suc d) (Node l r) \<longleftrightarrow> perfect d l \<and> perfect d r"
| "perfect _ _ \<longleftrightarrow> False"

text \<open>Bit \<open>d\<close> of the position selects the child at a node whose children have depth \<open>d\<close>.\<close>

fun leaf_at :: "mtree \<Rightarrow> nat \<Rightarrow> u32 \<Rightarrow> bytes" where
  "leaf_at (Leaf h) d pos = h"
| "leaf_at (Node l r) d pos = (if bit pos (d - 1) then leaf_at r (d - 1) pos else leaf_at l (d - 1) pos)"

fun path_of :: "(bytes \<Rightarrow> bytes) \<Rightarrow> mtree \<Rightarrow> nat \<Rightarrow> u32 \<Rightarrow> bytes list" where
  "path_of H (Leaf h) d pos = []"
| "path_of H (Node l r) d pos =
    (if bit pos (d - 1) then path_of H r (d - 1) pos @ [tree_root H l]
     else path_of H l (d - 1) pos @ [tree_root H r])"

fun nodes_not_tx :: "(bytes \<Rightarrow> bytes) \<Rightarrow> mtree \<Rightarrow> bool" where
  "nodes_not_tx H (Leaf h) \<longleftrightarrow> True"
| "nodes_not_tx H (Node l r) \<longleftrightarrow>
    \<not> is_64_byte_transaction (tree_root H l @ tree_root H r) \<and> nodes_not_tx H l \<and> nodes_not_tx H r"

definition hash32 :: "(bytes \<Rightarrow> bytes) \<Rightarrow> bool" where
  "hash32 H \<longleftrightarrow> (\<forall>x. length (H x) = 32)"

definition collision :: "(bytes \<Rightarrow> bytes) \<Rightarrow> bool" where
  "collision H \<longleftrightarrow> (\<exists>x y. x \<noteq> y \<and> H x = H y)"

lemma perfect_Suc: "perfect (Suc d) t \<longleftrightarrow> (\<exists>l r. t = Node l r \<and> perfect d l \<and> perfect d r)"
  by (cases t) auto

lemma perfect_0: "perfect 0 t \<longleftrightarrow> (\<exists>h. t = Leaf h \<and> length h = 32)"
  by (cases t) auto

lemma tree_root_length: "hash32 H \<Longrightarrow> perfect d t \<Longrightarrow> length (tree_root H t) = 32"
  by (induction d t rule: perfect.induct) (auto simp: hash32_def)

lemma and_one_eq_0: "idx AND 1 = 0 \<longleftrightarrow> \<not> bit idx 0" for idx :: u32
  by (simp add: and_one_eq mod_2_eq_odd bit_0)

lemma climb_append:
  "merkle_climb H i c idx (p @ q) =
    and_then (merkle_climb H i c idx p) (\<lambda>(c', idx'). merkle_climb H (i + length p) c' idx' q)"
  by (induction p arbitrary: i c idx) (auto simp: Let_def)

lemma climb_idx: "merkle_climb H i c idx p = Inr (c', idx') \<Longrightarrow> idx' = drop_bit (length p) idx"
proof (induction p arbitrary: i c idx)
  case (Cons a p)
  then have "\<exists>i c. merkle_climb H i c (drop_bit 1 idx) p = Inr (c', idx')"
    by (auto simp: Let_def split: if_splits)
  then have "idx' = drop_bit (length p) (drop_bit 1 idx)"
    using Cons.IH by blast
  then show ?case by (simp add: drop_bit_drop_bit)
qed simp

lemma climb_length:
  "hash32 H \<Longrightarrow> length c = 32 \<Longrightarrow> merkle_climb H i c idx p = Inr (c', idx') \<Longrightarrow> length c' = 32"
  by (induction p arbitrary: i c idx) (auto simp: Let_def hash32_def split: if_splits)

lemma climb_snoc:
  "merkle_climb H i c pos (p @ [s]) = Inr (c', j) \<longleftrightarrow>
    (\<exists>c0. merkle_climb H i c pos p = Inr (c0, drop_bit (length p) pos) \<and> length s = 32 \<and>
      (let buf = (if bit pos (length p) then s @ c0 else c0 @ s) in
       \<not> is_64_byte_transaction buf \<and> c' = H buf) \<and> j = drop_bit (Suc (length p)) pos)"
proof -
  have bit0: "drop_bit (length p) pos AND 1 = 0 \<longleftrightarrow> \<not> bit pos (length p)"
    by (simp add: and_one_eq_0 bit_drop_bit_eq)
  have next_idx: "drop_bit 1 (drop_bit (length p) pos) = drop_bit (Suc (length p)) pos"
    by (simp add: drop_bit_drop_bit)
  show ?thesis
  proof (cases "merkle_climb H i c pos p")
    case (Inl e)
    then show ?thesis by (simp add: climb_append)
  next
    case (Inr r)
    obtain c0 where r: "r = (c0, drop_bit (length p) pos)"
      using climb_idx Inr by (cases r) blast
    show ?thesis
      unfolding climb_append Inr r
      by (auto simp: bit0 next_idx [unfolded One_nat_def] Let_def)
  qed
qed

lemma collisionI: "x \<noteq> y \<Longrightarrow> H x = H y \<Longrightarrow> collision H"
  unfolding collision_def by (intro exI [of _ x] exI [of _ y]) simp

lemma climb_sound:
  assumes "hash32 H" "length txid = 32" "perfect (length path) t"
    and "merkle_climb H i txid pos path = Inr (tree_root H t, j)"
  shows "txid = leaf_at t (length path) pos \<or> collision H"
  using assms(3,4)
proof (induction path arbitrary: t j rule: rev_induct)
  case Nil
  then show ?case by (auto simp: perfect_0)
next
  case (snoc s p)
  obtain l r where t: "t = Node l r" "perfect (length p) l" "perfect (length p) r"
    using snoc.prems(1) by (auto simp: perfect_Suc)
  obtain c0 where c0: "merkle_climb H i txid pos p = Inr (c0, drop_bit (length p) pos)"
    and s: "length s = 32"
    and root: "tree_root H t = H (if bit pos (length p) then s @ c0 else c0 @ s)"
    using snoc.prems(2) unfolding climb_snoc Let_def by blast
  have len: "length c0 = 32" "length (tree_root H l) = 32" "length (tree_root H r) = 32"
    using climb_length [OF assms(1,2) c0] tree_root_length [OF assms(1)] t(2,3) by blast+
  define buf where "buf = (if bit pos (length p) then s @ c0 else c0 @ s)"
  have "collision H" if "buf \<noteq> tree_root H l @ tree_root H r"
  proof (rule collisionI [OF that])
    show "H buf = H (tree_root H l @ tree_root H r)"
      using root t(1) by (simp add: buf_def)
  qed
  moreover have "txid = leaf_at t (length (p @ [s])) pos \<or> collision H"
    if b: "buf = tree_root H l @ tree_root H r"
  proof (cases "bit pos (length p)")
    case True
    have "length s = length (tree_root H l)" using s len by simp
    then have "c0 = tree_root H r"
      using b True unfolding buf_def by simp
    then have "txid = leaf_at r (length p) pos \<or> collision H"
      using snoc.IH [OF t(3)] c0 by blast
    then show ?thesis using True t(1) by simp
  next
    case False
    have "length c0 = length (tree_root H l)" using len by simp
    then have "c0 = tree_root H l"
      using b False unfolding buf_def by simp
    then have "txid = leaf_at l (length p) pos \<or> collision H"
      using snoc.IH [OF t(2)] c0 by blast
    then show ?thesis using False t(1) by simp
  qed
  ultimately show ?case by blast
qed
lemma climb_complete:
  assumes "hash32 H" "perfect d t" "nodes_not_tx H t"
  shows "merkle_climb H i (leaf_at t d pos) pos (path_of H t d pos)
    = Inr (tree_root H t, drop_bit d pos) \<and> length (path_of H t d pos) = d"
  using assms(2,3)
proof (induction d arbitrary: t)
  case 0
  then show ?case by (auto simp: perfect_0)
next
  case (Suc d)
  obtain l r where t: "t = Node l r" "perfect d l" "perfect d r"
    using Suc.prems(1) by (auto simp: perfect_Suc)
  have IH: "merkle_climb H i (leaf_at l d pos) pos (path_of H l d pos)
      = Inr (tree_root H l, drop_bit d pos)" "length (path_of H l d pos) = d"
    "merkle_climb H i (leaf_at r d pos) pos (path_of H r d pos)
      = Inr (tree_root H r, drop_bit d pos)" "length (path_of H r d pos) = d"
    using Suc t by auto
  have len: "length (tree_root H l) = 32" "length (tree_root H r) = 32"
    using tree_root_length [OF assms(1)] t by auto
  show ?case
  proof (cases "bit pos d")
    case True
    then have "merkle_climb H i (leaf_at r d pos) pos (path_of H r d pos @ [tree_root H l])
        = Inr (tree_root H t, drop_bit (Suc d) pos)"
      unfolding climb_snoc using t(1) IH(3,4) len Suc.prems(2) by simp
    with True t(1) IH(4) show ?thesis by simp
  next
    case False
    then have "merkle_climb H i (leaf_at l d pos) pos (path_of H l d pos @ [tree_root H r])
        = Inr (tree_root H t, drop_bit (Suc d) pos)"
      unfolding climb_snoc using t(1) IH(1,2) len Suc.prems(2) by simp
    with False t(1) IH(2) show ?thesis by simp
  qed
qed

lemma drop_bit_eq_0_iff: "drop_bit d pos = 0 \<longleftrightarrow> unat pos < 2 ^ d" for pos :: u32
proof -
  have "unat (drop_bit d pos) = unat pos div 2 ^ d"
    by (metis drop_bit_eq_div unat_drop_bit_eq)
  then show ?thesis
    by (simp add: word_unat_eq_iff div_eq_0_iff)
qed

lemma verify_merkle_proof_Inr:
  "verify_merkle_proof H txid pos path root = Inr () \<longleftrightarrow>
    merkle_climb H 0 txid pos path = Inr (root, 0)"
  by (auto simp: verify_merkle_proof_def and_then_Inr split: prod.splits if_splits)

lemma verify_position:
  assumes "verify_merkle_proof H txid pos path root = Inr ()"
  shows "unat pos < 2 ^ length path"
  using assms climb_idx unfolding verify_merkle_proof_Inr drop_bit_eq_0_iff [symmetric] by metis

subsection \<open>Transactions of 64 bytes\<close>

text \<open>The legacy serialisation with one input and one output: version, input count, outpoint,
  scriptSig, sequence, output count, value, scriptPubKey, lock time.\<close>

definition serialize_1_1 ::
  "bytes \<Rightarrow> bytes \<Rightarrow> bytes \<Rightarrow> bytes \<Rightarrow> bytes \<Rightarrow> bytes \<Rightarrow> bytes \<Rightarrow> bytes" where
  "serialize_1_1 version outpoint script_sig sequence value script_pubkey lock_time =
    version @ [1] @ outpoint @ [of_nat (length script_sig)] @ script_sig @ sequence @ [1] @ value
      @ [of_nat (length script_pubkey)] @ script_pubkey @ lock_time"

lemma split_front: "n \<le> length xs \<Longrightarrow> \<exists>a b. xs = a @ b \<and> length a = n"
  by (intro exI [of _ "take n xs"] exI [of _ "drop n xs"]) simp

lemma split_at_byte: "n < length xs \<Longrightarrow> \<exists>a x b. xs = a @ x # b \<and> length a = n"
  by (metis id_take_nth_drop length_take min.absorb4)

lemma split_node:
  assumes "length node = 64" "unat (node ! 41) \<le> 4"
  obtains ver x outp y sig sq z val w pk lock where
    "node = ver @ x # outp @ y # sig @ sq @ z # val @ w # pk @ lock"
    "length ver = 4" "length outp = 36" "length sig = unat y" "length sq = 4" "length val = 8"
    "length pk = 4 - unat y" "length lock = 4" "unat y \<le> 4"
proof -
  obtain ver x r1 where 1: "node = ver @ x # r1" "length ver = 4"
    using split_at_byte [of 4 node] assms(1) by auto
  obtain outp y r2 where 2: "r1 = outp @ y # r2" "length outp = 36"
    using split_at_byte [of 36 r1] assms(1) 1 by auto
  have "node = (ver @ x # outp) @ y # r2" "length (ver @ x # outp) = 41"
    using 1 2 by simp_all
  then have y: "node ! 41 = y"
    by (metis nth_append_length)
  have l2: "length r2 = 22" using assms(1) 1 2 by simp
  obtain sig r3 where 3: "r2 = sig @ r3" "length sig = unat y"
    using split_front [of "unat y" r2] assms(2) y l2 by auto
  obtain sq z r4 where 4: "r3 = sq @ z # r4" "length sq = 4"
    using split_at_byte [of 4 r3] assms(2) y l2 3 by auto
  obtain val w r5 where 5: "r4 = val @ w # r5" "length val = 8"
    using split_at_byte [of 8 r4] assms(2) y l2 3 4 by auto
  have "4 - unat y \<le> length r5"
    using assms(2) y l2 3 4 5 by simp
  then obtain pk lock where 6: "r5 = pk @ lock" "length pk = 4 - unat y"
    using split_front by blast
  have "length lock = 4"
    using assms(2) y l2 3 4 5 6 by simp
  with 1 2 3 4 5 6 assms(2) y show thesis
    by (intro that [of ver x outp y sig sq z val w pk lock]) simp_all
qed

lemma nth_middle: "length a = n \<Longrightarrow> (a @ x # b) ! n = x"
  by auto

lemma is_64_node:
  assumes node: "node = ver @ x # outp @ y # sig @ sq @ z # val @ w # pk @ lock"
    and len: "length ver = 4" "length outp = 36" "length sig = unat y" "length sq = 4"
      "length val = 8" "unat y \<le> 4"
  shows "is_64_byte_transaction node \<longleftrightarrow>
    x = 1 \<and> z = 1 \<and> le_nat val \<le> 2100000000000000 \<and> unat w = 4 - unat y"
proof -
  have n4: "node ! 4 = x"
    using node len by (simp add: nth_append)
  have "node = (ver @ x # outp) @ y # sig @ sq @ z # val @ w # pk @ lock"
    by (simp add: node)
  then have n41: "node ! 41 = y"
    by (rule ssubst) (rule nth_middle, use len in simp)
  have "node = (ver @ x # outp @ y # sig @ sq) @ z # val @ w # pk @ lock"
    by (simp add: node)
  then have n46: "node ! (46 + unat y) = z"
    by (rule ssubst) (rule nth_middle, use len in simp)
  have "node = (ver @ x # outp @ y # sig @ sq @ z # val) @ w # pk @ lock"
    by (simp add: node)
  then have n55: "node ! (55 + unat y) = w"
    by (rule ssubst) (rule nth_middle, use len in simp)
  have "node = (ver @ x # outp @ y # sig @ sq @ [z]) @ val @ w # pk @ lock"
    by (simp add: node)
  moreover have "length (ver @ x # outp @ y # sig @ sq @ [z]) = 47 + unat y"
    using len by simp
  ultimately have val: "take 8 (drop (47 + unat y) node) = val"
    using len(5) by (metis append_eq_conv_conj)
  have "le_nat val < 2 ^ 64"
    using le_nat_less [of val] len(5) by simp
  then have money: "(of_nat (le_nat val) :: u64) \<le> MAX_MONEY_SATS \<longleftrightarrow> le_nat val \<le> 2100000000000000"
    by (simp add: MAX_MONEY_SATS_def word_le_nat_alt unat_of_nat)
  show ?thesis
    unfolding is_64_byte_transaction_def n4 n41 Let_def n46 val n55 money
    using len(6) by auto
qed

subsection \<open>Properties\<close>


text \<open>A hash for the concrete proof below: the first byte counts, the rest is constant.\<close>

definition demo_hash :: "bytes \<Rightarrow> bytes" where
  "demo_hash x = (hd x + 1) # replicate 31 0"

lemma demo_hash32: "hash32 demo_hash"
  by (simp add: hash32_def demo_hash_def)

lemma demo_merkle:
  "verify_merkle_proof demo_hash (replicate 32 5) 0 [replicate 32 7]
     (tree_root demo_hash (Node (Leaf (replicate 32 5)) (Leaf (replicate 32 7)))) = Inr ()"
  by (simp add: verify_merkle_proof_def demo_hash_def is_64_byte_transaction_def nth_append)


text \<open>C35: the proof read off a perfect tree of depth at most 32 is accepted for every position,
  provided no inner node of the tree has the shape of a transaction.\<close>

theorem honest_proof_accepted:
  assumes "hash32 H" "perfect d t" "nodes_not_tx H t" "unat pos < 2 ^ d"
  shows "verify_merkle_proof H (leaf_at t d pos) pos (path_of H t d pos) (tree_root H t) = Inr ()
    \<and> length (path_of H t d pos) = d"
  using climb_complete [OF assms(1-3), of 0 pos] assms(4)
  by (simp add: verify_merkle_proof_Inr drop_bit_eq_0_iff [symmetric])

theorem honest_proof_accepted_witness:
  "verify_merkle_proof demo_hash (replicate 32 7) 1 [replicate 32 5]
     (tree_root demo_hash (Node (Leaf (replicate 32 5)) (Leaf (replicate 32 7)))) = Inr ()"
  using honest_proof_accepted [OF demo_hash32,
      of 1 "Node (Leaf (replicate 32 5)) (Leaf (replicate 32 7))" 1]
  by (simp add: is_64_byte_transaction_def nth_append)

text \<open>C36: the shape test holds of exactly the 64-byte nodes that are the legacy serialisation of a
  transaction with one input, one output, scripts of four bytes together and a value within the
  money range.\<close>

theorem is_64_byte_transaction_exact:
  assumes "length node = 64"
  shows "is_64_byte_transaction node \<longleftrightarrow>
    (\<exists>version outpoint script_sig sequence value script_pubkey lock_time.
       node = serialize_1_1 version outpoint script_sig sequence value script_pubkey lock_time \<and>
       length version = 4 \<and> length outpoint = 36 \<and> length sequence = 4 \<and> length value = 8 \<and>
       length lock_time = 4 \<and> length script_sig + length script_pubkey = 4 \<and>
       le_nat value \<le> 21000000 * 100000000)"
    (is "_ \<longleftrightarrow> ?ser")
proof
  assume tx: "is_64_byte_transaction node"
  then have "unat (node ! 41) \<le> 4"
    by (auto simp: is_64_byte_transaction_def Let_def split: if_splits)
  with assms obtain ver x outp y sig sq z val w pk lock where
    node: "node = ver @ x # outp @ y # sig @ sq @ z # val @ w # pk @ lock"
    and len: "length ver = 4" "length outp = 36" "length sig = unat y" "length sq = 4"
      "length val = 8" "length pk = 4 - unat y" "length lock = 4" "unat y \<le> 4"
    by (rule split_node)
  have f: "x = 1" "z = 1" "le_nat val \<le> 2100000000000000" "unat w = 4 - unat y"
    using is_64_node [OF node len(1-5,8)] tx by auto
  have "length pk = unat w"
    using len(6) f(4) by simp
  then have "of_nat (length sig) = y" "of_nat (length pk) = w"
    using len(3) by simp_all
  then have "node = serialize_1_1 ver outp sig sq val pk lock"
    using node f by (simp add: serialize_1_1_def)
  moreover have "length sig + length pk = 4" "le_nat val \<le> 21000000 * 100000000"
    using len(3,6,8) f(3) by simp_all
  ultimately show ?ser
    using len(1,2,4,5,7) by blast
next
  assume ?ser
  then obtain ver outp sig sq val pk lock where
    node: "node = serialize_1_1 ver outp sig sq val pk lock"
    and len: "length ver = 4" "length outp = 36" "length sq = 4" "length val = 8"
      "length lock = 4" "length sig + length pk = 4" "le_nat val \<le> 21000000 * 100000000"
    by blast
  have small: "unat (of_nat n :: u8) = n" if "n \<le> 4" for n
    using that by simp
  have "node = ver @ 1 # outp @ of_nat (length sig) # sig @ sq @ 1 # val @ of_nat (length pk) # pk @ lock"
    by (simp add: node serialize_1_1_def)
  moreover have "unat (of_nat (length sig) :: u8) = length sig"
      "unat (of_nat (length pk) :: u8) = length pk"
    using len(6) by (auto intro!: small)
  ultimately show "is_64_byte_transaction node"
    using is_64_node [of node ver 1 outp "of_nat (length sig)" sig sq 1 val "of_nat (length pk)" pk lock]
      len by simp
qed

theorem is_64_byte_transaction_exact_witness:
  "\<not> is_64_byte_transaction (replicate 64 0) \<and>
   \<not> (\<exists>version outpoint script_sig sequence value script_pubkey lock_time.
       replicate 64 0 = serialize_1_1 version outpoint script_sig sequence value script_pubkey lock_time \<and>
       length version = 4 \<and> length outpoint = 36 \<and> length sequence = 4 \<and> length value = 8 \<and>
       length lock_time = 4 \<and> length script_sig + length script_pubkey = 4 \<and>
       le_nat value \<le> 21000000 * 100000000)"
proof -
  have "\<not> is_64_byte_transaction (replicate 64 0)"
    by (simp add: is_64_byte_transaction_def)
  with is_64_byte_transaction_exact [of "replicate 64 0"] show ?thesis by simp
qed

end
