(* ===== verification/Spv_Crosscheck.thy ===== *)
theory Spv_Crosscheck
  imports Header_Chain Merkle_Proof Rate_Limits
begin

text \<open>
  The SPV checks before a release is signed
  (\<open>enclave/src/networks/rgb/spv_crosscheck.rs\<close>) and the header-sync requests
  (\<open>enclave/src/server/spv.rs\<close>): freshness of the chain, coverage and inclusion of the
  witness transactions, and the pins that are checked again just before the key is used.

  Parameters: the double SHA-256 \<open>H\<close>, the name prefix of an RGB chain network and the
  constructor of a witness position (both of \<open>rgbstd\<close>).
\<close>

definition SPV_MAX_TIP_AGE_SECS :: u64 where "SPV_MAX_TIP_AGE_SECS = 2 * 60 * 60"
definition SPV_MAX_TIP_FUTURE_SECS :: u64 where "SPV_MAX_TIP_FUTURE_SECS = 2 * 60 * 60"

record merkle_proof_entry =
  mp_txid :: bytes
  mp_block_height :: u32
  mp_tx_position :: u32
  mp_merkle_path :: "bytes list"

subsection \<open>Freshness\<close>

definition assert_chain_not_stale ::
  "header_chain \<Rightarrow> system_time \<Rightarrow> u64 \<Rightarrow> u64 \<Rightarrow> unit enclave_result" where
  "assert_chain_not_stale c now max_age max_future =
    and_then (ok_or (unix_secs now) (Internal ''system clock is before UNIX_EPOCH'')) (\<lambda>now_unix.
    let tip = ucast (tip_time c) :: u64 in
    case checked_sub tip now_unix of
      Some future_skew \<Rightarrow>
        (if max_future < future_skew then Inl (Spv ''chain tip is in the future'') else Inr ())
    | None \<Rightarrow>
        (let age = saturating_sub now_unix tip in
         if max_age < age then Inl (Spv ''chain tip is too stale'') else Inr ()))"

definition assert_chain_fresh :: "header_chain \<Rightarrow> system_time \<Rightarrow> unit enclave_result" where
  "assert_chain_fresh c now =
    assert_chain_not_stale c now SPV_MAX_TIP_AGE_SECS SPV_MAX_TIP_FUTURE_SECS"

definition assert_chain_ready :: "header_chain \<Rightarrow> system_time \<Rightarrow> u32 \<Rightarrow> unit enclave_result" where
  "assert_chain_ready c now min_confirmations =
    and_then (assert_chain_fresh c now) (\<lambda>_.
    let depth = confirmations c (cp_height (hc_checkpoint c) + 1) min_confirmations in
    if depth < min_confirmations then Inl (Spv ''chain too short above the checkpoint'')
    else Inr ())"

definition assert_chain_net ::
  "(chain_net \<Rightarrow> string) \<Rightarrow> string \<Rightarrow> btc_network \<Rightarrow> unit enclave_result" where
  "assert_chain_net prefix consignment_chain_net enclave_network =
    require (consignment_chain_net = prefix (network_chain_net enclave_network))
      (Spv ''consignment chain_net does not match enclave network'')"

subsection \<open>Proofs\<close>

definition proof_txid :: "nat \<Rightarrow> merkle_proof_entry \<Rightarrow> bytes enclave_result" where
  "proof_txid index p =
    and_then (require (length (mp_txid p) = 32) (Spv ''txid must be 32 bytes'')) (\<lambda>_.
    and_then (require (length (mp_merkle_path p) \<le> MAX_MERKLE_PATH_DEPTH)
      (Spv ''merkle_path too deep'')) (\<lambda>_.
    Inr (mp_txid p)))"

fun spv_merkle_error :: "merkle_error \<Rightarrow> enclave_error" where
  "spv_merkle_error (RootMismatch computed expected) = Spv ''computed root does not match header root''"
| "spv_merkle_error (BadSiblingLength j len) = Spv ''merkle_path has wrong length''"
| "spv_merkle_error (PositionOutOfRange position depth) = Spv ''tx_position is out of reach''"
| "spv_merkle_error (TransactionShapedNode level) = Spv ''merkle node is a 64-byte transaction''"

definition verify_one_proof ::
  "(bytes \<Rightarrow> bytes) \<Rightarrow> header_chain \<Rightarrow> u32 \<Rightarrow> nat \<Rightarrow> merkle_proof_entry \<Rightarrow> unit enclave_result" where
  "verify_one_proof H c min_confirmations index p =
    and_then (ok_or (header_at c (mp_block_height p)) (Spv ''no header at height'')) (\<lambda>header.
    let confs = confirmations c (mp_block_height p) min_confirmations in
    and_then (require (min_confirmations \<le> confs) (Spv ''insufficient confirmations'')) (\<lambda>_.
    and_then (require (length (mp_txid p) = 32) (Spv ''txid must be 32 bytes'')) (\<lambda>_.
    and_then (collect_map (\<lambda>sib. and_then
        (require (length sib = 32) (Spv ''merkle_path sibling must be 32 bytes''))
        (\<lambda>_. Inr (rev sib))) (mp_merkle_path p)) (\<lambda>path_internal.
    map_err spv_merkle_error (verify_merkle_proof H (rev (mp_txid p)) (mp_tx_position p)
      path_internal (merkle_root header))))))"

text \<open>The coverage loop: the set of the ids proved so far, as the list of its insertions.\<close>

fun cover_proofs ::
  "bytes list \<Rightarrow> nat \<Rightarrow> merkle_proof_entry list \<Rightarrow> bytes list \<Rightarrow> bytes list enclave_result" where
  "cover_proofs expected_set i [] proof_set = Inr proof_set"
| "cover_proofs expected_set i (p # ps) proof_set =
    and_then (proof_txid i p) (\<lambda>txid.
    and_then (require (txid \<notin> set proof_set) (Spv ''duplicate merkle proof'')) (\<lambda>_.
    and_then (require (txid \<in> set expected_set)
      (Spv ''merkle proof does not match any consignment witness txid'')) (\<lambda>_.
    cover_proofs expected_set (Suc i) ps (txid # proof_set))))"

fun verify_all ::
  "(bytes \<Rightarrow> bytes) \<Rightarrow> header_chain \<Rightarrow> u32 \<Rightarrow> nat \<Rightarrow> merkle_proof_entry list \<Rightarrow> unit enclave_result" where
  "verify_all H c min_confirmations i [] = Inr ()"
| "verify_all H c min_confirmations i (p # ps) =
    and_then (verify_one_proof H c min_confirmations i p) (\<lambda>_.
      verify_all H c min_confirmations (Suc i) ps)"

definition validate_spv_proofs ::
  "(bytes \<Rightarrow> bytes) \<Rightarrow> header_chain \<Rightarrow> bytes list \<Rightarrow> merkle_proof_entry list \<Rightarrow> u32
    \<Rightarrow> unit enclave_result" where
  "validate_spv_proofs H c expected_txids proofs min_confirmations =
    (let expected_set = remdups expected_txids in
     and_then (cover_proofs expected_set 0 proofs []) (\<lambda>proof_set.
     and_then (require (length proof_set = length expected_set)
       (Spv ''missing merkle proofs'')) (\<lambda>_.
     verify_all H c min_confirmations 0 proofs)))"

text \<open>\<open>witness_pos height time\<close> is \<open>WitnessPos::bitcoin\<close>; a zero height has no \<open>NonZeroU32\<close>.
  The result is the map from the id in internal byte order, in insertion order.\<close>

fun proven_witnesses ::
  "(bytes \<Rightarrow> bytes) \<Rightarrow> (u32 \<Rightarrow> u32 \<Rightarrow> 'p option) \<Rightarrow> header_chain \<Rightarrow> u32 \<Rightarrow> nat
    \<Rightarrow> merkle_proof_entry list \<Rightarrow> (bytes \<times> 'p) list \<Rightarrow> (bytes \<times> 'p) list enclave_result" where
  "proven_witnesses H witness_pos c min_confirmations i [] proven = Inr proven"
| "proven_witnesses H witness_pos c min_confirmations i (p # ps) proven =
    and_then (proof_txid i p) (\<lambda>txid.
    and_then (verify_one_proof H c min_confirmations i p) (\<lambda>_.
    and_then (ok_or
        (case header_at c (mp_block_height p) of
           None \<Rightarrow> None
         | Some header \<Rightarrow> (if mp_block_height p = 0 then None
                          else witness_pos (mp_block_height p) (hdr_time header)))
        (Spv ''block has no valid witness position'')) (\<lambda>pos.
    and_then (require (map_of proven (rev txid) = None) (Spv ''duplicate merkle proof'')) (\<lambda>_.
    proven_witnesses H witness_pos c min_confirmations (Suc i) ps (proven @ [(rev txid, pos)])))))"

subsection \<open>Pins\<close>

record pin =
  pin_hash :: bytes
  pin_depth :: u32

type_synonym chain_pins = "(u32 \<times> pin) list"

definition pin_block :: "chain_pins \<Rightarrow> header_chain \<Rightarrow> u32 \<Rightarrow> u32 \<Rightarrow> chain_pins enclave_result" where
  "pin_block pins c height depth =
    and_then (ok_or (hash_at c height) (Spv ''chain pin: no header at height'')) (\<lambda>hash.
    case map_of pins height of
      None \<Rightarrow> Inr (insort_key fst (height, \<lparr>pin_hash = hash, pin_depth = depth\<rparr>) pins)
    | Some p \<Rightarrow>
        (if pin_hash p \<noteq> hash then Inl (Spv ''chain pin: header chain changed between two checks'')
         else Inr (AList.update height (p\<lparr>pin_depth := max (pin_depth p) depth\<rparr>) pins)))"

definition pin_unchanged :: "header_chain \<Rightarrow> u32 \<times> pin \<Rightarrow> unit enclave_result" where
  "pin_unchanged c = (\<lambda>(height, p).
    and_then (case hash_at c height of
        Some current \<Rightarrow> require (current = pin_hash p) (Spv ''chain reorg: replaced block'')
      | None \<Rightarrow> Inl (Spv ''chain reorg: no header'')) (\<lambda>_.
    let depth = tip_height c - height + 1 in
    require (pin_depth p \<le> depth) (Spv ''chain reorg: fewer confirmations'')))"

definition assert_unchanged :: "chain_pins \<Rightarrow> header_chain \<Rightarrow> unit enclave_result" where
  "assert_unchanged pins c = for_each (pin_unchanged c) pins"

fun pin_all ::
  "header_chain \<Rightarrow> u32 \<Rightarrow> merkle_proof_entry list \<Rightarrow> chain_pins \<Rightarrow> chain_pins enclave_result" where
  "pin_all c min_confirmations [] pins = Inr pins"
| "pin_all c min_confirmations (p # ps) pins =
    and_then (pin_block pins c (mp_block_height p) min_confirmations)
      (pin_all c min_confirmations ps)"

text \<open>The consignment is its chain network name and its witness ids; \<^const>\<open>None\<close> is a request
  without a validated consignment.\<close>

definition validate_source_chain ::
  "(bytes \<Rightarrow> bytes) \<Rightarrow> (chain_net \<Rightarrow> string) \<Rightarrow> header_chain \<Rightarrow> (string \<times> bytes list) option
    \<Rightarrow> merkle_proof_entry list \<Rightarrow> system_time \<Rightarrow> chain_pins \<Rightarrow> u32 \<Rightarrow> chain_pins enclave_result" where
  "validate_source_chain H prefix c validated_consignment merkle_proofs now pins min_confirmations =
    and_then (ok_or validated_consignment (Spv ''RGB source requires a validated consignment''))
      (\<lambda>(chain_net, witness_txids).
    and_then (assert_chain_fresh c now) (\<lambda>_.
    and_then (assert_chain_net prefix chain_net (hc_network c)) (\<lambda>_.
    and_then (validate_spv_proofs H c witness_txids merkle_proofs min_confirmations) (\<lambda>_.
    pin_all c min_confirmations merkle_proofs pins))))"

subsection \<open>What the proof checks establish\<close>

lemma proof_txid_Inr [result_simps]:
  "proof_txid i p = Inr t \<longleftrightarrow> length (mp_txid p) = 32 \<and> length (mp_merkle_path p) \<le> 32 \<and> t = mp_txid p"
  by (auto simp: proof_txid_def and_then_Inr MAX_MERKLE_PATH_DEPTH_def)

lemma reverse_path_Inr:
  "collect_map (\<lambda>sib. and_then (require (length sib = 32) e) (\<lambda>_. Inr (rev sib))) path = Inr ys
    \<longleftrightarrow> (\<forall>sib\<in>set path. length sib = 32) \<and> ys = map rev path"
  by (induction path arbitrary: ys) (auto simp: and_then_Inr)

lemma verify_one_proof_Inr:
  "verify_one_proof H c mc i p = Inr u \<longleftrightarrow>
    (\<exists>header. header_at c (mp_block_height p) = Some header \<and>
       mc \<le> confirmations c (mp_block_height p) mc \<and> length (mp_txid p) = 32 \<and>
       (\<forall>sib\<in>set (mp_merkle_path p). length sib = 32) \<and>
       verify_merkle_proof H (rev (mp_txid p)) (mp_tx_position p) (map rev (mp_merkle_path p))
         (merkle_root header) = Inr ())"
  unfolding verify_one_proof_def Let_def and_then_Inr reverse_path_Inr by auto

lemma cover_proofs_Inr:
  "cover_proofs ex i ps acc = Inr acc' \<longleftrightarrow>
    (\<forall>p\<in>set ps. length (mp_txid p) = 32 \<and> length (mp_merkle_path p) \<le> 32 \<and> mp_txid p \<in> set ex) \<and>
    distinct (map mp_txid ps) \<and> set (map mp_txid ps) \<inter> set acc = {} \<and>
    acc' = rev (map mp_txid ps) @ acc"
proof (induction ps arbitrary: i acc)
  case (Cons p ps)
  show ?case
    unfolding cover_proofs.simps and_then_Inr proof_txid_Inr require_Inr Cons.IH by auto
qed auto

lemma verify_all_Inr:
  "verify_all H c mc i ps = Inr u \<longleftrightarrow> (\<forall>p\<in>set ps. \<exists>j. verify_one_proof H c mc j p = Inr ())"
  by (induction ps arbitrary: i) (auto simp: and_then_Inr verify_one_proof_Inr)

lemma validate_spv_proofs_Inr:
  "validate_spv_proofs H c txids ps mc = Inr u \<longleftrightarrow>
    set (map mp_txid ps) = set txids \<and> distinct (map mp_txid ps) \<and>
    (\<forall>p\<in>set ps. length (mp_merkle_path p) \<le> 32 \<and> verify_one_proof H c mc 0 p = Inr ())"
proof -
  have cover: "set (map mp_txid ps) = set txids"
    if "set (map mp_txid ps) \<subseteq> set txids" "distinct (map mp_txid ps)"
      "length ps = length (remdups txids)"
  proof (rule card_subset_eq)
    show "card (set (map mp_txid ps)) = card (set txids)"
      using that(2,3) distinct_card [of "map mp_txid ps"] by (simp add: length_remdups_card_conv)
  qed (use that in auto)
  have len: "length ps = length (remdups txids)"
    if "set (map mp_txid ps) = set txids" "distinct (map mp_txid ps)"
    using that distinct_card [of "map mp_txid ps"] by (simp add: length_remdups_card_conv)
  show ?thesis
    unfolding validate_spv_proofs_def Let_def and_then_Inr cover_proofs_Inr verify_all_Inr
    using cover len by (auto simp: verify_one_proof_Inr)
qed

subsection \<open>Pins over a block index\<close>

text \<open>What the pins rely on of the header chain: a block with a hash is not above the tip, and
  the tip leaves room for the depth to be counted.\<close>

locale block_index =
  fixes wf :: "'c \<Rightarrow> bool"
    and header_of :: "'c \<Rightarrow> u32 \<Rightarrow> 'h option"
    and hash_of :: "'c \<Rightarrow> u32 \<Rightarrow> bytes option"
    and tip_of :: "'c \<Rightarrow> u32"
  assumes hash_le_tip: "wf c \<Longrightarrow> hash_of c h = Some x \<Longrightarrow> h \<le> tip_of c"
    and header_has_hash: "wf c \<Longrightarrow> header_of c h = Some hdr \<Longrightarrow> \<exists>x. hash_of c h = Some x"
    and tip_bound: "wf c \<Longrightarrow> unat (tip_of c) + 1 < 2 ^ 32"
begin

definition pin_holds :: "'c \<Rightarrow> u32 \<times> pin \<Rightarrow> bool" where
  "pin_holds c = (\<lambda>(h, p). hash_of c h = Some (pin_hash p) \<and> pin_depth p \<le> tip_of c - h + 1)"

lemma depth_nat:
  assumes "wf c" "hash_of c h = Some x"
  shows "unat (tip_of c - h + 1) = unat (tip_of c) - unat h + 1"
proof -
  have "h \<le> tip_of c" using assms by (rule hash_le_tip)
  then have "unat (tip_of c - h) = unat (tip_of c) - unat h" by (rule unat_sub)
  then show ?thesis
    using tip_bound [OF assms(1)] by (simp add: unat_word_ariths)
qed

lemma pin_holds_nat:
  assumes "wf c"
  shows "pin_holds c (h, p) \<longleftrightarrow>
    hash_of c h = Some (pin_hash p) \<and> unat (pin_depth p) \<le> unat (tip_of c) - unat h + 1"
  using depth_nat [OF assms] by (auto simp: pin_holds_def word_le_nat_alt)

lemma pin_survives_extension:
  assumes "wf c" "wf c'" "pin_holds c x" "tip_of c \<le> tip_of c'"
    and "\<And>h. h \<le> tip_of c \<Longrightarrow> hash_of c' h = hash_of c h"
  shows "pin_holds c' x"
proof -
  obtain h p where x: "x = (h, p)" by fastforce
  have h: "hash_of c h = Some (pin_hash p)" "unat (pin_depth p) \<le> unat (tip_of c) - unat h + 1"
    using assms(1,3) unfolding x pin_holds_nat [OF assms(1)] by auto
  then have "hash_of c' h = Some (pin_hash p)"
    using assms(5) hash_le_tip [OF assms(1)] by metis
  moreover have "unat (pin_depth p) \<le> unat (tip_of c') - unat h + 1"
    using h(2) assms(4) by (simp add: word_le_nat_alt)
  ultimately show ?thesis
    unfolding x pin_holds_nat [OF assms(2)] by simp
qed

end

definition chain_wf :: "header_chain \<Rightarrow> bool" where
  "chain_wf c \<longleftrightarrow> chain_bounds c \<and> length (hc_hashes c) = length (hc_headers c)"

lemma chain_inv_wf: "chain_inv lib c \<Longrightarrow> chain_wf c"
  by (simp add: chain_inv_def chain_wf_def)

interpretation hci: block_index chain_wf header_at hash_at tip_height
proof unfold_locales
  fix c h x
  assume "chain_wf c" "hash_at c h = Some x"
  then show "h \<le> tip_height c"
    by (auto simp: chain_wf_def hash_at_nat word_le_nat_alt unat_tip_height split: if_splits)
next
  fix c h hdr
  assume "chain_wf c" "header_at c h = Some hdr"
  then show "\<exists>x. hash_at c h = Some x"
    by (auto simp: chain_wf_def hash_at_nat header_at_nat split: if_splits)
next
  fix c
  assume "chain_wf c"
  then show "unat (tip_height c) + 1 < 2 ^ 32"
    by (auto simp: chain_wf_def chain_bounds_def unat_tip_height)
qed

lemma assert_unchanged_Inr:
  "assert_unchanged pins c = Inr u \<longleftrightarrow> (\<forall>x\<in>set pins. hci.pin_holds c x)"
  by (auto simp: assert_unchanged_def for_each_Inr pin_unchanged_def hci.pin_holds_def Let_def
      and_then_Inr split: option.splits)

lemma submit_extends:
  assumes inv: "chain_inv lib c" and sub: "submit_headers lib c start raws now = (Inr out, c')"
    and d: "out_reorg_depth out = 0"
  shows "tip_height c \<le> tip_height c'" "h \<le> tip_height c \<Longrightarrow> hash_at c' h = hash_at c h"
proof -
  have b: "chain_bounds c" "chain_bounds c'"
    using inv submit_headers_inv [OF inv sub] by (simp_all add: chain_inv_def)
  have "tip_height c \<le> tip_height c' \<and> (h \<le> tip_height c \<longrightarrow> hash_at c' h = hash_at c h)"
  proof (cases "raws = []")
    case True
    with sub have "c' = c" using submit_headers_empty by blast
    then show ?thesis by simp
  next
    case False
    obtain new where acc: "accepts lib c start raws now new"
      and c': "c' = with_batch lib c (kept c start) new"
      using accepted_batch [OF inv sub False] .
    have k: "kept c start = length (hc_headers c)" "base c < unat start"
      using submit_reorg_depth [OF inv sub] d False acc by (auto simp: accepts_def Let_def)
    then have "unat start = base c + length (hc_headers c) + 1"
      by (auto simp: kept_def)
    then have "h < start" if "h \<le> tip_height c"
      using that by (simp add: word_le_nat_alt word_less_nat_alt unat_tip_height [OF b(1)])
    moreover have "unat (tip_height c') = base c + length (hc_headers c) + length new"
      using unat_tip_height [OF b(2)] k(1) by (simp add: c')
    ultimately show ?thesis
      using submit_reads_below(1) [OF inv sub] unat_tip_height [OF b(1)]
      by (auto simp: word_le_nat_alt)
  qed
  then show "tip_height c \<le> tip_height c'" "h \<le> tip_height c \<Longrightarrow> hash_at c' h = hash_at c h" by auto
qed

subsection \<open>Recording pins\<close>

definition pins_ok :: "chain_pins \<Rightarrow> bool" where
  "pins_ok pins \<longleftrightarrow> distinct (map fst pins)"

definition pinned :: "chain_pins \<Rightarrow> u32 \<Rightarrow> bytes \<Rightarrow> u32 \<Rightarrow> bool" where
  "pinned pins h hash d \<longleftrightarrow> (\<exists>p. map_of pins h = Some p \<and> pin_hash p = hash \<and> d \<le> pin_depth p)"

lemma keys_insort_key: "fst ` set (insort_key fst x xs) = insert (fst x) (fst ` set xs)"
  by (auto simp: set_insort_key)

lemma distinct_insort_fst:
  "distinct (map fst xs) \<Longrightarrow> fst x \<notin> fst ` set xs \<Longrightarrow> distinct (map fst (insort_key fst x xs))"
  for xs :: "('k::linorder \<times> 'v) list"
  by (induction xs) (auto simp: set_insort_key)

lemma map_of_insort_fst:
  "fst x \<notin> fst ` set xs \<Longrightarrow> map_of (insort_key fst x xs) = (map_of xs)(fst x \<mapsto> snd x)"
  for xs :: "('k::linorder \<times> 'v) list"
  by (induction xs) (auto simp: fun_eq_iff)

lemma pin_block_ok:
  assumes "pins_ok pins" "pin_block pins c h d = Inr pins'"
  shows "pins_ok pins'" "\<exists>x. hash_at c h = Some x \<and> pinned pins' h x d"
    "pinned pins h' x' d' \<Longrightarrow> pinned pins' h' x' d'"
proof -
  obtain hash where hash: "hash_at c h = Some hash"
    using assms(2) by (auto simp: pin_block_def and_then_Inr)
  have "pins_ok pins' \<and> pinned pins' h hash d \<and> (pinned pins h' x' d' \<longrightarrow> pinned pins' h' x' d')"
  proof (cases "map_of pins h")
    case None
    then have fresh: "h \<notin> fst ` set pins" by (simp add: map_of_eq_None_iff)
    have pins': "pins' = insort_key fst (h, \<lparr>pin_hash = hash, pin_depth = d\<rparr>) pins"
      using assms(2) hash None by (simp add: pin_block_def)
    show ?thesis
      using assms(1) fresh None unfolding pins'
      by (auto simp: pins_ok_def pinned_def distinct_insort_fst map_of_insort_fst)
  next
    case (Some p)
    then have p: "pin_hash p = hash"
      "pins' = AList.update h (p\<lparr>pin_depth := max (pin_depth p) d\<rparr>) pins"
      using assms(2) hash by (auto simp: pin_block_def split: if_splits)
    show ?thesis
      using assms(1) Some p
      by (auto simp: pins_ok_def pinned_def update_conv distinct_update max.coboundedI1
          simp del: map_of_eq_Some_iff)
  qed
  with hash show "pins_ok pins'" "\<exists>x. hash_at c h = Some x \<and> pinned pins' h x d"
    "pinned pins h' x' d' \<Longrightarrow> pinned pins' h' x' d'" by auto
qed

lemma pin_all_ok:
  "pins_ok pins \<Longrightarrow> pin_all c mc ps pins = Inr pins' \<Longrightarrow>
   pins_ok pins' \<and> (\<forall>h x d. pinned pins h x d \<longrightarrow> pinned pins' h x d) \<and>
   (\<forall>p\<in>set ps. \<exists>x. hash_at c (mp_block_height p) = Some x \<and> pinned pins' (mp_block_height p) x mc)"
proof (induction ps arbitrary: pins)
  case (Cons p ps)
  obtain pins1 where p1: "pin_block pins c (mp_block_height p) mc = Inr pins1"
    and rest: "pin_all c mc ps pins1 = Inr pins'"
    using Cons.prems(2) by (auto simp: and_then_Inr)
  note one = pin_block_ok [OF Cons.prems(1) p1]
  from Cons.IH [OF one(1) rest] one show ?case by (simp, blast)
qed simp

lemma pinned_unchanged:
  assumes "chain_wf c" "assert_unchanged pins c = Inr u" "pinned pins h x d"
  shows "hash_at c h = Some x \<and> unat d \<le> unat (tip_height c) - unat h + 1"
proof -
  obtain p where p: "(h, p) \<in> set pins" "pin_hash p = x" "d \<le> pin_depth p"
    using assms(3) by (auto simp: pinned_def dest: map_of_SomeD)
  then have "hci.pin_holds c (h, p)"
    using assms(2) unfolding assert_unchanged_Inr by blast
  then show ?thesis
    using p(2,3) unfolding hci.pin_holds_nat [OF assms(1)]
    by (auto simp: word_le_nat_alt)
qed

lemma validate_source_chain_Inr:
  "validate_source_chain H prefix c vc ps now pins mc = Inr pins' \<longleftrightarrow>
    (\<exists>net txids. vc = Some (net, txids) \<and> assert_chain_fresh c now = Inr () \<and>
      net = prefix (network_chain_net (hc_network c)) \<and>
      validate_spv_proofs H c txids ps mc = Inr () \<and> pin_all c mc ps pins = Inr pins')"
  by (auto simp: validate_source_chain_def and_then_Inr assert_chain_net_def)

lemma assert_chain_fresh_Inr:
  "assert_chain_fresh c now = Inr u \<longleftrightarrow>
    (\<exists>s. unix_secs now = Some s \<and> unat (tip_time c) \<le> unat s + 7200 \<and> unat s \<le> unat (tip_time c) + 7200)"
proof -
  have cast: "unat (ucast (tip_time c) :: u64) = unat (tip_time c)" by simp
  show ?thesis
  proof (cases "unix_secs now")
    case (Some s)
    then show ?thesis
      unfolding assert_chain_fresh_def assert_chain_not_stale_def Let_def checked_sub_def
      by (auto simp: word_less_nat_alt word_le_nat_alt unat_sub unat_saturating_sub cast
          SPV_MAX_TIP_AGE_SECS_def SPV_MAX_TIP_FUTURE_SECS_def)
  qed (simp add: assert_chain_fresh_def assert_chain_not_stale_def)
qed

subsection \<open>Header-sync requests\<close>

fun spv_error_text :: "spv_error \<Rightarrow> string" where
  "spv_error_text (HeaderParse _) = ''header parse failed''"
| "spv_error_text (ChainLinkage _) = ''chain linkage broken''"
| "spv_error_text (PowFailed _) = ''header fails PoW''"
| "spv_error_text (BitsMismatch _ _ _) = ''nBits mismatch''"
| "spv_error_text (NonContiguous _ _) = ''batch leaves a gap above tip''"
| "spv_error_text (BelowCheckpoint _ _) = ''batch at or below checkpoint''"
| "spv_error_text (ReorgTooDeep _ _) = ''reorg depth exceeds maximum''"
| "spv_error_text WeakerChain = ''alternative chain has weaker or equal work''"
| "spv_error_text (BatchTooLarge _ _) = ''submitted batch too large''"
| "spv_error_text (ChainTooLong _ _) = ''total-retention cap exceeded''"
| "spv_error_text (Timewarp _ _ _) = ''BIP94 timewarp rule''"
| "spv_error_text (TimeTooNew _ _ _) = ''header time too new''"
| "spv_error_text (TimeTooOld _ _ _) = ''header time too old''"
| "spv_error_text (HeaderNotFound _) = ''no header at height''"
| "spv_error_text CheckpointPlaceholder = ''checkpoint placeholder''"

definition spv_to_enclave :: "spv_error \<Rightarrow> enclave_error" where
  "spv_to_enclave e = Spv (spv_error_text e)"

record spv_server =
  sv_rate_limiter :: submit_rate_limiter
  sv_header_chain :: header_chain

definition handle_submit_headers ::
  "btc_lib \<Rightarrow> spv_server \<Rightarrow> u32 \<Rightarrow> bytes list \<Rightarrow> system_time
    \<Rightarrow> (u32 \<times> bytes \<times> u32) enclave_result \<times> spv_server" where
  "handle_submit_headers lib sv start_height headers now =
    (let (r, limiter) = rate_check (sv_rate_limiter sv) (of_nat (length headers)) now;
         sv1 = sv\<lparr>sv_rate_limiter := limiter\<rparr>
     in case and_then r (\<lambda>_. ok_or (unix_secs now) (Internal ''system clock is before UNIX_EPOCH'')) of
          Inl e \<Rightarrow> (Inl e, sv1)
        | Inr now_unix \<Rightarrow>
            (let (r1, chain) = submit_headers lib (sv_header_chain sv1) start_height headers now_unix
             in (and_then (map_err spv_to_enclave r1) (\<lambda>out.
                   Inr (last_block_height out, last_block_hash out, headers_accepted out)),
                 sv1\<lparr>sv_header_chain := chain\<rparr>)))"

definition handle_get_last_saved_block :: "spv_server \<Rightarrow> (u32 \<times> bytes) enclave_result" where
  "handle_get_last_saved_block sv =
    Inr (tip_height (sv_header_chain sv), tip_hash (sv_header_chain sv))"

lemma tip_hash_at:
  assumes "chain_inv lib c"
  shows "hash_at c (tip_height c) = Some (tip_hash c)"
proof -
  have "chain_bounds c" "length (hc_hashes c) = length (hc_headers c)"
    "hc_base_hash c = cp_hash (hc_checkpoint c)"
    using assms by (simp_all add: chain_inv_def)
  then show ?thesis
    by (auto simp: hash_at_nat unat_tip_height tip_hash_def nth_opt_def last_conv_nth)
qed

subsection \<open>Properties\<close>

definition demo_proof :: merkle_proof_entry where
  "demo_proof = \<lparr>mp_txid = replicate 32 1, mp_block_height = 1, mp_tx_position = 0,
     mp_merkle_path = []\<rparr>"

lemma demo_reachable2: "chain_reachable demo_lib Regtest demo_chain2"
  using demo_reachable1 demo_reorg by (rule chain_submit)

lemmas spv_eval = demo_defs demo_proof_def submit_defs validate_source_chain_def
  validate_spv_proofs_def verify_one_proof_def confirmations_def verify_merkle_proof_def
  proof_txid_def pin_block_def assert_chain_fresh_def assert_chain_not_stale_def tip_time_def
  unix_secs_def assert_chain_net_def MAX_MERKLE_PATH_DEPTH_def SPV_MAX_TIP_AGE_SECS_def
  SPV_MAX_TIP_FUTURE_SECS_def

lemma demo_source_chain:
  "validate_source_chain demo_hash (\<lambda>_. ''bcrt'') demo_chain1 (Some (''bcrt'', [replicate 32 1]))
     [demo_proof] 1296688700000000000 [] 2 =
   Inr [(1, \<lparr>pin_hash = [1], pin_depth = 2\<rparr>)]"
  by (simp add: spv_eval)

lemma demo_unchanged: "assert_unchanged [(1, \<lparr>pin_hash = [1], pin_depth = 2\<rparr>)] demo_chain2 = Inr ()"
  by (simp add: spv_eval assert_unchanged_def pin_unchanged_def)

text \<open>C8: when the source-chain check of a release passed on one header chain and the pins it
  recorded still hold on the chain at signing time, then exactly the witness ids of the
  consignment were proved, and each of them was proved by a Merkle path into the block at its
  height, whose hash is still the hash of the header at that height and which still has the
  required number of confirmations; the chain checked was fresh.\<close>

theorem signed_release_is_anchored:
  assumes "chain_reachable lib n c" "chain_reachable lib n c'"
    and "validate_source_chain H prefix c (Some (net, txids)) ps now [] mc = Inr pins"
    and "assert_unchanged pins c' = Inr ()"
  shows "set (map mp_txid ps) = set txids \<and> assert_chain_fresh c now = Inr () \<and>
    (\<forall>p\<in>set ps. \<exists>hdr hdr'.
       header_at c (mp_block_height p) = Some hdr \<and> header_at c' (mp_block_height p) = Some hdr' \<and>
       block_hash lib hdr' = block_hash lib hdr \<and>
       verify_merkle_proof H (rev (mp_txid p)) (mp_tx_position p) (map rev (mp_merkle_path p))
         (merkle_root hdr) = Inr () \<and>
       unat mc \<le> unat (tip_height c') - unat (mp_block_height p) + 1)"
proof -
  have inv: "chain_inv lib c" "chain_inv lib c'" "base c' = base c"
    using chain_reachable_inv [OF assms(1)] chain_reachable_inv [OF assms(2)] by simp_all
  have v: "validate_spv_proofs H c txids ps mc = Inr ()" "assert_chain_fresh c now = Inr ()"
    "pin_all c mc ps [] = Inr pins"
    using assms(3) unfolding validate_source_chain_Inr by auto
  have "pins_ok []" by (simp add: pins_ok_def)
  note pins = pin_all_ok [OF this v(3)]
  have "\<exists>hdr hdr'. header_at c (mp_block_height p) = Some hdr \<and>
      header_at c' (mp_block_height p) = Some hdr' \<and> block_hash lib hdr' = block_hash lib hdr \<and>
      verify_merkle_proof H (rev (mp_txid p)) (mp_tx_position p) (map rev (mp_merkle_path p))
        (merkle_root hdr) = Inr () \<and>
      unat mc \<le> unat (tip_height c') - unat (mp_block_height p) + 1" if p: "p \<in> set ps" for p
  proof -
    let ?h = "mp_block_height p"
    obtain hdr where hdr: "header_at c ?h = Some hdr"
      "verify_merkle_proof H (rev (mp_txid p)) (mp_tx_position p) (map rev (mp_merkle_path p))
         (merkle_root hdr) = Inr ()"
      using v(1) p unfolding validate_spv_proofs_Inr verify_one_proof_Inr by blast
    obtain x where x: "hash_at c ?h = Some x" "pinned pins ?h x mc"
      using pins p by blast
    have now': "hash_at c' ?h = Some x" "unat mc \<le> unat (tip_height c') - unat ?h + 1"
      using pinned_unchanged [OF chain_inv_wf [OF inv(2)] assms(4) x(2)] by auto
    have "base c < unat ?h" using hdr(1) by (auto simp: header_at_nat split: if_splits)
    then obtain hdr' where hdr': "header_at c' ?h = Some hdr'"
      using now'(1) inv(2,3) by (auto simp: hash_at_nat header_at_nat chain_inv_def split: if_splits)
    have "block_hash lib hdr' = block_hash lib hdr"
      using hash_at_header_at [OF inv(1) hdr(1)] hash_at_header_at [OF inv(2) hdr'] x(1) now'(1) by simp
    with hdr hdr' now'(2) show ?thesis by blast
  qed
  with v show ?thesis unfolding validate_spv_proofs_Inr by blast
qed

theorem signed_release_is_anchored_witness:
  "unat (2 :: u32) \<le> unat (tip_height demo_chain2) - unat (mp_block_height demo_proof) + 1"
  using signed_release_is_anchored [OF demo_reachable1 demo_reachable2 demo_source_chain demo_unchanged]
  by auto

text \<open>Pins that hold on a chain still hold after a submission that only extends it, so header
  sync during a request does not block its signature.\<close>

lemma pins_survive_extension:
  assumes "chain_reachable lib n c" "assert_unchanged pins c = Inr ()"
    and "submit_headers lib c start raws now = (Inr out, c')" "out_reorg_depth out = 0"
  shows "assert_unchanged pins c' = Inr ()"
proof -
  have inv: "chain_inv lib c" "chain_inv lib c'"
    using chain_reachable_inv [OF assms(1)] submit_headers_inv assms(3) by blast+
  have "hci.pin_holds c' x" if "hci.pin_holds c x" for x
    using hci.pin_survives_extension [OF chain_inv_wf [OF inv(1)] chain_inv_wf [OF inv(2)] that]
      submit_extends [OF inv(1) assms(3,4)] by blast
  with assms(2) show ?thesis unfolding assert_unchanged_Inr by blast
qed

text \<open>C34: the proofs of a release are accepted exactly when their ids are the witness ids of the
  consignment, each proved once, no path is longer than 32, and every proof has a stored header
  with the required confirmations and a valid Merkle path to its root.\<close>

theorem spv_proofs_exact:
  "validate_spv_proofs H c txids ps mc = Inr () \<longleftrightarrow>
    set (map mp_txid ps) = set txids \<and> distinct (map mp_txid ps) \<and>
    (\<forall>p\<in>set ps. length (mp_merkle_path p) \<le> 32 \<and> length (mp_txid p) = 32 \<and>
       (\<exists>header. header_at c (mp_block_height p) = Some header \<and>
          mc \<le> confirmations c (mp_block_height p) mc \<and>
          (\<forall>sib\<in>set (mp_merkle_path p). length sib = 32) \<and>
          verify_merkle_proof H (rev (mp_txid p)) (mp_tx_position p) (map rev (mp_merkle_path p))
            (merkle_root header) = Inr ()))"
  unfolding validate_spv_proofs_Inr verify_one_proof_Inr by blast

theorem spv_proofs_exact_witness:
  "set (map mp_txid [demo_proof]) = {replicate 32 1} \<and> distinct (map mp_txid [demo_proof])"
proof -
  have "validate_spv_proofs demo_hash demo_chain1 [replicate 32 1] [demo_proof] 2 = Inr ()"
    by (simp add: spv_eval)
  then show ?thesis unfolding spv_proofs_exact by simp
qed

end
