(* ===== verification/Server_Health.thy ===== *)
theory Server_Health
  imports Enclave_Phase Spv_Crosscheck
begin

text \<open>
  The readiness probe (\<open>enclave/src/server/health.rs\<close>). The build flags are a record: the
  \<open>spv\<close> feature selects one of the two bodies of \<open>spv_health\<close>, and \<open>rgb_to_evm\<close> decides
  whether the SPV result counts.
\<close>

record build_flags =
  feature_spv :: bool
  cfg_rgb_to_evm :: bool

definition spv_health ::
  "build_flags \<Rightarrow> header_chain \<Rightarrow> u32 \<Rightarrow> system_time \<Rightarrow> bool \<times> u32 \<times> u32 \<times> u32 \<times> u32" where
  "spv_health b chain spv_min_confirmations now =
    (if feature_spv b then
       (let synced = is_ok (assert_chain_ready chain now spv_min_confirmations);
            age = saturating_sub (case unix_secs now of Some s \<Rightarrow> s | None \<Rightarrow> 0)
                    (ucast (tip_time chain))
        in (synced, tip_height chain, tip_time chain,
            (if unat age < 2 ^ 32 then ucast age else - 1), ucast SPV_MAX_TIP_AGE_SECS))
     else (True, 0, 0, 0, 0))"

record health_response =
  hr_ready :: bool
  hr_key_loaded :: bool
  hr_spv_synced :: bool
  hr_phase :: string
  hr_spv_tip_height :: u32
  hr_spv_tip_time :: u32
  hr_spv_tip_age_secs :: u32
  hr_spv_max_tip_age_secs :: u32
  hr_endpoints_set :: bool

text \<open>\<open>launch\<close> is the \<open>OnceLock\<close> of the launch endpoints.\<close>

definition handle_health ::
  "build_flags \<Rightarrow> ('km, 'r) enclave_state \<Rightarrow> header_chain \<Rightarrow> 'l option \<Rightarrow> u32 \<Rightarrow> system_time
    \<Rightarrow> health_response enclave_result" where
  "handle_health b st chain launch spv_min_confirmations now =
    (let key_loaded = is_initialized st;
         (spv_synced, spv_tip_height, spv_tip_time, spv_tip_age_secs, spv_max_tip_age_secs) =
           spv_health b chain spv_min_confirmations now;
         endpoints_set = (launch \<noteq> None);
         ready = (endpoints_set \<and> key_loaded \<and> (spv_synced \<or> \<not> cfg_rgb_to_evm b))
     in Inr \<lparr>hr_ready = ready, hr_key_loaded = key_loaded, hr_spv_synced = spv_synced,
             hr_phase = phase_name (phase st), hr_spv_tip_height = spv_tip_height,
             hr_spv_tip_time = spv_tip_time, hr_spv_tip_age_secs = spv_tip_age_secs,
             hr_spv_max_tip_age_secs = spv_max_tip_age_secs, hr_endpoints_set = endpoints_set\<rparr>)"

lemma confirmations_above_checkpoint:
  assumes "chain_inv lib c"
  shows "unat (confirmations c (cp_height (hc_checkpoint c) + 1) cap) =
    min (length (hc_headers c)) (unat cap)"
proof -
  let ?h = "cp_height (hc_checkpoint c) + 1"
  have b: "chain_bounds c" using assms by (simp add: chain_inv_def)
  then have h: "unat ?h = base c + 1"
    using assms by (simp add: chain_bounds_def chain_inv_def base_def unat_word_ariths)
  show ?thesis
  proof (cases "hc_headers c")
    case Nil
    then have "header_at c ?h = None" using h by (simp add: header_at_nat)
    then show ?thesis using Nil by (simp add: confirmations_def)
  next
    case (Cons x xs)
    then have "header_at c ?h = Some x" using h by (simp add: header_at_nat)
    from confirmations_nat [OF assms this, of cap] show ?thesis using h Cons by simp
  qed
qed

lemma assert_chain_ready_Inr:
  assumes "chain_inv lib c"
  shows "assert_chain_ready c now mc = Inr u \<longleftrightarrow>
    assert_chain_fresh c now = Inr () \<and> unat mc \<le> length (hc_headers c)"
  using confirmations_above_checkpoint [OF assms, of mc]
  by (auto simp: assert_chain_ready_def and_then_Inr word_less_nat_alt Let_def split: if_splits)

text \<open>C37: on a build that releases burns, the probe answers ready exactly when the launch
  endpoints are set, keys are active, the clock is within two hours of the tip and the chain holds
  at least as many headers above its checkpoint as a proof must have confirmations: readiness is
  the chain precondition of signing and nothing weaker.\<close>

theorem health_ready_is_signing_precondition:
  assumes "chain_reachable lib n c" "feature_spv b" "cfg_rgb_to_evm b"
    and "handle_health b st c launch mc now = Inr r"
  shows "hr_ready r \<longleftrightarrow> launch \<noteq> None \<and> (\<exists>km. phase st = Active km) \<and>
    (\<exists>s. unix_secs now = Some s \<and> unat (tip_time c) \<le> unat s + 7200 \<and> unat s \<le> unat (tip_time c) + 7200) \<and>
    unat mc \<le> length (hc_headers c)"
proof -
  have "chain_inv lib c" using chain_reachable_inv [OF assms(1)] by simp
  note ready = assert_chain_ready_Inr [OF this, of now mc]
  have "hr_ready r \<longleftrightarrow> launch \<noteq> None \<and> is_initialized st \<and> is_ok (assert_chain_ready c now mc)"
    using assms(2-4) by (auto simp: handle_health_def spv_health_def Let_def)
  moreover have "is_initialized st \<longleftrightarrow> (\<exists>km. phase st = Active km)"
    by (simp add: is_initialized_def split: phase.split)
  ultimately show ?thesis
    unfolding is_ok_iff ready assert_chain_fresh_Inr by blast
qed

theorem health_ready_is_signing_precondition_witness:
  "\<exists>r. handle_health \<lparr>feature_spv = True, cfg_rgb_to_evm = True\<rparr>
      ((enclave_state_new 1 2 :: (unit, unit) enclave_state)\<lparr>phase := Active ()\<rparr>)
      demo_chain1 (Some ()) 2 1296688700000000000 = Inr r \<and> hr_ready r"
proof -
  let ?b = "\<lparr>feature_spv = True, cfg_rgb_to_evm = True\<rparr>"
  let ?st = "(enclave_state_new 1 2 :: (unit, unit) enclave_state)\<lparr>phase := Active ()\<rparr>"
  obtain r where r: "handle_health ?b ?st demo_chain1 (Some ()) 2 1296688700000000000 = Inr r"
    by (simp add: handle_health_def split_def Let_def)
  have "hr_ready r"
    using health_ready_is_signing_precondition [OF demo_reachable1 _ _ r]
    by (simp add: demo_defs tip_time_def unix_secs_def)
  with r show ?thesis by blast
qed

end
