(* ===== verification/Rust_Text.thy ===== *)
theory Rust_Text
  imports Signer_Prelude
begin

text \<open>
  Text of the standard library. A Rust string is the list of its UTF-8 bytes, written as
  characters (a \<open>char\<close> of HOL is one byte), so that its \<open>len\<close> is the length of the list.
  The functions are the ones the program calls: UTF-8 validation, \<open>trim\<close> (of ASCII white
  space: the trimmed values are environment variables and decimal numbers), \<open>split\<close>,
  \<open>strip_prefix\<close>, \<open>rsplit_once\<close> and \<open>parse\<close> to an unsigned integer.
\<close>

subsection \<open>Bytes of a string\<close>

definition byte_of_char :: "char \<Rightarrow> u8" where
  "byte_of_char c = of_nat (of_char c)"

definition char_of_byte :: "u8 \<Rightarrow> char" where
  "char_of_byte b = char_of (unat b)"

definition as_str_bytes :: "string \<Rightarrow> bytes" where
  "as_str_bytes s = map byte_of_char s"

lemma char_of_byte_of_char [simp]: "char_of_byte (byte_of_char c) = c"
  by (simp add: char_of_byte_def byte_of_char_def)

lemma byte_of_char_of_byte [simp]: "byte_of_char (char_of_byte b) = b"
proof -
  have "unat b mod 256 = unat b" using unat_byte_lt [of b] by simp
  then show ?thesis by (simp add: char_of_byte_def byte_of_char_def of_char_of)
qed

lemma length_as_str_bytes [simp]: "length (as_str_bytes s) = length s"
  by (simp add: as_str_bytes_def)

lemma map_char_as_str_bytes [simp]: "map char_of_byte (as_str_bytes s) = s"
  by (simp add: as_str_bytes_def comp_def)

lemma as_str_bytes_map_char [simp]: "as_str_bytes (map char_of_byte bs) = bs"
  by (simp add: as_str_bytes_def comp_def)

lemma as_str_bytes_inject [simp]: "as_str_bytes s = as_str_bytes t \<longleftrightarrow> s = t"
  by (metis map_char_as_str_bytes)

text \<open>The well-formed byte sequences of UTF-8, as \<open>core::str::from_utf8\<close> checks them.\<close>

definition is_cont :: "u8 \<Rightarrow> bool" where
  "is_cont b \<longleftrightarrow> 0x80 \<le> b \<and> b \<le> 0xBF"

definition second_ok3 :: "u8 \<Rightarrow> u8 \<Rightarrow> bool" where
  "second_ok3 b c \<longleftrightarrow> (b = 0xE0 \<and> 0xA0 \<le> c \<and> c \<le> 0xBF) \<or> (b = 0xED \<and> 0x80 \<le> c \<and> c \<le> 0x9F)
     \<or> (b \<noteq> 0xE0 \<and> b \<noteq> 0xED \<and> 0xE1 \<le> b \<and> b \<le> 0xEF \<and> is_cont c)"

definition second_ok4 :: "u8 \<Rightarrow> u8 \<Rightarrow> bool" where
  "second_ok4 b c \<longleftrightarrow> (b = 0xF0 \<and> 0x90 \<le> c \<and> c \<le> 0xBF) \<or> (b = 0xF4 \<and> 0x80 \<le> c \<and> c \<le> 0x8F)
     \<or> (0xF1 \<le> b \<and> b \<le> 0xF3 \<and> is_cont c)"

fun utf8_valid :: "bytes \<Rightarrow> bool" where
  "utf8_valid [] = True"
| "utf8_valid (b # bs) =
    (if b < 0x80 then utf8_valid bs
     else case bs of
       [] \<Rightarrow> False
     | c # cs \<Rightarrow>
        if 0xC2 \<le> b \<and> b \<le> 0xDF then is_cont c \<and> utf8_valid cs
        else case cs of
          [] \<Rightarrow> False
        | d # ds \<Rightarrow>
           if 0xE0 \<le> b \<and> b \<le> 0xEF then second_ok3 b c \<and> is_cont d \<and> utf8_valid ds
           else case ds of
             [] \<Rightarrow> False
           | e # es \<Rightarrow> second_ok4 b c \<and> is_cont d \<and> is_cont e \<and> utf8_valid es)"

definition valid_string :: "string \<Rightarrow> bool" where
  "valid_string s \<longleftrightarrow> utf8_valid (as_str_bytes s)"

definition from_utf8 :: "bytes \<Rightarrow> string option" where
  "from_utf8 bs = (if utf8_valid bs then Some (map char_of_byte bs) else None)"

lemma from_utf8_Some: "from_utf8 bs = Some s \<longleftrightarrow> bs = as_str_bytes s \<and> valid_string s"
  by (auto simp: from_utf8_def valid_string_def)

lemma from_utf8_as_str_bytes: "valid_string s \<Longrightarrow> from_utf8 (as_str_bytes s) = Some s"
  by (simp add: from_utf8_Some)

lemma utf8_valid_ascii: "\<forall>b\<in>set bs. b < 0x80 \<Longrightarrow> utf8_valid bs"
  by (induction bs) simp_all

subsection \<open>Trimming and splitting\<close>

definition is_ws :: "char \<Rightarrow> bool" where
  "is_ws c \<longleftrightarrow> (let n = (of_char c :: nat) in 9 \<le> n \<and> n \<le> 13 \<or> n = 32)"

definition str_trim :: "string \<Rightarrow> string" where
  "str_trim s = rev (dropWhile is_ws (rev (dropWhile is_ws s)))"

fun str_split :: "char \<Rightarrow> string \<Rightarrow> string list" where
  "str_split sep [] = [[]]"
| "str_split sep (c # s) =
    (if c = sep then [] # str_split sep s
     else case str_split sep s of [] \<Rightarrow> [[c]] | p # ps \<Rightarrow> (c # p) # ps)"

fun strip_prefix :: "string \<Rightarrow> string \<Rightarrow> string option" where
  "strip_prefix [] s = Some s"
| "strip_prefix (p # ps) [] = None"
| "strip_prefix (p # ps) (c # s) = (if p = c then strip_prefix ps s else None)"

definition strip_suffix :: "string \<Rightarrow> string \<Rightarrow> string option" where
  "strip_suffix p s = map_option rev (strip_prefix (rev p) (rev s))"

definition starts_with :: "'a list \<Rightarrow> 'a list \<Rightarrow> bool" where
  "starts_with p s \<longleftrightarrow> take (length p) s = p"

definition split_once :: "char \<Rightarrow> string \<Rightarrow> (string \<times> string) option" where
  "split_once sep s =
    (if sep \<in> set s then Some (takeWhile (\<lambda>c. c \<noteq> sep) s, drop 1 (dropWhile (\<lambda>c. c \<noteq> sep) s))
     else None)"

definition rsplit_once :: "char \<Rightarrow> string \<Rightarrow> (string \<times> string) option" where
  "rsplit_once sep s = map_option (\<lambda>(a, b). (rev b, rev a)) (split_once sep (rev s))"

definition to_ascii_lower :: "char \<Rightarrow> char" where
  "to_ascii_lower c = (let n = (of_char c :: nat) in if 65 \<le> n \<and> n \<le> 90 then char_of (n + 32) else c)"

definition eq_ignore_ascii_case :: "string \<Rightarrow> string \<Rightarrow> bool" where
  "eq_ignore_ascii_case s t \<longleftrightarrow> map to_ascii_lower s = map to_ascii_lower t"

lemma strip_prefix_Some: "strip_prefix p s = Some t \<longleftrightarrow> s = p @ t"
  by (induction p s rule: strip_prefix.induct) auto

subsection \<open>Unsigned decimal numbers\<close>

definition is_ascii_digit :: "char \<Rightarrow> bool" where
  "is_ascii_digit c \<longleftrightarrow> (let n = (of_char c :: nat) in 48 \<le> n \<and> n \<le> 57)"

definition digit_value :: "char \<Rightarrow> nat" where
  "digit_value c = of_char c - 48"

definition parse_digits :: "string \<Rightarrow> nat option" where
  "parse_digits s =
    (if s \<noteq> [] \<and> list_all is_ascii_digit s
     then Some (foldl (\<lambda>v c. 10 * v + digit_value c) 0 s) else None)"

text \<open>\<open>str::parse\<close> of an unsigned type of \<open>n\<close> bits: an optional plus sign, at least one digit,
  nothing else, and no overflow.\<close>

definition parse_uint :: "nat \<Rightarrow> string \<Rightarrow> nat option" where
  "parse_uint n s =
    (let ds = (case s of c # cs \<Rightarrow> if c = CHR ''+'' then cs else s | [] \<Rightarrow> []) in
     case parse_digits ds of
       Some v \<Rightarrow> if v < 2 ^ n then Some v else None
     | None \<Rightarrow> None)"

lemma parse_uint_less: "parse_uint n s = Some v \<Longrightarrow> v < 2 ^ n"
  by (auto simp: parse_uint_def Let_def split: option.splits if_splits)

end
