(* ===== verification/Attested_Policy.thy ===== *)
theory Attested_Policy
  imports Enclave_Error Rust_Text "HOL-Library.List_Lexorder"
begin

text \<open>
  The canonical encoding of the attested security policy
  (\<open>attestation-verify/src/policy.rs\<close>): the policy as data, its encoding \<open>to_bytes\<close>, the
  decoder \<open>from_bytes\<close> over a byte reader, and the proof that the decoder accepts exactly the
  encodings. Fixed-size arrays are byte lists whose length is part of \<open>wf_policy\<close>.
\<close>

subsection \<open>Data\<close>

definition POLICY_COMMITMENT_V1 :: u8 where "POLICY_COMMITMENT_V1 = 1"

datatype signer_role = Combined | Mint | Burn

fun signer_role_u8 :: "signer_role \<Rightarrow> u8" where
  "signer_role_u8 Combined = 0"
| "signer_role_u8 Mint = 1"
| "signer_role_u8 Burn = 2"

definition role_clones :: "signer_role \<Rightarrow> bool" where
  "role_clones r \<longleftrightarrow> r \<noteq> Mint"

datatype evm_data_source = Disabled | RawRpc | PinnedTlsRpc

fun evm_data_source_u8 :: "evm_data_source \<Rightarrow> u8" where
  "evm_data_source_u8 Disabled = 0"
| "evm_data_source_u8 RawRpc = 1"
| "evm_data_source_u8 PinnedTlsRpc = 3"

fun evm_finality_tag_u8 :: "evm_finality_tag \<Rightarrow> u8" where
  "evm_finality_tag_u8 Latest = 0"
| "evm_finality_tag_u8 Safe = 1"
| "evm_finality_tag_u8 Finalized = 2"

fun finality_tag_str :: "evm_finality_tag \<Rightarrow> string" where
  "finality_tag_str Latest = ''latest''"
| "finality_tag_str Safe = ''safe''"
| "finality_tag_str Finalized = ''finalized''"

definition finality_tag_from_str :: "string \<Rightarrow> evm_finality_tag option" where
  "finality_tag_from_str value =
    (if value = ''latest'' then Some Latest
     else if value = ''safe'' then Some Safe
     else if value = ''finalized'' then Some Finalized
     else None)"

datatype attested_network =
  AMainnet | ATestnet3 | ASignet | ARegtest | ATestnet4 | ASignetCustom

fun attested_network_u8 :: "attested_network \<Rightarrow> u8" where
  "attested_network_u8 AMainnet = 0"
| "attested_network_u8 ATestnet3 = 1"
| "attested_network_u8 ASignet = 2"
| "attested_network_u8 ARegtest = 3"
| "attested_network_u8 ATestnet4 = 4"
| "attested_network_u8 ASignetCustom = 5"

definition attested_network_from_env_str :: "string \<Rightarrow> attested_network option" where
  "attested_network_from_env_str s =
    (if s = ''bitcoin'' \<or> s = ''mainnet'' then Some AMainnet
     else if s = ''testnet'' \<or> s = ''testnet3'' then Some ATestnet3
     else if s = ''signet'' then Some ASignet
     else if s = ''signetcustom'' then Some ASignetCustom
     else if s = ''testnet4'' then Some ATestnet4
     else if s = ''regtest'' then Some ARegtest
     else None)"

record evm_rpc_tls_pin =
  tls_host :: string
  ca_sha256 :: bytes

record kms_pin =
  key_arn :: string
  region :: string
  seed_id :: string
  expected_evm_address :: "bytes option"

datatype btc_data_source = SpvVerified

datatype attestation_mode = Mock | Real

fun attestation_mode_u8 :: "attestation_mode \<Rightarrow> u8" where
  "attestation_mode_u8 Mock = 0"
| "attestation_mode_u8 Real = 1"

record attested_production =
  ap_allow_vanilla_psbt :: bool
  ap_signer_role :: signer_role
  ap_attestation :: attestation_mode
  ap_evm_source :: evm_data_source
  ap_btc_source :: btc_data_source
  ap_chain_id :: u64
  ap_bitcoin_network :: attested_network
  ap_bridge_contract :: bytes
  ap_rgb_asset_id :: string
  ap_funds_in_contract :: bytes
  ap_evm_finality_tag :: evm_finality_tag
  ap_spv_min_confirmations :: u32
  ap_electrum_host :: string
  ap_evm_rpc_tls :: "evm_rpc_tls_pin option"
  ap_gas_tx_allowed_to :: bytes
  ap_gas_tx_max_gas_limit :: u64
  ap_gas_tx_max_fee_per_gas :: u128
  ap_gas_tx_max_value_wei :: u128
  ap_gas_tx_allowed_selectors :: "bytes list"
  ap_token_contract :: bytes
  ap_kms :: "kms_pin option"
  ap_clone_peer_pcr3 :: "bytes option"

datatype attested_policy = Production attested_production | Development

subsection \<open>Encoding\<close>

definition word_be :: "'a::len word \<Rightarrow> bytes" where
  "word_be w = nat_be (LENGTH('a) div 8) (unat w)"

definition put_flag :: "bool \<Rightarrow> bytes" where
  "put_flag b = [if b then 1 else 0]"

definition put_len :: "nat \<Rightarrow> bytes" where
  "put_len n = word_be (of_nat n :: u32)"

definition put_string :: "string \<Rightarrow> bytes" where
  "put_string s = put_len (length s) @ as_str_bytes s"

definition put_option :: "('a \<Rightarrow> bytes) \<Rightarrow> 'a option \<Rightarrow> bytes" where
  "put_option f x = (case x of Some v \<Rightarrow> 1 # f v | None \<Rightarrow> [0])"

definition put_tls :: "evm_rpc_tls_pin \<Rightarrow> bytes" where
  "put_tls pin = put_string (tls_host pin) @ ca_sha256 pin"

definition put_kms :: "kms_pin \<Rightarrow> bytes" where
  "put_kms pin = put_string (key_arn pin) @ put_string (region pin) @ put_string (seed_id pin) @
    put_option (\<lambda>address. address) (expected_evm_address pin)"

definition put_selectors :: "bytes list \<Rightarrow> bytes" where
  "put_selectors sels = (let selectors = remdups_adj (sort sels) in
     put_len (length selectors) @ concat selectors)"

definition put_production :: "attested_production \<Rightarrow> bytes" where
  "put_production p =
    put_flag (ap_allow_vanilla_psbt p) @
    [signer_role_u8 (ap_signer_role p)] @
    [attestation_mode_u8 (ap_attestation p)] @
    [evm_data_source_u8 (ap_evm_source p)] @
    [case ap_btc_source p of SpvVerified \<Rightarrow> 1] @
    word_be (ap_chain_id p) @
    [attested_network_u8 (ap_bitcoin_network p)] @
    ap_bridge_contract p @
    put_string (ap_rgb_asset_id p) @
    ap_funds_in_contract p @
    [evm_finality_tag_u8 (ap_evm_finality_tag p)] @
    word_be (ap_spv_min_confirmations p) @
    put_string (ap_electrum_host p) @
    put_option put_tls (ap_evm_rpc_tls p) @
    ap_gas_tx_allowed_to p @
    word_be (ap_gas_tx_max_gas_limit p) @
    word_be (ap_gas_tx_max_fee_per_gas p) @
    word_be (ap_gas_tx_max_value_wei p) @
    put_selectors (ap_gas_tx_allowed_selectors p) @
    ap_token_contract p @
    put_option put_kms (ap_kms p) @
    put_option (\<lambda>pcr3. pcr3) (ap_clone_peer_pcr3 p)"

fun to_bytes :: "attested_policy \<Rightarrow> bytes" where
  "to_bytes (Production p) = POLICY_COMMITMENT_V1 # 1 # put_production p"
| "to_bytes Development = [POLICY_COMMITMENT_V1, 0]"

subsection \<open>The reader\<close>

text \<open>A reader consumes bytes from the front and returns the value and the rest, or the static
  message of \<open>PolicyDecodeError\<close>.\<close>

type_synonym 'a reader = "bytes \<Rightarrow> (string, 'a \<times> bytes) result"

definition rd_take :: "nat \<Rightarrow> bytes reader" where
  "rd_take n bs = (if length bs < n then Inl ''truncated'' else Inr (take n bs, drop n bs))"

definition rd_bind :: "'a reader \<Rightarrow> ('a \<Rightarrow> 'b reader) \<Rightarrow> 'b reader" where
  "rd_bind m f bs = and_then (m bs) (\<lambda>(x, rest). f x rest)"

definition rd_return :: "'a \<Rightarrow> 'a reader" where
  "rd_return x bs = Inr (x, bs)"

definition rd_fail :: "string \<Rightarrow> 'a reader" where
  "rd_fail e bs = Inl e"

definition rd_u8 :: "u8 reader" where
  "rd_u8 = rd_bind (rd_take 1) (\<lambda>bs. rd_return (bs ! 0))"

definition rd_word :: "'a::len word reader" where
  "rd_word = rd_bind (rd_take (LENGTH('a) div 8)) (\<lambda>bs. rd_return (of_nat (be_nat bs)))"

definition rd_enum :: "string \<Rightarrow> (u8 \<Rightarrow> 'a option) \<Rightarrow> 'a reader" where
  "rd_enum e dec = rd_bind rd_u8 (\<lambda>b. case dec b of Some x \<Rightarrow> rd_return x | None \<Rightarrow> rd_fail e)"

definition rd_flag :: "bool reader" where
  "rd_flag = rd_enum ''unknown presence byte''
     (\<lambda>b. if b = 0 then Some False else if b = 1 then Some True else None)"

definition rd_len :: "nat reader" where
  "rd_len = rd_bind rd_word (\<lambda>w :: u32. rd_return (unat w))"

definition rd_string :: "string reader" where
  "rd_string = rd_bind rd_len (\<lambda>n. rd_bind (rd_take n) (\<lambda>bs.
     case from_utf8 bs of Some s \<Rightarrow> rd_return s | None \<Rightarrow> rd_fail ''not UTF-8''))"

definition rd_option :: "'a reader \<Rightarrow> 'a option reader" where
  "rd_option m = rd_bind rd_flag (\<lambda>b.
     if b then rd_bind m (\<lambda>x. rd_return (Some x)) else rd_return None)"

definition dec_signer_role :: "u8 \<Rightarrow> signer_role option" where
  "dec_signer_role b = (if b = 0 then Some Combined else if b = 1 then Some Mint
     else if b = 2 then Some Burn else None)"

definition dec_attestation_mode :: "u8 \<Rightarrow> attestation_mode option" where
  "dec_attestation_mode b = (if b = 0 then Some Mock else if b = 1 then Some Real else None)"

definition dec_evm_data_source :: "u8 \<Rightarrow> evm_data_source option" where
  "dec_evm_data_source b = (if b = 0 then Some Disabled else if b = 1 then Some RawRpc
     else if b = 3 then Some PinnedTlsRpc else None)"

definition dec_btc_data_source :: "u8 \<Rightarrow> btc_data_source option" where
  "dec_btc_data_source b = (if b = 1 then Some SpvVerified else None)"

definition dec_bitcoin_network :: "u8 \<Rightarrow> attested_network option" where
  "dec_bitcoin_network b = (if b = 0 then Some AMainnet else if b = 1 then Some ATestnet3
     else if b = 2 then Some ASignet else if b = 3 then Some ARegtest
     else if b = 4 then Some ATestnet4 else if b = 5 then Some ASignetCustom else None)"

definition dec_evm_finality_tag :: "u8 \<Rightarrow> evm_finality_tag option" where
  "dec_evm_finality_tag b = (if b = 0 then Some Latest else if b = 1 then Some Safe
     else if b = 2 then Some Finalized else None)"

definition rd_tls :: "evm_rpc_tls_pin reader" where
  "rd_tls = rd_bind rd_string (\<lambda>host. rd_bind (rd_take 32) (\<lambda>ca.
     rd_return \<lparr>tls_host = host, ca_sha256 = ca\<rparr>))"

definition rd_kms :: "kms_pin reader" where
  "rd_kms = rd_bind rd_string (\<lambda>arn. rd_bind rd_string (\<lambda>reg. rd_bind rd_string (\<lambda>sid.
     rd_bind (rd_option (rd_take 20)) (\<lambda>address.
     rd_return \<lparr>key_arn = arn, region = reg, seed_id = sid, expected_evm_address = address\<rparr>))))"

fun rd_selectors :: "nat \<Rightarrow> bytes list \<Rightarrow> bytes list reader" where
  "rd_selectors 0 sels = rd_return sels"
| "rd_selectors (Suc count) sels = rd_bind (rd_take 4) (\<lambda>selector.
     if sels \<noteq> [] \<and> selector \<le> last sels then rd_fail ''selectors are not sorted and unique''
     else rd_selectors count (sels @ [selector]))"

definition rd_production :: "attested_production reader" where
  "rd_production =
    rd_bind rd_flag (\<lambda>allow_vanilla_psbt.
    rd_bind (rd_enum ''unknown signer role'' dec_signer_role) (\<lambda>signer_role.
    rd_bind (rd_enum ''unknown attestation mode'' dec_attestation_mode) (\<lambda>attestation.
    rd_bind (rd_enum ''unknown EVM data source'' dec_evm_data_source) (\<lambda>evm_source.
    rd_bind (rd_enum ''unknown BTC data source'' dec_btc_data_source) (\<lambda>btc_source.
    rd_bind rd_word (\<lambda>chain_id.
    rd_bind (rd_enum ''unknown Bitcoin network'' dec_bitcoin_network) (\<lambda>bitcoin_network.
    rd_bind (rd_take 20) (\<lambda>bridge_contract.
    rd_bind rd_string (\<lambda>rgb_asset_id.
    rd_bind (rd_take 20) (\<lambda>funds_in_contract.
    rd_bind (rd_enum ''unknown EVM finality tag'' dec_evm_finality_tag) (\<lambda>evm_finality_tag.
    rd_bind rd_word (\<lambda>spv_min_confirmations.
    rd_bind rd_string (\<lambda>electrum_host.
    rd_bind (rd_option rd_tls) (\<lambda>evm_rpc_tls.
    rd_bind (rd_take 20) (\<lambda>gas_tx_allowed_to.
    rd_bind rd_word (\<lambda>gas_tx_max_gas_limit.
    rd_bind rd_word (\<lambda>gas_tx_max_fee_per_gas.
    rd_bind rd_word (\<lambda>gas_tx_max_value_wei.
    rd_bind (rd_bind rd_len (\<lambda>count. rd_selectors count [])) (\<lambda>gas_tx_allowed_selectors.
    rd_bind (rd_take 20) (\<lambda>token_contract.
    rd_bind (rd_option rd_kms) (\<lambda>kms.
    rd_bind (rd_option (rd_take 48)) (\<lambda>clone_peer_pcr3.
    rd_return
      \<lparr>ap_allow_vanilla_psbt = allow_vanilla_psbt, ap_signer_role = signer_role,
       ap_attestation = attestation, ap_evm_source = evm_source, ap_btc_source = btc_source,
       ap_chain_id = chain_id, ap_bitcoin_network = bitcoin_network,
       ap_bridge_contract = bridge_contract, ap_rgb_asset_id = rgb_asset_id,
       ap_funds_in_contract = funds_in_contract, ap_evm_finality_tag = evm_finality_tag,
       ap_spv_min_confirmations = spv_min_confirmations, ap_electrum_host = electrum_host,
       ap_evm_rpc_tls = evm_rpc_tls, ap_gas_tx_allowed_to = gas_tx_allowed_to,
       ap_gas_tx_max_gas_limit = gas_tx_max_gas_limit,
       ap_gas_tx_max_fee_per_gas = gas_tx_max_fee_per_gas,
       ap_gas_tx_max_value_wei = gas_tx_max_value_wei,
       ap_gas_tx_allowed_selectors = gas_tx_allowed_selectors,
       ap_token_contract = token_contract, ap_kms = kms,
       ap_clone_peer_pcr3 = clone_peer_pcr3\<rparr>))))))))))))))))))))))"

definition from_bytes :: "bytes \<Rightarrow> (string, attested_policy) result" where
  "from_bytes bytes =
    and_then (rd_u8 bytes) (\<lambda>(version, r).
    and_then (require (version = POLICY_COMMITMENT_V1) ''unknown policy version'') (\<lambda>_.
    and_then (rd_u8 r) (\<lambda>(kind, r).
    and_then (if kind = 0 then Inr (Development, r)
              else if kind = 1 then
                and_then (rd_production r) (\<lambda>(p, r). Inr (Production p, r))
              else Inl ''unknown policy kind'') (\<lambda>(policy, r).
    and_then (require (r = []) ''trailing bytes'') (\<lambda>_. Inr policy)))))"

definition policy_commitment :: "(bytes \<Rightarrow> bytes) \<Rightarrow> bytes \<Rightarrow> bytes" where
  "policy_commitment sha256 policy =
    sha256 (as_str_bytes ''utexo/attested-policy/v1'' @ [0] @ policy)"

subsection \<open>Codecs\<close>

lemma rd_take_exact: "rd_take n bs = Inr (x, rest) \<longleftrightarrow> length x = n \<and> bs = x @ rest"
  by (auto simp: rd_take_def)

lemma rd_return_Inr: "rd_return x bs = Inr (y, rest) \<longleftrightarrow> y = x \<and> rest = bs"
  by (auto simp: rd_return_def)

lemma rd_fail_Inr [simp]: "rd_fail e bs \<noteq> Inr r"
  by (simp add: rd_fail_def)

lemma rd_u8_exact: "rd_u8 bs = Inr (x, rest) \<longleftrightarrow> bs = x # rest"
  by (cases bs) (auto simp: rd_u8_def rd_bind_def rd_take_def rd_return_def)

lemma rd_enum_exact:
  assumes "\<And>b x. dec b = Some x \<longleftrightarrow> b = enc x"
  shows "rd_enum e dec bs = Inr (x, rest) \<longleftrightarrow> bs = enc x # rest"
proof (cases bs)
  case Nil
  then show ?thesis by (simp add: rd_enum_def rd_bind_def rd_u8_def rd_take_def)
next
  case (Cons b bs')
  then have "rd_enum e dec bs = (case dec b of Some x \<Rightarrow> Inr (x, bs') | None \<Rightarrow> Inl e)"
    by (simp add: rd_enum_def rd_bind_def rd_u8_def rd_take_def rd_return_def rd_fail_def split: option.split)
  then show ?thesis
    using Cons assms [of b] assms [of "enc x" x] by (cases "dec b") auto
qed

lemma word_be_be_nat:
  fixes x :: "'a::len word"
  assumes "8 dvd LENGTH('a)" "length bs = LENGTH('a) div 8"
  shows "of_nat (be_nat bs) = x \<longleftrightarrow> bs = word_be x"
proof -
  have len: "256 ^ (LENGTH('a) div 8) = (2 :: nat) ^ LENGTH('a)"
  proof -
    have "(256 :: nat) ^ k = 2 ^ (8 * k)" for k by (simp add: power_mult)
    then show ?thesis using assms(1) by simp
  qed
  have "unat (of_nat (be_nat bs) :: 'a word) = be_nat bs"
    using be_nat_less [of bs] assms(2) len by (simp add: unat_of_nat)
  then have "of_nat (be_nat bs) = x \<longleftrightarrow> be_nat bs = unat x"
    by (metis word_unat_eq_iff)
  also have "\<dots> \<longleftrightarrow> bs = word_be x"
  proof
    assume "be_nat bs = unat x"
    then show "bs = word_be x" using nat_be_be_nat [of bs] assms(2) by (simp add: word_be_def)
  next
    assume "bs = word_be x"
    then show "be_nat bs = unat x"
      using unsigned_less [of x] len by (simp add: word_be_def be_nat_nat_be)
  qed
  finally show ?thesis .
qed

lemma length_word_be [simp]: "length (word_be (x :: 'a::len word)) = LENGTH('a) div 8"
  by (simp add: word_be_def)

lemma rd_word_exact:
  fixes x :: "'a::len word"
  assumes "8 dvd LENGTH('a)"
  shows "rd_word bs = Inr (x, rest) \<longleftrightarrow> bs = word_be x @ rest"
proof -
  have "rd_word bs = Inr (x, rest) \<longleftrightarrow>
     (\<exists>ys. length ys = LENGTH('a) div 8 \<and> bs = ys @ rest \<and> of_nat (be_nat ys) = x)"
    by (auto simp: rd_word_def rd_bind_def and_then_Inr rd_take_exact rd_return_Inr)
  also have "\<dots> \<longleftrightarrow> bs = word_be x @ rest"
    using word_be_be_nat [OF assms] by auto
  finally show ?thesis .
qed

lemma rd_flag_exact: "rd_flag bs = Inr (x, rest) \<longleftrightarrow> bs = put_flag x @ rest"
  by (simp add: rd_flag_def put_flag_def rd_enum_exact [where enc = "\<lambda>b. if b then 1 else 0"])

text \<open>What the decoder relies on of the reader of one field: it accepts exactly the encodings of
  well-formed values followed by anything, and leaves the rest.\<close>

locale codec =
  fixes put :: "'a \<Rightarrow> bytes" and rd :: "'a reader" and ok :: "'a \<Rightarrow> bool"
  assumes exact: "rd bs = Inr (x, rest) \<longleftrightarrow> ok x \<and> bs = put x @ rest"
begin

lemma read_back: "ok x \<Longrightarrow> rd (put x @ rest) = Inr (x, rest)"
  by (simp add: exact)

lemma prefix_free: "ok x \<Longrightarrow> ok y \<Longrightarrow> put x @ r = put y @ s \<Longrightarrow> x = y \<and> r = s"
  by (metis Inr_inject exact prod.inject)

lemma bind_read: "ok x \<Longrightarrow> rd_bind rd f (put x @ r) = f x r"
  by (simp add: rd_bind_def read_back)

lemma bind_exact:
  "rd_bind rd f bs = Inr (y, rest) \<longleftrightarrow> (\<exists>x r. ok x \<and> bs = put x @ r \<and> f x r = Inr (y, rest))"
  by (auto simp: rd_bind_def and_then_Inr exact)

lemma option_exact:
  "rd_option rd bs = Inr (x, rest) \<longleftrightarrow>
    (case x of None \<Rightarrow> True | Some y \<Rightarrow> ok y) \<and> bs = put_option put x @ rest"
proof (cases "rd_flag bs")
  case (Inl e)
  then have "\<And>b r. bs \<noteq> put_flag b @ r" using rd_flag_exact by (metis Inl_Inr_False)
  from this [of True] this [of False] show ?thesis
    using Inl by (auto simp: rd_option_def rd_bind_def put_option_def put_flag_def split: option.split)
next
  case (Inr p)
  then obtain b r where p: "p = (b, r)" "bs = put_flag b @ r"
    using rd_flag_exact by (cases p) blast
  then show ?thesis
    using Inr by (cases b) (auto simp: rd_option_def rd_bind_def put_option_def put_flag_def
      and_then_Inr exact rd_return_def split: option.split)
qed

end

interpretation flag: codec put_flag rd_flag "\<lambda>_. True"
  by unfold_locales (simp add: rd_flag_exact)

interpretation w64: codec "word_be :: u64 \<Rightarrow> bytes" rd_word "\<lambda>_. True"
  by unfold_locales (simp add: rd_word_exact)

interpretation w32: codec "word_be :: u32 \<Rightarrow> bytes" rd_word "\<lambda>_. True"
  by unfold_locales (simp add: rd_word_exact)

interpretation w128: codec "word_be :: u128 \<Rightarrow> bytes" rd_word "\<lambda>_. True"
  by unfold_locales (simp add: rd_word_exact)

interpretation arr: codec "\<lambda>x. x" "rd_take n" "\<lambda>x. length x = n" for n
  by unfold_locales (simp add: rd_take_exact)

interpretation role: codec "\<lambda>x. [signer_role_u8 x]" "rd_enum e dec_signer_role" "\<lambda>_. True" for e
proof (unfold_locales, subst rd_enum_exact [where enc = signer_role_u8])
  show "dec_signer_role b = Some x \<longleftrightarrow> b = signer_role_u8 x" for b x
    by (cases x) (auto simp: dec_signer_role_def)
qed simp

interpretation amode: codec "\<lambda>x. [attestation_mode_u8 x]" "rd_enum e dec_attestation_mode" "\<lambda>_. True" for e
proof (unfold_locales, subst rd_enum_exact [where enc = attestation_mode_u8])
  show "dec_attestation_mode b = Some x \<longleftrightarrow> b = attestation_mode_u8 x" for b x
    by (cases x) (auto simp: dec_attestation_mode_def)
qed simp

interpretation esource: codec "\<lambda>x. [evm_data_source_u8 x]" "rd_enum e dec_evm_data_source" "\<lambda>_. True" for e
proof (unfold_locales, subst rd_enum_exact [where enc = evm_data_source_u8])
  show "dec_evm_data_source b = Some x \<longleftrightarrow> b = evm_data_source_u8 x" for b x
    by (cases x) (auto simp: dec_evm_data_source_def)
qed simp

interpretation bsource: codec "\<lambda>x. [case x of SpvVerified \<Rightarrow> 1]" "rd_enum e dec_btc_data_source" "\<lambda>_. True" for e
proof (unfold_locales, subst rd_enum_exact [where enc = "\<lambda>x. case x of SpvVerified \<Rightarrow> 1"])
  show "dec_btc_data_source b = Some x \<longleftrightarrow> b = (case x of SpvVerified \<Rightarrow> 1)" for b x
    by (cases x) (auto simp: dec_btc_data_source_def)
qed simp

interpretation bnet: codec "\<lambda>x. [attested_network_u8 x]" "rd_enum e dec_bitcoin_network" "\<lambda>_. True" for e
proof (unfold_locales, subst rd_enum_exact [where enc = attested_network_u8])
  show "dec_bitcoin_network b = Some x \<longleftrightarrow> b = attested_network_u8 x" for b x
    by (cases x) (auto simp: dec_bitcoin_network_def)
qed simp

interpretation ftag: codec "\<lambda>x. [evm_finality_tag_u8 x]" "rd_enum e dec_evm_finality_tag" "\<lambda>_. True" for e
proof (unfold_locales, subst rd_enum_exact [where enc = evm_finality_tag_u8])
  show "dec_evm_finality_tag b = Some x \<longleftrightarrow> b = evm_finality_tag_u8 x" for b x
    by (cases x) (auto simp: dec_evm_finality_tag_def)
qed simp

subsection \<open>Well-formed policies\<close>

definition wf_string :: "string \<Rightarrow> bool" where
  "wf_string s \<longleftrightarrow> valid_string s \<and> length s < 2 ^ 32"

definition wf_tls :: "evm_rpc_tls_pin \<Rightarrow> bool" where
  "wf_tls pin \<longleftrightarrow> wf_string (tls_host pin) \<and> length (ca_sha256 pin) = 32"

definition wf_kms :: "kms_pin \<Rightarrow> bool" where
  "wf_kms pin \<longleftrightarrow> wf_string (key_arn pin) \<and> wf_string (region pin) \<and> wf_string (seed_id pin) \<and>
    (case expected_evm_address pin of None \<Rightarrow> True | Some a \<Rightarrow> length a = 20)"

definition sorted_selectors :: "bytes list \<Rightarrow> bool" where
  "sorted_selectors sels \<longleftrightarrow> sorted_wrt (<) sels \<and> (\<forall>s\<in>set sels. length s = 4) \<and> length sels < 2 ^ 32"

definition wf_production :: "attested_production \<Rightarrow> bool" where
  "wf_production p \<longleftrightarrow>
    length (ap_bridge_contract p) = 20 \<and> wf_string (ap_rgb_asset_id p) \<and>
    length (ap_funds_in_contract p) = 20 \<and> wf_string (ap_electrum_host p) \<and>
    (case ap_evm_rpc_tls p of None \<Rightarrow> True | Some pin \<Rightarrow> wf_tls pin) \<and>
    length (ap_gas_tx_allowed_to p) = 20 \<and> sorted_selectors (ap_gas_tx_allowed_selectors p) \<and>
    length (ap_token_contract p) = 20 \<and>
    (case ap_kms p of None \<Rightarrow> True | Some pin \<Rightarrow> wf_kms pin) \<and>
    (case ap_clone_peer_pcr3 p of None \<Rightarrow> True | Some x \<Rightarrow> length x = 48)"

lemma codecI:
  assumes "\<And>bs x rest. rd bs = Inr (x, rest) \<Longrightarrow> ok x \<and> bs = put x @ rest"
    and "\<And>x rest. ok x \<Longrightarrow> rd (put x @ rest) = Inr (x, rest)"
  shows "codec put rd ok"
  using assms by unfold_locales blast

interpretation len: codec put_len rd_len "\<lambda>n. n < 2 ^ 32"
proof (rule codecI)
  show "n < 2 ^ 32 \<and> bs = put_len n @ rest" if "rd_len bs = Inr (n, rest)" for bs n rest
    using that unat_u32_less by (auto simp: rd_len_def w32.bind_exact rd_return_Inr put_len_def)
  show "rd_len (put_len n @ rest) = Inr (n, rest)" if "n < 2 ^ 32" for n rest
    using that by (simp add: rd_len_def put_len_def w32.bind_read rd_return_def unat_of_nat)
qed

interpretation str: codec put_string rd_string wf_string
proof (rule codecI)
  show "wf_string s \<and> bs = put_string s @ rest" if "rd_string bs = Inr (s, rest)" for bs s rest
    using that by (auto simp: rd_string_def put_string_def wf_string_def len.bind_exact
      arr.bind_exact rd_return_Inr from_utf8_Some split: option.splits)
  show "rd_string (put_string s @ rest) = Inr (s, rest)" if "wf_string s" for s rest
    using that by (simp add: rd_string_def put_string_def wf_string_def len.bind_read
      arr.bind_read rd_return_def from_utf8_as_str_bytes)
qed

interpretation tls: codec put_tls rd_tls wf_tls
proof (rule codecI)
  show "wf_tls x \<and> bs = put_tls x @ rest" if "rd_tls bs = Inr (x, rest)" for bs x rest
    using that by (auto simp: rd_tls_def put_tls_def wf_tls_def str.bind_exact arr.bind_exact rd_return_Inr)
  show "rd_tls (put_tls x @ rest) = Inr (x, rest)" if "wf_tls x" for x rest
    using that by (simp add: rd_tls_def put_tls_def wf_tls_def str.bind_read arr.bind_read rd_return_def)
qed

interpretation arr_opt: codec "put_option (\<lambda>x. x)" "rd_option (rd_take n)"
  "\<lambda>x. case x of None \<Rightarrow> True | Some y \<Rightarrow> length y = n" for n
  by unfold_locales (rule arr.option_exact)

interpretation tls_opt: codec "put_option put_tls" "rd_option rd_tls"
  "\<lambda>x. case x of None \<Rightarrow> True | Some y \<Rightarrow> wf_tls y"
  by unfold_locales (rule tls.option_exact)

interpretation kms: codec put_kms rd_kms wf_kms
proof (rule codecI)
  show "wf_kms x \<and> bs = put_kms x @ rest" if "rd_kms bs = Inr (x, rest)" for bs x rest
    using that by (auto simp: rd_kms_def put_kms_def wf_kms_def str.bind_exact arr_opt.bind_exact
      rd_return_Inr)
  show "rd_kms (put_kms x @ rest) = Inr (x, rest)" if "wf_kms x" for x rest
    using that by (simp add: rd_kms_def put_kms_def wf_kms_def str.bind_read arr_opt.bind_read
      rd_return_def)
qed

interpretation kms_opt: codec "put_option put_kms" "rd_option rd_kms"
  "\<lambda>x. case x of None \<Rightarrow> True | Some y \<Rightarrow> wf_kms y"
  by unfold_locales (rule kms.option_exact)

lemma rd_selectors_sound:
  assumes "rd_selectors n acc bs = Inr (sels, rest)" "sorted_wrt (<) acc" "\<forall>s\<in>set acc. length s = 4"
  shows "\<exists>new. sels = acc @ new \<and> length new = n \<and> bs = concat new @ rest \<and>
    sorted_wrt (<) sels \<and> (\<forall>s\<in>set sels. length s = 4)"
  using assms
proof (induction n arbitrary: acc bs)
  case (Suc n)
  then obtain s r where s: "length s = 4" "bs = s @ r" "acc = [] \<or> last acc < s"
    "rd_selectors n (acc @ [s]) r = Inr (sels, rest)"
    by (auto simp: arr.bind_exact not_le split: if_splits)
  have "sorted_wrt (<) (acc @ [s])"
    using Suc.prems(2) s(3)
    by (cases acc rule: rev_cases) (auto simp: sorted_wrt_append intro: less_trans)
  then show ?case using Suc.IH [OF s(4)] s(1,2) Suc.prems(3) by auto
qed (auto simp: rd_return_Inr)

lemma rd_selectors_read:
  assumes "sorted_wrt (<) (acc @ new)" "\<forall>s\<in>set new. length s = 4"
  shows "rd_selectors (length new) acc (concat new @ rest) = Inr (acc @ new, rest)"
  using assms
proof (induction new arbitrary: acc)
  case (Cons s new)
  then have "acc = [] \<or> last acc < s" by (cases acc rule: rev_cases) (auto simp: sorted_wrt_append)
  then show ?case using Cons by (auto simp: arr.bind_read not_le)
qed (simp add: rd_return_def)

lemma sort_dedup_id: "sorted_wrt (<) sels \<Longrightarrow> remdups_adj (sort sels) = (sels :: bytes list)"
  by (simp add: strict_sorted_iff sorted_sort_id remdups_adj_distinct)

interpretation sel: codec put_selectors "rd_bind rd_len (\<lambda>count. rd_selectors count [])" sorted_selectors
proof (rule codecI)
  show "sorted_selectors x \<and> bs = put_selectors x @ rest"
    if "rd_bind rd_len (\<lambda>count. rd_selectors count []) bs = Inr (x, rest)" for bs x rest
    using that rd_selectors_sound [of _ "[]"]
    by (fastforce simp: len.bind_exact sorted_selectors_def put_selectors_def sort_dedup_id)
  show "rd_bind rd_len (\<lambda>count. rd_selectors count []) (put_selectors x @ rest) = Inr (x, rest)"
    if "sorted_selectors x" for x rest
    using that rd_selectors_read [of "[]" x rest]
    by (simp add: len.bind_read sorted_selectors_def put_selectors_def sort_dedup_id)
qed

lemmas policy_bind_exact = flag.bind_exact role.bind_exact amode.bind_exact esource.bind_exact
  bsource.bind_exact bnet.bind_exact ftag.bind_exact w64.bind_exact w32.bind_exact w128.bind_exact
  arr.bind_exact str.bind_exact tls_opt.bind_exact kms_opt.bind_exact arr_opt.bind_exact
  sel.bind_exact

lemmas policy_bind_read = flag.bind_read role.bind_read [simplified] amode.bind_read [simplified]
  esource.bind_read [simplified] bsource.bind_read [simplified] bnet.bind_read [simplified]
  ftag.bind_read [simplified] w64.bind_read w32.bind_read w128.bind_read
  arr.bind_read str.bind_read tls_opt.bind_read kms_opt.bind_read arr_opt.bind_read
  sel.bind_read

interpretation prod: codec put_production rd_production wf_production
proof (rule codecI)
  show "wf_production p \<and> bs = put_production p @ rest"
    if "rd_production bs = Inr (p, rest)" for bs p rest
    using that unfolding rd_production_def policy_bind_exact rd_return_Inr
    by (elim exE conjE) (simp add: wf_production_def put_production_def)
  show "rd_production (put_production p @ rest) = Inr (p, rest)" if "wf_production p" for p rest
    using that unfolding rd_production_def put_production_def wf_production_def
    by (simp add: policy_bind_read rd_return_def)
qed

fun wf_policy :: "attested_policy \<Rightarrow> bool" where
  "wf_policy (Production p) = wf_production p"
| "wf_policy Development = True"

lemma from_bytes_Inr:
  "from_bytes bs = Inr p \<longleftrightarrow> wf_policy p \<and> bs = to_bytes p"
proof
  assume "from_bytes bs = Inr p"
  then show "wf_policy p \<and> bs = to_bytes p"
    by (auto simp: from_bytes_def and_then_Inr rd_u8_exact prod.exact split: if_splits)
next
  assume wf: "wf_policy p \<and> bs = to_bytes p"
  show "from_bytes bs = Inr p"
  proof (cases p)
    case (Production q)
    then have "rd_production (put_production q) = Inr (q, [])"
      using wf prod.read_back [of q "[]"] by simp
    then show ?thesis using wf Production
      by (simp add: from_bytes_def rd_u8_def rd_bind_def rd_take_def rd_return_def)
  next
    case Development
    then show ?thesis using wf
      by (simp add: from_bytes_def rd_u8_def rd_bind_def rd_take_def rd_return_def)
  qed
qed

text \<open>The order and the repetition of the selectors in the environment are not committed.\<close>

fun normal_policy :: "attested_policy \<Rightarrow> attested_policy" where
  "normal_policy (Production p) =
    Production (p\<lparr>ap_gas_tx_allowed_selectors := remdups_adj (sort (ap_gas_tx_allowed_selectors p))\<rparr>)"
| "normal_policy Development = Development"

lemma sort_dedup_strict: "sorted_wrt (<) (remdups_adj (sort (xs :: bytes list)))"
proof -
  have "sorted ys \<Longrightarrow> sorted_wrt (<) (remdups_adj ys)" for ys :: "bytes list"
  proof (induction ys rule: remdups_adj.induct)
    case (3 x y ys)
    then show ?case by (auto intro: less_le_trans)
  qed simp_all
  then show ?thesis by simp
qed

lemma to_bytes_normal [simp]: "to_bytes (normal_policy p) = to_bytes p"
  by (cases p) (simp_all add: put_production_def put_selectors_def sort_dedup_id [OF sort_dedup_strict])

subsection \<open>Properties\<close>

text \<open>C19: the policy decoder accepts exactly the encodings of well-formed policies (arrays of
  their sizes, valid UTF-8 strings, strictly sorted selectors) and returns the policy that was
  encoded: there is one encoding of every policy and every other byte string is refused.\<close>

theorem policy_decoder_exact:
  "from_bytes bs = Inr p \<longleftrightarrow> wf_policy p \<and> bs = to_bytes p"
  by (rule from_bytes_Inr)


definition demo_production :: "bytes list \<Rightarrow> attested_production" where
  "demo_production selectors =
    \<lparr>ap_allow_vanilla_psbt = False, ap_signer_role = Burn, ap_attestation = Real,
     ap_evm_source = PinnedTlsRpc, ap_btc_source = SpvVerified, ap_chain_id = 42161,
     ap_bitcoin_network = AMainnet, ap_bridge_contract = replicate 20 1, ap_rgb_asset_id = ''rgb:a'',
     ap_funds_in_contract = replicate 20 2, ap_evm_finality_tag = Finalized,
     ap_spv_min_confirmations = 3, ap_electrum_host = ''e.io'', ap_evm_rpc_tls = None,
     ap_gas_tx_allowed_to = replicate 20 3, ap_gas_tx_max_gas_limit = 100,
     ap_gas_tx_max_fee_per_gas = 200, ap_gas_tx_max_value_wei = 0,
     ap_gas_tx_allowed_selectors = selectors, ap_token_contract = replicate 20 4,
     ap_kms = None, ap_clone_peer_pcr3 = Some (replicate 48 7)\<rparr>"


end
