(* ===== verification/Bridge_Config.thy ===== *)
theory Bridge_Config
  imports Attested_Policy Header_Rules
begin

text \<open>
  The bridge configuration read from the environment at boot
  (\<open>enclave/src/config.rs\<close>). The environment is a function from names to values (\<open>None\<close> when
  unset; values are valid UTF-8). \<open>hex_decode\<close> stands for \<open>hex::decode\<close>. A panic at boot is an
  error value: the enclave does not start.
\<close>

subsection \<open>Limits\<close>

definition DEFAULT_MAX_CONSIGNMENT_BYTES :: nat where
  "DEFAULT_MAX_CONSIGNMENT_BYTES = 10 * 1024 * 1024"

definition DEFAULT_MAX_MERKLE_PROOFS :: nat where
  "DEFAULT_MAX_MERKLE_PROOFS = 16384"

definition DEFAULT_MAX_TOTAL_PROOF_BYTES :: nat where
  "DEFAULT_MAX_TOTAL_PROOF_BYTES = 8 * 1024 * 1024"

definition MAX_PSBT_BYTES :: nat where
  "MAX_PSBT_BYTES = 1024 * 1024"

definition check_psbt_size :: "bytes \<Rightarrow> unit enclave_result" where
  "check_psbt_size psbt =
    require (length psbt \<le> MAX_PSBT_BYTES) (CrossCheck ''PSBT exceeds the size limit'')"

definition DEFAULT_SPV_MIN_CONFIRMATIONS :: u32 where "DEFAULT_SPV_MIN_CONFIRMATIONS = 3"
definition DEFAULT_MINT_WITNESS_SAT :: u64 where "DEFAULT_MINT_WITNESS_SAT = 1500"
definition MIN_MINT_WITNESS_SAT :: u64 where "MIN_MINT_WITNESS_SAT = 546"
definition MAX_MINT_WITNESS_SAT :: u64 where "MAX_MINT_WITNESS_SAT = 10000"

subsection \<open>The configuration\<close>

datatype btc_relay_mode = Required | RelayNone

fun attested :: "btc_network \<Rightarrow> attested_network" where
  "attested Mainnet = AMainnet"
| "attested Signet = ASignet"
| "attested SignetCustom = ASignetCustom"
| "attested Testnet3 = ATestnet3"
| "attested Testnet4 = ATestnet4"
| "attested Regtest = ARegtest"

record bridge_config =
  chain_id :: u64
  bridge_contract :: bytes
  rgb_asset_id :: string
  gas_tx_allowed_to :: "bytes option"
  gas_tx_max_gas_limit :: u64
  gas_tx_max_fee_per_gas :: u128
  gas_tx_allowed_selectors :: "bytes list"
  gas_tx_max_value_wei :: "u128 option"
  btc_max_total_sats :: u64
  btc_max_unowned_sats :: u64
  funds_in_contract :: bytes
  cfg_evm_finality_tag :: evm_finality_tag
  token_contract :: bytes
  cfg_bitcoin_network :: attested_network
  cfg_btc_relay_mode :: btc_relay_mode
  max_consignment_bytes :: nat
  max_merkle_proofs :: nat
  max_total_proof_bytes :: nat
  spv_min_confirmations :: u32
  mint_witness_sat :: u64
  endpoints_sha256 :: "bytes option"
  kms_allowed_accounts :: "string list"

definition bridge_config_default :: bridge_config where
  "bridge_config_default =
    \<lparr>chain_id = 0, bridge_contract = replicate 20 0, rgb_asset_id = [],
     gas_tx_allowed_to = None, gas_tx_max_gas_limit = 0, gas_tx_max_fee_per_gas = 0,
     gas_tx_allowed_selectors = [], gas_tx_max_value_wei = None,
     btc_max_total_sats = 0, btc_max_unowned_sats = 0, funds_in_contract = replicate 20 0,
     cfg_evm_finality_tag = Finalized, token_contract = replicate 20 0,
     cfg_bitcoin_network = AMainnet, cfg_btc_relay_mode = Required,
     max_consignment_bytes = DEFAULT_MAX_CONSIGNMENT_BYTES,
     max_merkle_proofs = DEFAULT_MAX_MERKLE_PROOFS,
     max_total_proof_bytes = DEFAULT_MAX_TOTAL_PROOF_BYTES,
     spv_min_confirmations = DEFAULT_SPV_MIN_CONFIRMATIONS,
     mint_witness_sat = DEFAULT_MINT_WITNESS_SAT,
     endpoints_sha256 = None, kms_allowed_accounts = []\<rparr>"

definition is_configured :: "bridge_config \<Rightarrow> bool" where
  "is_configured c \<longleftrightarrow> chain_id c \<noteq> 0 \<and> bridge_contract c \<noteq> replicate 20 0 \<and> rgb_asset_id c \<noteq> []"

definition is_partially_configured :: "bridge_config \<Rightarrow> bool" where
  "is_partially_configured c \<longleftrightarrow>
    (let any = chain_id c \<noteq> 0 \<or> bridge_contract c \<noteq> replicate 20 0 \<or> rgb_asset_id c \<noteq> [] in
     any \<and> \<not> is_configured c)"

definition allows_vanilla_btc :: "bridge_config \<Rightarrow> bool" where
  "allows_vanilla_btc c \<longleftrightarrow> btc_max_total_sats c \<noteq> 0"

definition validate_indexer_only :: "bridge_config \<Rightarrow> (string, unit) result" where
  "validate_indexer_only c =
    and_then (require (cfg_bitcoin_network c = ASignet) ''requires BITCOIN_NETWORK=signet'') (\<lambda>_.
    and_then (require (cfg_btc_relay_mode c = RelayNone) ''requires BTC_RELAY_MODE=none'') (\<lambda>_.
    and_then (require (spv_min_confirmations c \<noteq> 0) ''requires at least one confirmation'') (\<lambda>_.
    and_then (require (case endpoints_sha256 c of None \<Rightarrow> False | Some h \<Rightarrow> h \<noteq> replicate 32 0)
      ''requires a nonzero ENDPOINTS_SHA256 pin'') (\<lambda>_.
    require (is_configured c \<and> funds_in_contract c \<noteq> replicate 20 0 \<and>
             token_contract c \<noteq> replicate 20 0) ''requires all pins''))))"

subsection \<open>Parsers of single values\<close>

definition btc_relay_mode_from_env_value :: "string option \<Rightarrow> btc_relay_mode" where
  "btc_relay_mode_from_env_value value = (case map_option str_trim value of
      None \<Rightarrow> Required
    | Some v \<Rightarrow>
        (if v = [] then Required
         else if eq_ignore_ascii_case v ''required'' then Required
         else if eq_ignore_ascii_case v ''none'' then RelayNone
         else Required))"

text \<open>An unset \<open>EVM_FINALITY_TAG\<close> is \<open>finalized\<close>; the not-Unicode error does not arise for
  valid values.\<close>

definition parse_evm_finality_tag :: "string option \<Rightarrow> evm_finality_tag option" where
  "parse_evm_finality_tag value = (case value of
      Some v \<Rightarrow> finality_tag_from_str v
    | None \<Rightarrow> Some Finalized)"

definition parse_eth_address :: "(string \<Rightarrow> bytes option) \<Rightarrow> string \<Rightarrow> bytes enclave_result" where
  "parse_eth_address hex_decode s =
    (let stripped = (case strip_prefix ''0x'' s of Some t \<Rightarrow> t | None \<Rightarrow> s) in
     and_then (ok_or (hex_decode stripped) (InvalidRequest ''eth address not hex'')) (\<lambda>bytes.
     and_then (require (length bytes = 20) (InvalidRequest ''eth address must decode to 20 bytes'')) (\<lambda>_.
     Inr bytes)))"

definition parse_kms_allowed_accounts :: "string option \<Rightarrow> (string, string list) result" where
  "parse_kms_allowed_accounts value =
    (let ids = filter (\<lambda>id. id \<noteq> []) (map str_trim
                 (str_split (CHR '','') (case value of Some v \<Rightarrow> v | None \<Rightarrow> []))) in
     and_then (require (\<not> list_ex (\<lambda>id. length id \<noteq> 12 \<or> \<not> list_all is_ascii_digit id) ids)
       ''must list 12-digit AWS account ids'') (\<lambda>_. Inr ids))"

definition parse_endpoints_sha256 ::
  "(string \<Rightarrow> bytes option) \<Rightarrow> string option \<Rightarrow> (string, bytes option) result" where
  "parse_endpoints_sha256 hex_decode value = (case value of
      None \<Rightarrow> Inr None
    | Some v \<Rightarrow>
        (if v = [] then Inr None
         else case hex_decode v of
           Some bytes \<Rightarrow> (if length bytes = 32 then Inr (Some bytes)
                         else Inl ''ENDPOINTS_SHA256 must be exactly 64 hex characters'')
         | None \<Rightarrow> Inl ''ENDPOINTS_SHA256 must be exactly 64 hex characters''))"

definition parse_nonzero :: "string \<Rightarrow> nat option" where
  "parse_nonzero s = (case parse_uint 64 s of Some n \<Rightarrow> if n > 0 then Some n else None | None \<Rightarrow> None)"

definition parse_consignment_limit :: "string option \<Rightarrow> (string, nat) result" where
  "parse_consignment_limit value = (case Option.bind value parse_nonzero of
      None \<Rightarrow> Inr DEFAULT_MAX_CONSIGNMENT_BYTES
    | Some n \<Rightarrow> (if n \<le> DEFAULT_MAX_CONSIGNMENT_BYTES then Inr n
                else Inl ''MAX_CONSIGNMENT_BYTES is above the request memory model''))"

definition trimmed :: "string option \<Rightarrow> string option" where
  "trimmed value = Option.bind value (\<lambda>v. if str_trim v = [] then None else Some (str_trim v))"

definition parse_spv_min_confirmations :: "string option \<Rightarrow> (string, u32) result" where
  "parse_spv_min_confirmations value = (case trimmed value of
      None \<Rightarrow> Inr DEFAULT_SPV_MIN_CONFIRMATIONS
    | Some raw \<Rightarrow> (case parse_uint 32 raw of
        Some n \<Rightarrow> if n \<ge> 1 then Inr (of_nat n) else Inl ''SPV_MIN_CONFIRMATIONS is not valid''
      | None \<Rightarrow> Inl ''SPV_MIN_CONFIRMATIONS is not valid''))"

definition parse_mint_witness_sat :: "string option \<Rightarrow> (string, u64) result" where
  "parse_mint_witness_sat value = (case trimmed value of
      None \<Rightarrow> Inr DEFAULT_MINT_WITNESS_SAT
    | Some raw \<Rightarrow> (case parse_uint 64 raw of
        Some n \<Rightarrow> (if unat MIN_MINT_WITNESS_SAT \<le> n \<and> n \<le> unat MAX_MINT_WITNESS_SAT
                   then Inr (of_nat n) else Inl ''MINT_WITNESS_SAT is not valid'')
      | None \<Rightarrow> Inl ''MINT_WITNESS_SAT is not valid''))"

subsection \<open>Loading\<close>

definition parse_selectors :: "(string \<Rightarrow> bytes option) \<Rightarrow> string \<Rightarrow> bytes list" where
  "parse_selectors hex_decode s =
    List.map_filter (\<lambda>part.
        let hexpart = (case strip_prefix ''0x'' part of Some t \<Rightarrow> t | None \<Rightarrow> part) in
        Option.bind (hex_decode hexpart) (\<lambda>bytes. if length bytes = 4 then Some bytes else None))
      (filter (\<lambda>p. p \<noteq> []) (map str_trim (str_split (CHR '','') s)))"

definition ok_opt :: "('e, 'a) result \<Rightarrow> 'a option" where
  "ok_opt r = (case r of Inr x \<Rightarrow> Some x | Inl _ \<Rightarrow> None)"

definition unwrap_or :: "'a option \<Rightarrow> 'a \<Rightarrow> 'a" where
  "unwrap_or r d = (case r of Some x \<Rightarrow> x | None \<Rightarrow> d)"

definition env_word :: "(string \<Rightarrow> string option) \<Rightarrow> string \<Rightarrow> 'a::len word option" where
  "env_word env name = map_option of_nat (Option.bind (env name) (parse_uint LENGTH('a)))"

definition env_address ::
  "(string \<Rightarrow> bytes option) \<Rightarrow> (string \<Rightarrow> string option) \<Rightarrow> string \<Rightarrow> bytes option" where
  "env_address hex_decode env name =
    Option.bind (env name) (\<lambda>s. ok_opt (parse_eth_address hex_decode s))"

definition env_cap :: "(string \<Rightarrow> string option) \<Rightarrow> string \<Rightarrow> nat \<Rightarrow> nat" where
  "env_cap env name dflt = unwrap_or (Option.bind (env name) parse_nonzero) dflt"

definition bitcoin_network_str :: "(string \<Rightarrow> string option) \<Rightarrow> string" where
  "bitcoin_network_str env = unwrap_or (env ''BITCOIN_NETWORK'') ''bitcoin''"

definition from_env ::
  "(string \<Rightarrow> bytes option) \<Rightarrow> (string \<Rightarrow> string option) \<Rightarrow> (string, bridge_config) result" where
  "from_env hex_decode env =
    (let bridge = unwrap_or (env_address hex_decode env ''EVM_PROXY_CONTRACT_ADDRESS'') (replicate 20 0)
     in
     and_then (ok_or (parse_evm_finality_tag (env ''EVM_FINALITY_TAG'')) ''EVM_FINALITY_TAG'') (\<lambda>tag.
     and_then (ok_or (network_from_env_str (bitcoin_network_str env)) ''BITCOIN_NETWORK'') (\<lambda>network.
     and_then (parse_consignment_limit (env ''MAX_CONSIGNMENT_BYTES'')) (\<lambda>consignment.
     and_then (parse_spv_min_confirmations (env ''SPV_MIN_CONFIRMATIONS'')) (\<lambda>confirmations.
     and_then (parse_mint_witness_sat (env ''MINT_WITNESS_SAT'')) (\<lambda>witness_sat.
     and_then (parse_endpoints_sha256 hex_decode (env ''ENDPOINTS_SHA256'')) (\<lambda>endpoints.
     and_then (parse_kms_allowed_accounts (env ''KMS_ALLOWED_ACCOUNT_IDS'')) (\<lambda>accounts.
     Inr
      \<lparr>chain_id = unwrap_or (env_word env ''EVM_CHAIN_ID'') 0,
       bridge_contract = bridge,
       rgb_asset_id = unwrap_or (env ''RGB_ASSET_ID'') [],
       gas_tx_allowed_to = env_address hex_decode env ''GAS_TX_ALLOWED_TO'',
       gas_tx_max_gas_limit = unwrap_or (env_word env ''GAS_TX_MAX_GAS_LIMIT'') 0,
       gas_tx_max_fee_per_gas = unwrap_or (env_word env ''GAS_TX_MAX_FEE_PER_GAS'') 0,
       gas_tx_allowed_selectors =
         (case env ''GAS_TX_ALLOWED_SELECTORS'' of
            Some s \<Rightarrow> parse_selectors hex_decode s | None \<Rightarrow> []),
       gas_tx_max_value_wei =
         env_word (\<lambda>name. map_option str_trim (env name)) ''GAS_TX_MAX_VALUE_WEI'',
       btc_max_total_sats = unwrap_or (env_word env ''BTC_MAX_TOTAL_SATS'') 0,
       btc_max_unowned_sats = unwrap_or (env_word env ''BTC_MAX_UNOWNED_SATS'') 0,
       funds_in_contract = unwrap_or (env_address hex_decode env ''FUNDS_IN_CONTRACT'') bridge,
       cfg_evm_finality_tag = tag,
       token_contract = unwrap_or (env_address hex_decode env ''TOKEN_CONTRACT'') (replicate 20 0),
       cfg_bitcoin_network = attested network,
       cfg_btc_relay_mode = btc_relay_mode_from_env_value (env ''BTC_RELAY_MODE''),
       max_consignment_bytes = consignment,
       max_merkle_proofs = env_cap env ''MAX_MERKLE_PROOFS'' DEFAULT_MAX_MERKLE_PROOFS,
       max_total_proof_bytes = env_cap env ''MAX_TOTAL_PROOF_BYTES'' DEFAULT_MAX_TOTAL_PROOF_BYTES,
       spv_min_confirmations = confirmations,
       mint_witness_sat = witness_sat,
       endpoints_sha256 = endpoints,
       kms_allowed_accounts = accounts\<rparr>))))))))"

subsection \<open>Properties\<close>

lemma parse_nonzero_pos: "parse_nonzero s = Some n \<Longrightarrow> 0 < n"
  by (auto simp: parse_nonzero_def split: option.splits if_splits)

lemma parse_consignment_limit_bounds:
  "parse_consignment_limit v = Inr n \<Longrightarrow> 0 < n \<and> n \<le> DEFAULT_MAX_CONSIGNMENT_BYTES"
  by (auto simp: parse_consignment_limit_def DEFAULT_MAX_CONSIGNMENT_BYTES_def bind_eq_Some_conv
    dest: parse_nonzero_pos split: option.splits if_splits)

lemma of_nat_u32_pos: "0 < k \<Longrightarrow> k < 2 ^ 32 \<Longrightarrow> (of_nat k :: u32) \<noteq> 0"
  by (auto simp: word_of_nat_eq_0_iff dest: nat_dvd_not_less)

lemma parse_spv_min_confirmations_pos: "parse_spv_min_confirmations v = Inr n \<Longrightarrow> n \<noteq> 0"
  using of_nat_u32_pos parse_uint_less [of 32]
  by (auto simp: parse_spv_min_confirmations_def DEFAULT_SPV_MIN_CONFIRMATIONS_def Suc_le_eq
    split: option.splits if_splits)

lemma parse_mint_witness_sat_bounds:
  "parse_mint_witness_sat v = Inr n \<Longrightarrow> MIN_MINT_WITNESS_SAT \<le> n \<and> n \<le> MAX_MINT_WITNESS_SAT"
  by (auto simp: parse_mint_witness_sat_def DEFAULT_MINT_WITNESS_SAT_def MIN_MINT_WITNESS_SAT_def
    MAX_MINT_WITNESS_SAT_def word_le_nat_alt unat_of_nat split: option.splits if_splits)

lemma env_cap_pos: "0 < d \<Longrightarrow> 0 < env_cap env name d"
  by (auto simp: env_cap_def unwrap_or_def bind_eq_Some_conv dest: parse_nonzero_pos split: option.split)

text \<open>C38: no environment makes a limit unsafe. If the configuration loads at all, a burn needs at
  least one confirmation, a witness mint pays between 546 and 10,000 sats, a consignment is bounded
  by the memory model, the proof limits are positive, and the relay check is off only when
  \<open>BTC_RELAY_MODE\<close> says \<open>none\<close>.\<close>

theorem env_never_weakens_limits:
  assumes "from_env hex_decode env = Inr c"
  shows "1 \<le> spv_min_confirmations c \<and> 546 \<le> mint_witness_sat c \<and> mint_witness_sat c \<le> 10000 \<and>
    0 < max_consignment_bytes c \<and> max_consignment_bytes c \<le> 10485760 \<and>
    0 < max_merkle_proofs c \<and> 0 < max_total_proof_bytes c \<and>
    (cfg_btc_relay_mode c = RelayNone \<longrightarrow>
      (\<exists>v. env ''BTC_RELAY_MODE'' = Some v \<and> eq_ignore_ascii_case (str_trim v) ''none''))"
proof -
  have conf: "parse_spv_min_confirmations (env ''SPV_MIN_CONFIRMATIONS'') = Inr (spv_min_confirmations c)"
    and sat: "parse_mint_witness_sat (env ''MINT_WITNESS_SAT'') = Inr (mint_witness_sat c)"
    and cons: "parse_consignment_limit (env ''MAX_CONSIGNMENT_BYTES'') = Inr (max_consignment_bytes c)"
    and caps: "max_merkle_proofs c = env_cap env ''MAX_MERKLE_PROOFS'' DEFAULT_MAX_MERKLE_PROOFS"
      "max_total_proof_bytes c = env_cap env ''MAX_TOTAL_PROOF_BYTES'' DEFAULT_MAX_TOTAL_PROOF_BYTES"
    and relay: "cfg_btc_relay_mode c = btc_relay_mode_from_env_value (env ''BTC_RELAY_MODE'')"
    using assms unfolding from_env_def Let_def and_then_Inr by auto
  have "1 \<le> spv_min_confirmations c"
    using parse_spv_min_confirmations_pos [OF conf] by (simp add: word_le_nat_alt Suc_le_eq unat_gt_0)
  moreover have "cfg_btc_relay_mode c = RelayNone \<longrightarrow>
      (\<exists>v. env ''BTC_RELAY_MODE'' = Some v \<and> eq_ignore_ascii_case (str_trim v) ''none'')"
    unfolding relay by (auto simp: btc_relay_mode_from_env_value_def split: option.splits if_splits)
  ultimately show ?thesis
    using parse_mint_witness_sat_bounds [OF sat] parse_consignment_limit_bounds [OF cons]
    unfolding caps MIN_MINT_WITNESS_SAT_def MAX_MINT_WITNESS_SAT_def DEFAULT_MAX_CONSIGNMENT_BYTES_def
    by (simp add: env_cap_pos DEFAULT_MAX_MERKLE_PROOFS_def DEFAULT_MAX_TOTAL_PROOF_BYTES_def)
qed

theorem env_never_weakens_limits_witness:
  "\<exists>c. from_env (\<lambda>_. None) (\<lambda>n. if n = ''SPV_MIN_CONFIRMATIONS'' then Some ''6'' else None) = Inr c \<and>
    1 \<le> spv_min_confirmations c"
proof -
  let ?env = "\<lambda>n. if n = ''SPV_MIN_CONFIRMATIONS'' then Some ''6'' else None"
  obtain c where c: "from_env (\<lambda>_. None) ?env = Inr c"
    by (simp add: from_env_def parse_evm_finality_tag_def bitcoin_network_str_def unwrap_or_def
      network_from_env_str_def parse_consignment_limit_def parse_spv_min_confirmations_def
      trimmed_def str_trim_def is_ws_def parse_uint_def parse_digits_def is_ascii_digit_def
      digit_value_def parse_mint_witness_sat_def parse_endpoints_sha256_def
      parse_kms_allowed_accounts_def Let_def)
  with env_never_weakens_limits [OF c] show ?thesis by blast
qed

end
