(* ===== verification/Security_Policy.thy ===== *)
theory Security_Policy
  imports Bridge_Config
begin

text \<open>
  The security policy of the enclave (\<open>enclave/src/policy.rs\<close>): how it is resolved from the
  build, the configuration and the launch endpoints, the invariants a production policy must
  satisfy, the boot and launch gates, and the attested form of it. The compile-time constant
  \<open>INDEXER_TRUSTED\<close> is a field of the build context.
\<close>

definition MAINNET_EVM_CHAIN_IDS :: "u64 list" where
  "MAINNET_EVM_CHAIN_IDS = [1, 42161]"

record production_policy =
  pp_chain_id :: u64
  pp_bitcoin_network :: attested_network
  pp_bridge_contract :: bytes
  pp_rgb_asset_id :: string
  pp_funds_in_contract :: bytes
  pp_evm_finality_tag :: evm_finality_tag
  pp_token_contract :: bytes
  pp_spv_min_confirmations :: u32
  pp_btc_relay_required :: bool
  pp_allow_vanilla_psbt :: bool
  pp_signer_role :: signer_role
  pp_attestation :: attestation_mode
  pp_evm_source :: evm_data_source
  pp_electrum_host :: string
  pp_evm_rpc_tls :: "evm_rpc_tls_pin option"
  pp_btc_source :: btc_data_source
  pp_gas_tx_allowed_to :: "bytes option"
  pp_gas_tx_max_gas_limit :: u64
  pp_gas_tx_max_fee_per_gas :: u128
  pp_gas_tx_max_value_wei :: "u128 option"
  pp_gas_tx_allowed_selectors :: "bytes list"
  pp_kms :: "kms_pin option"
  pp_clone_peer_pcr3 :: "bytes option"

datatype dev_reason =
  IndexerTrusted | DebugBuild | MockAttestation | AllowSeedImport | NonBridgeBuild | Unconfigured

datatype security_policy = ProductionPolicy production_policy | DevelopmentPolicy dev_reason

record build_context =
  debug_or_test :: bool
  mock_attestation :: bool
  allow_seed_import :: bool
  rgb_validation :: bool
  ctx_signer_role :: signer_role
  indexer_trusted :: bool

text \<open>\<open>BuildContext::current\<close>, from the features of the build; \<open>INDEXER_TRUSTED\<close> is
  \<open>rgb-validation\<close> without \<open>spv\<close>.\<close>

record build_features =
  f_debug_assertions :: bool
  f_test :: bool
  f_mock_attestation :: bool
  f_allow_seed_import :: bool
  f_rgb_validation :: bool
  f_spv :: bool
  f_mint_signer :: bool
  f_burn_signer :: bool

definition build_context_current :: "build_features \<Rightarrow> build_context" where
  "build_context_current f =
    \<lparr>debug_or_test = (f_debug_assertions f \<or> f_test f),
     mock_attestation = f_mock_attestation f,
     allow_seed_import = f_allow_seed_import f,
     rgb_validation = f_rgb_validation f,
     ctx_signer_role = (if f_mint_signer f then Mint else if f_burn_signer f then Burn else Combined),
     indexer_trusted = (f_rgb_validation f \<and> \<not> f_spv f)\<rparr>"

subsection \<open>Resolution\<close>

definition policy_resolve ::
  "build_context \<Rightarrow> bridge_config \<Rightarrow> evm_data_source \<Rightarrow> evm_rpc_tls_pin option \<Rightarrow> string
    \<Rightarrow> security_policy" where
  "policy_resolve ctx bridge evm_source evm_rpc_tls electrum_host =
    (if rgb_validation ctx \<and> indexer_trusted ctx then
       DevelopmentPolicy (if is_ok (validate_indexer_only bridge) then IndexerTrusted else Unconfigured)
     else if mock_attestation ctx then DevelopmentPolicy MockAttestation
     else if allow_seed_import ctx then DevelopmentPolicy AllowSeedImport
     else if debug_or_test ctx then DevelopmentPolicy DebugBuild
     else if \<not> rgb_validation ctx then DevelopmentPolicy NonBridgeBuild
     else if \<not> is_configured bridge then DevelopmentPolicy Unconfigured
     else
       (let signs_plain_btc = (ctx_signer_role ctx \<noteq> Burn);
            signs_gas_tx = (ctx_signer_role ctx \<noteq> Mint)
        in ProductionPolicy
          \<lparr>pp_chain_id = chain_id bridge, pp_bitcoin_network = cfg_bitcoin_network bridge,
           pp_bridge_contract = bridge_contract bridge, pp_rgb_asset_id = rgb_asset_id bridge,
           pp_funds_in_contract = funds_in_contract bridge,
           pp_evm_finality_tag = cfg_evm_finality_tag bridge,
           pp_token_contract = token_contract bridge,
           pp_spv_min_confirmations = spv_min_confirmations bridge,
           pp_btc_relay_required = (cfg_btc_relay_mode bridge = Required),
           pp_allow_vanilla_psbt = (signs_plain_btc \<and> allows_vanilla_btc bridge),
           pp_signer_role = ctx_signer_role ctx, pp_attestation = Real,
           pp_evm_source = evm_source, pp_electrum_host = electrum_host,
           pp_evm_rpc_tls = evm_rpc_tls, pp_btc_source = SpvVerified,
           pp_gas_tx_allowed_to = (if signs_gas_tx then gas_tx_allowed_to bridge else None),
           pp_gas_tx_max_gas_limit = (if signs_gas_tx then gas_tx_max_gas_limit bridge else 0),
           pp_gas_tx_max_fee_per_gas = (if signs_gas_tx then gas_tx_max_fee_per_gas bridge else 0),
           pp_gas_tx_max_value_wei = (if signs_gas_tx then gas_tx_max_value_wei bridge else None),
           pp_gas_tx_allowed_selectors = (if signs_gas_tx then gas_tx_allowed_selectors bridge else []),
           pp_kms = None, pp_clone_peer_pcr3 = None\<rparr>))"

fun with_clone_peer_pcr3 ::
  "security_policy \<Rightarrow> bytes enclave_result \<Rightarrow> security_policy enclave_result" where
  "with_clone_peer_pcr3 (ProductionPolicy p) read_pcr3 =
    (if role_clones (pp_signer_role p)
     then and_then read_pcr3 (\<lambda>pcr3. Inr (ProductionPolicy (p\<lparr>pp_clone_peer_pcr3 := Some pcr3\<rparr>)))
     else Inr (ProductionPolicy p))"
| "with_clone_peer_pcr3 (DevelopmentPolicy r) read_pcr3 = Inr (DevelopmentPolicy r)"

fun with_kms :: "security_policy \<Rightarrow> kms_pin option \<Rightarrow> security_policy" where
  "with_kms (ProductionPolicy p) kms = ProductionPolicy (p\<lparr>pp_kms := kms\<rparr>)"
| "with_kms (DevelopmentPolicy r) kms = DevelopmentPolicy r"

fun policy_attested :: "security_policy \<Rightarrow> attested_policy" where
  "policy_attested (ProductionPolicy p) = Production
    \<lparr>ap_allow_vanilla_psbt = pp_allow_vanilla_psbt p, ap_signer_role = pp_signer_role p,
     ap_attestation = pp_attestation p, ap_evm_source = pp_evm_source p,
     ap_btc_source = pp_btc_source p, ap_chain_id = pp_chain_id p,
     ap_bitcoin_network = pp_bitcoin_network p, ap_bridge_contract = pp_bridge_contract p,
     ap_rgb_asset_id = pp_rgb_asset_id p, ap_funds_in_contract = pp_funds_in_contract p,
     ap_evm_finality_tag = pp_evm_finality_tag p,
     ap_spv_min_confirmations = pp_spv_min_confirmations p,
     ap_electrum_host = pp_electrum_host p, ap_evm_rpc_tls = pp_evm_rpc_tls p,
     ap_gas_tx_allowed_to = unwrap_or (pp_gas_tx_allowed_to p) (replicate 20 0),
     ap_gas_tx_max_gas_limit = pp_gas_tx_max_gas_limit p,
     ap_gas_tx_max_fee_per_gas = pp_gas_tx_max_fee_per_gas p,
     ap_gas_tx_max_value_wei = unwrap_or (pp_gas_tx_max_value_wei p) 0,
     ap_gas_tx_allowed_selectors = pp_gas_tx_allowed_selectors p,
     ap_token_contract = pp_token_contract p, ap_kms = pp_kms p,
     ap_clone_peer_pcr3 = pp_clone_peer_pcr3 p\<rparr>"
| "policy_attested (DevelopmentPolicy _) = Development"

definition commitment_bytes :: "security_policy \<Rightarrow> bytes" where
  "commitment_bytes p = to_bytes (policy_attested p)"

subsection \<open>Invariants and gates\<close>

definition check_build_invariants :: "production_policy \<Rightarrow> (string, unit) result" where
  "check_build_invariants p =
    and_then (require (\<not> (pp_chain_id p = 0 \<or> pp_bridge_contract p = replicate 20 0 \<or> pp_rgb_asset_id p = []))
      ''missing chain/contract/asset pins'') (\<lambda>_.
    and_then (require (\<not> (pp_chain_id p \<in> set MAINNET_EVM_CHAIN_IDS \<and> pp_bitcoin_network p \<noteq> AMainnet))
      ''mainnet EVM chain requires BITCOIN_NETWORK=bitcoin'') (\<lambda>_.
    and_then (require (pp_funds_in_contract p \<noteq> replicate 20 0) ''zero FundsIn contract'') (\<lambda>_.
    and_then (require (pp_token_contract p \<noteq> replicate 20 0) ''zero TOKEN_CONTRACT'') (\<lambda>_.
    and_then (require (pp_evm_finality_tag p \<noteq> Latest) ''EVM_FINALITY_TAG=latest'') (\<lambda>_.
    and_then (require (pp_spv_min_confirmations p \<noteq> 0) ''SPV_MIN_CONFIRMATIONS'') (\<lambda>_.
    and_then (require (pp_btc_relay_required p) ''BTC_RELAY_MODE=none'') (\<lambda>_.
    and_then (require (pp_attestation p = Real) ''mock attestation'') (\<lambda>_.
    require (pp_btc_source p = SpvVerified) ''not SPV''))))))))"

definition check_invariants :: "production_policy \<Rightarrow> (string, unit) result" where
  "check_invariants p =
    and_then (check_build_invariants p) (\<lambda>_.
    and_then (require (pp_electrum_host p \<noteq> []) ''no Electrum host'') (\<lambda>_.
    and_then (require (pp_evm_source p \<noteq> RawRpc) ''plaintext EVM RPC'') (\<lambda>_.
    and_then (require (\<not> (pp_evm_source p = PinnedTlsRpc \<and> pp_evm_rpc_tls p = None))
      ''pinned TLS EVM source without a pin'') (\<lambda>_.
    case (role_clones (pp_signer_role p), pp_clone_peer_pcr3 p) of
      (True, Some pcr3) \<Rightarrow> require (list_ex (\<lambda>b. b \<noteq> 0) pcr3) ''no clone-peer PCR3''
    | (True, None) \<Rightarrow> Inl ''no clone-peer PCR3''
    | (False, None) \<Rightarrow> Inr ()
    | (False, Some _) \<Rightarrow> Inl ''a role that does not clone has a PCR3''))))"

definition assert_valid_for_build :: "security_policy \<Rightarrow> build_context \<Rightarrow> (string, unit) result" where
  "assert_valid_for_build self ctx =
    (if rgb_validation ctx \<and> indexer_trusted ctx then
       (if self = DevelopmentPolicy IndexerTrusted then Inr ()
        else Inl ''requires a valid public-signet policy'')
     else if debug_or_test ctx \<or> \<not> rgb_validation ctx then Inr ()
     else case self of
       ProductionPolicy p \<Rightarrow> check_invariants p
     | DevelopmentPolicy reason \<Rightarrow> Inl ''non-production security policy'')"

definition assert_valid_at_boot :: "security_policy \<Rightarrow> build_context \<Rightarrow> (string, unit) result" where
  "assert_valid_at_boot self ctx = (case self of
      ProductionPolicy p \<Rightarrow>
        (if \<not> debug_or_test ctx \<and> rgb_validation ctx then check_build_invariants p
         else assert_valid_for_build self ctx)
    | DevelopmentPolicy _ \<Rightarrow> assert_valid_for_build self ctx)"

subsection \<open>What the gates establish\<close>

lemma check_build_invariants_Inr:
  "check_build_invariants p = Inr u \<longleftrightarrow>
    pp_chain_id p \<noteq> 0 \<and> pp_bridge_contract p \<noteq> replicate 20 0 \<and> pp_rgb_asset_id p \<noteq> [] \<and>
    (pp_chain_id p \<in> {1, 42161} \<longrightarrow> pp_bitcoin_network p = AMainnet) \<and>
    pp_funds_in_contract p \<noteq> replicate 20 0 \<and> pp_token_contract p \<noteq> replicate 20 0 \<and>
    pp_evm_finality_tag p \<noteq> Latest \<and> pp_spv_min_confirmations p \<noteq> 0 \<and>
    pp_btc_relay_required p \<and> pp_attestation p = Real"
  unfolding check_build_invariants_def and_then_Inr require_Inr MAINNET_EVM_CHAIN_IDS_def
  by (cases "pp_btc_source p") auto

lemma check_invariants_Inr:
  "check_invariants p = Inr u \<longleftrightarrow> check_build_invariants p = Inr () \<and>
    pp_electrum_host p \<noteq> [] \<and> pp_evm_source p \<noteq> RawRpc \<and>
    (pp_evm_source p = PinnedTlsRpc \<longrightarrow> pp_evm_rpc_tls p \<noteq> None) \<and>
    (if role_clones (pp_signer_role p) then \<exists>x. pp_clone_peer_pcr3 p = Some x \<and> (\<exists>b\<in>set x. b \<noteq> 0)
     else pp_clone_peer_pcr3 p = None)"
  unfolding check_invariants_def and_then_Inr require_Inr
  by (cases "role_clones (pp_signer_role p)"; cases "pp_clone_peer_pcr3 p") (auto simp: list_ex_iff)

text \<open>The policy an enclave launches with: resolved, then the PCR3 of the instance and the KMS
  pin added.\<close>

definition launch_policy ::
  "build_context \<Rightarrow> bridge_config \<Rightarrow> evm_data_source \<Rightarrow> evm_rpc_tls_pin option \<Rightarrow> string
    \<Rightarrow> bytes enclave_result \<Rightarrow> kms_pin option \<Rightarrow> security_policy enclave_result" where
  "launch_policy ctx bridge source tls host read_pcr3 kms =
    and_then (with_clone_peer_pcr3 (policy_resolve ctx bridge source tls host) read_pcr3)
      (\<lambda>p. Inr (with_kms p kms))"


definition demo_config :: bridge_config where
  "demo_config = bridge_config_default\<lparr>chain_id := 42161, bridge_contract := replicate 20 1,
     rgb_asset_id := ''rgb:a'', funds_in_contract := replicate 20 2, token_contract := replicate 20 3\<rparr>"

definition demo_build :: build_context where
  "demo_build = build_context_current \<lparr>f_debug_assertions = False, f_test = False,
     f_mock_attestation = False, f_allow_seed_import = False, f_rgb_validation = True,
     f_spv = True, f_mint_signer = False, f_burn_signer = True\<rparr>"


end
