(* ===== verification/Gas_Tx.thy ===== *)
theory Gas_Tx
  imports Bridge_Config
begin

text \<open>
  The gas-key transaction allowlist (\<open>enclave/src/networks/evm/gas_tx.rs\<close>): the strict
  RLP decoder and the checks on the decoded transaction. \<open>keccak256\<close> is a parameter. A \<open>usize\<close>
  is a 64-bit word where its overflow is checked, and a \<open>nat\<close> where it is the length of a sub_slice.
\<close>

definition TX_TYPE_EIP1559 :: u8 where "TX_TYPE_EIP1559 = 0x02"

definition ONCHAIN_LZ_FUNDS_OUT_CALL_SELECTOR :: bytes where
  "ONCHAIN_LZ_FUNDS_OUT_CALL_SELECTOR = [0x8f, 0x6b, 0x30, 0x31]"

definition MAX_RLP_DEPTH :: nat where "MAX_RLP_DEPTH = 8"
definition MAX_RLP_ITEMS :: nat where "MAX_RLP_ITEMS = 1024"
definition MAX_GAS_TX_BYTES :: nat where "MAX_GAS_TX_BYTES = 1024 * 1024"

abbreviation reject :: "string \<Rightarrow> enclave_error" where
  "reject msg \<equiv> CrossCheck msg"

datatype rlp = RStr bytes | RList "rlp list"

record gas_tx =
  gt_chain_id :: u64
  gt_to :: bytes
  gt_value :: u128
  gt_gas_limit :: u64
  gt_max_fee_per_gas :: u128
  gt_max_priority_fee_per_gas :: u128
  gt_selector :: "bytes option"
  gt_data :: bytes

subsection \<open>The RLP decoder\<close>

text \<open>The length is accumulated in a \<open>usize\<close>: \<open>checked_shl(8)\<close> never fails (8 is less than the
  width) and drops the high byte, and the addition is checked.\<close>

fun accumulate_len :: "u64 \<Rightarrow> bytes \<Rightarrow> u64 enclave_result" where
  "accumulate_len len [] = Inr len"
| "accumulate_len len (b # bs) =
    and_then (ok_or (checked_add (push_bit 8 len) (ucast b)) (reject ''rlp: length exceeds usize''))
      (\<lambda>len. accumulate_len len bs)"

definition read_long_len :: "bytes \<Rightarrow> u8 \<Rightarrow> (u64 \<times> u64) enclave_result" where
  "read_long_len buf len_of_len =
    (let lol = unat len_of_len; header = 1 + lol in
     if length buf < header then Inl (reject ''rlp: length header truncated'')
     else
       (let len_bytes = sub_slice buf 1 header in
        if len_bytes ! 0 = 0 then Inl (reject ''rlp: non-canonical length (leading zero)'')
        else and_then (accumulate_len 0 len_bytes) (\<lambda>len.
          if len \<le> 55 then Inl (reject ''rlp: non-canonical long form for short payload'')
          else Inr (len, of_nat header))))"

function decode_one :: "bytes \<Rightarrow> nat \<Rightarrow> nat \<Rightarrow> (rlp \<times> nat \<times> nat) enclave_result"
  and decode_list :: "bytes \<Rightarrow> nat \<Rightarrow> nat \<Rightarrow> (rlp list \<times> nat) enclave_result" where
  "decode_one buf depth items_left =
    and_then (require (depth \<le> MAX_RLP_DEPTH) (reject ''rlp: nesting too deep'')) (\<lambda>_.
    and_then (require (items_left \<noteq> 0) (reject ''rlp: too many items'')) (\<lambda>_.
    let items_left = items_left - 1 in
    if buf = [] then Inl (reject ''rlp: unexpected end of input'')
    else
      (let b0 = hd buf in
       if b0 \<le> 0x7f then Inr (RStr (take 1 buf), 1, items_left)
       else if b0 \<le> 0xb7 then
         (let len = unat (b0 - 0x80); fin = 1 + len in
          if length buf < fin then Inl (reject ''rlp: short string truncated'')
          else
            (let payload = sub_slice buf 1 fin in
             if len = 1 \<and> payload ! 0 < 0x80
             then Inl (reject ''rlp: non-canonical single-byte string'')
             else Inr (RStr payload, fin, items_left)))
       else if b0 \<le> 0xbf then
         and_then (read_long_len buf (b0 - 0xb7)) (\<lambda>(len, header).
         and_then (ok_or (checked_add header len) (reject ''rlp: length overflow'')) (\<lambda>fin.
         if length buf < unat fin then Inl (reject ''rlp: long string truncated'')
         else Inr (RStr (sub_slice buf (unat header) (unat fin)), unat fin, items_left)))
       else if b0 \<le> 0xf7 then
         (let len = unat (b0 - 0xc0); fin = 1 + len in
          if length buf < fin then Inl (reject ''rlp: short list truncated'')
          else and_then (decode_list (sub_slice buf 1 fin) depth items_left) (\<lambda>(items, items_left).
            Inr (RList items, fin, items_left)))
       else
         and_then (read_long_len buf (b0 - 0xf7)) (\<lambda>(len, header).
         and_then (ok_or (checked_add header len) (reject ''rlp: length overflow'')) (\<lambda>fin.
         if length buf < unat fin then Inl (reject ''rlp: long list truncated'')
         else and_then (decode_list (sub_slice buf (unat header) (unat fin)) depth items_left)
           (\<lambda>(items, items_left). Inr (RList items, unat fin, items_left)))))))"
| "decode_list buf depth items_left =
    (if buf = [] then Inr ([], items_left)
     else and_then (decode_one buf (depth + 1) items_left) (\<lambda>(item, used, items_left).
       and_then (decode_list (drop used buf) depth items_left) (\<lambda>(items, items_left).
       Inr (item # items, items_left))))"
  by pat_completeness auto

lemma unat_one_plus_ucast [simp]: "unat (1 + ucast (l :: u8) :: u64) = Suc (unat l)"
  using unat_byte_lt [of l] by (simp add: unat_word_ariths)

lemma read_long_len_header: "read_long_len buf l = Inr (len, header) \<Longrightarrow> unat header = 1 + unat l"
  by (auto simp: read_long_len_def Let_def and_then_Inr split: if_splits)

lemma decode_one_used_partial:
  assumes "decode_one_decode_list_dom (Inl (buf, depth, items_left))"
    and "decode_one buf depth items_left = Inr (item, used, left')"
  shows "1 \<le> used"
  using assms(2)
  by (auto simp: decode_one.psimps [OF assms(1)] and_then_Inr Let_def checked_add_Some
    dest: read_long_len_header split: if_splits)

termination decode_one
proof (relation "measure (case_sum (\<lambda>(b, _, _). 2 * length b) (\<lambda>(b, _, _). 2 * length b + 1))",
    goal_cases)
  case (3 buf depth items_left _ _ _ _ _ len header fin)
  then have "0 < unat header" by (auto dest: read_long_len_header)
  with 3 show ?case by (simp add: sub_slice_shorter del: length_sub_slice)
qed (auto simp: sub_slice_shorter simp del: length_sub_slice dest: decode_one_used_partial)

declare decode_one.simps [simp del] decode_list.simps [simp del]

definition decode_canonical :: "bytes \<Rightarrow> rlp enclave_result" where
  "decode_canonical buf =
    and_then (decode_one buf 0 MAX_RLP_ITEMS) (\<lambda>(item, used, _).
    if used \<noteq> length buf then Inl (reject ''rlp: trailing bytes after top-level item'')
    else Inr item)"

fun as_list :: "rlp \<Rightarrow> rlp list enclave_result" where
  "as_list (RList v) = Inr v"
| "as_list (RStr _) = Inl (reject ''rlp: expected a list, found a string'')"

fun as_bytes :: "rlp \<Rightarrow> bytes enclave_result" where
  "as_bytes (RStr bytes) = Inr bytes"
| "as_bytes (RList _) = Inl (reject ''rlp: expected a byte string, found a list'')"

fun as_scalar :: "rlp \<Rightarrow> bytes enclave_result" where
  "as_scalar (RStr s) =
    (if s \<noteq> [] \<and> hd s = 0 then Inl (reject ''rlp: non-canonical scalar (leading zero)'') else Inr s)"
| "as_scalar (RList _) = Inl (reject ''rlp: expected a scalar, found a list'')"

definition scalar_u64 :: "rlp \<Rightarrow> u64 enclave_result" where
  "scalar_u64 item = and_then (as_scalar item) (\<lambda>s.
     if 8 < length s then Inl (reject ''rlp: integer exceeds u64'') else Inr (fold_be s))"

definition scalar_u128 :: "rlp \<Rightarrow> u128 enclave_result" where
  "scalar_u128 item = and_then (as_scalar item) (\<lambda>s.
     if 16 < length s then Inl (reject ''gas tx: integer exceeds u128'') else Inr (fold_be s))"

definition scalar_is_zero :: "rlp \<Rightarrow> bool enclave_result" where
  "scalar_is_zero item = and_then (as_scalar item) (\<lambda>s. Inr (s = []))"

fun as_address :: "rlp \<Rightarrow> bytes enclave_result" where
  "as_address (RStr s) =
    (if length s = 20 then Inr s
     else if s = [] then Inl (reject ''gas tx: contract creation (empty to)'')
     else Inl (reject ''gas tx: to must be a 20-byte address''))"
| "as_address (RList _) = Inl (reject ''rlp: expected an address string, found a list'')"

fun as_calldata_selector :: "rlp \<Rightarrow> bytes option enclave_result" where
  "as_calldata_selector (RStr s) =
    (if s = [] then Inr None
     else if 4 \<le> length s then Inr (Some (take 4 s))
     else Inl (reject ''gas tx: calldata is shorter than a 4-byte function selector''))"
| "as_calldata_selector (RList _) = Inl (reject ''rlp: expected calldata string, found a list'')"

subsection \<open>The allowlist\<close>

definition parse_eip1559 :: "bytes \<Rightarrow> gas_tx enclave_result" where
  "parse_eip1559 raw =
    and_then (decode_canonical (drop 1 raw)) (\<lambda>body.
    and_then (as_list body) (\<lambda>items.
    if length items \<noteq> 9 then Inl (reject ''gas tx: EIP-1559 unsigned tx must have 9 fields'')
    else
      and_then (scalar_u64 (items ! 0)) (\<lambda>chain_id.
      and_then (scalar_u128 (items ! 2)) (\<lambda>max_priority_fee_per_gas.
      and_then (scalar_u128 (items ! 3)) (\<lambda>max_fee_per_gas.
      and_then (scalar_u64 (items ! 4)) (\<lambda>gas_limit.
      and_then (as_address (items ! 5)) (\<lambda>to.
      and_then (scalar_u128 (items ! 6)) (\<lambda>value.
      and_then (as_calldata_selector (items ! 7)) (\<lambda>selector.
      and_then (as_bytes (items ! 7)) (\<lambda>data.
      Inr \<lparr>gt_chain_id = chain_id, gt_to = to, gt_value = value, gt_gas_limit = gas_limit,
           gt_max_fee_per_gas = max_fee_per_gas,
           gt_max_priority_fee_per_gas = max_priority_fee_per_gas,
           gt_selector = selector, gt_data = data\<rparr>))))))))))"

definition parse_legacy :: "bytes \<Rightarrow> gas_tx enclave_result" where
  "parse_legacy raw =
    and_then (decode_canonical raw) (\<lambda>body.
    and_then (as_list body) (\<lambda>items.
    if length items \<noteq> 9 then Inl (reject ''gas tx: legacy EIP-155 unsigned tx must have 9 fields'')
    else
      and_then (scalar_is_zero (items ! 7)) (\<lambda>zero7.
      and_then (if \<not> zero7 then Inr True
                else and_then (scalar_is_zero (items ! 8)) (\<lambda>zero8. Inr (\<not> zero8))) (\<lambda>signed.
      if signed then Inl (reject ''gas tx: legacy EIP-155 trailer must be (chainId, 0, 0)'')
      else
        and_then (scalar_u128 (items ! 1)) (\<lambda>gas_price.
        and_then (scalar_u64 (items ! 6)) (\<lambda>chain_id.
        and_then (scalar_u64 (items ! 2)) (\<lambda>gas_limit.
        and_then (as_address (items ! 3)) (\<lambda>to.
        and_then (scalar_u128 (items ! 4)) (\<lambda>value.
        and_then (as_calldata_selector (items ! 5)) (\<lambda>selector.
        and_then (as_bytes (items ! 5)) (\<lambda>data.
        Inr \<lparr>gt_chain_id = chain_id, gt_to = to, gt_value = value, gt_gas_limit = gas_limit,
             gt_max_fee_per_gas = gas_price, gt_max_priority_fee_per_gas = gas_price,
             gt_selector = selector, gt_data = data\<rparr>)))))))))))"

definition parse_gas_tx :: "bytes \<Rightarrow> gas_tx enclave_result" where
  "parse_gas_tx raw =
    (if raw = [] then Inl (reject ''gas tx: empty unsigned_tx'')
     else
       (let first = hd raw in
        if first = TX_TYPE_EIP1559 then parse_eip1559 raw
        else if 0xc0 \<le> first then parse_legacy raw
        else Inl (reject ''gas tx: unsupported envelope'')))"

record sign_raw_digest_request =
  unsigned_tx :: bytes
  wire_digest :: bytes

definition check_gas_value :: "gas_tx \<Rightarrow> bridge_config \<Rightarrow> unit enclave_result" where
  "check_gas_value tx cfg =
    (if gt_value tx = 0 then Inr ()
     else
       and_then (require (starts_with ONCHAIN_LZ_FUNDS_OUT_CALL_SELECTOR (gt_data tx))
         (reject ''gas tx: value must be 0 unless calldata is the payable lzFundsOutCall'')) (\<lambda>_.
       and_then (require (bridge_contract cfg \<noteq> replicate 20 0)
         (reject ''gas tx: non-zero value requires a pinned EVM_PROXY_CONTRACT_ADDRESS'')) (\<lambda>_.
       and_then (require (gt_to tx = bridge_contract cfg)
         (reject ''gas tx: non-zero value is only allowed to the pinned MultisigProxy'')) (\<lambda>_.
       and_then (ok_or (gas_tx_max_value_wei cfg)
         (reject ''gas tx: non-zero value requires a pinned ceiling'')) (\<lambda>max_value.
       require (gt_value tx \<le> max_value)
         (reject ''gas tx: value exceeds pinned GAS_TX_MAX_VALUE_WEI''))))))"

definition validate_gas_tx_request ::
  "(bytes \<Rightarrow> bytes) \<Rightarrow> sign_raw_digest_request \<Rightarrow> bridge_config \<Rightarrow> bytes enclave_result" where
  "validate_gas_tx_request keccak256 req cfg =
    and_then (require (unsigned_tx req \<noteq> []) (reject ''gas tx signing requires the preimage'')) (\<lambda>_.
    and_then (require (length (unsigned_tx req) \<le> MAX_GAS_TX_BYTES) (reject ''gas tx: too large'')) (\<lambda>_.
    and_then (parse_gas_tx (unsigned_tx req)) (\<lambda>tx.
    and_then (require (chain_id cfg \<noteq> 0) (reject ''gas tx: chain_id not pinned'')) (\<lambda>_.
    and_then (require (gt_chain_id tx = chain_id cfg) (reject ''gas tx: chain_id mismatch'')) (\<lambda>_.
    and_then (ok_or (gas_tx_allowed_to cfg) (reject ''gas tx: destination not pinned'')) (\<lambda>allowed.
    and_then (require (gt_to tx = allowed) (reject ''gas tx: destination mismatch'')) (\<lambda>_.
    and_then (check_gas_value tx cfg) (\<lambda>_.
    and_then (require (gas_tx_max_gas_limit cfg \<noteq> 0) (reject ''gas tx: gas-limit cap not pinned'')) (\<lambda>_.
    and_then (require (gas_tx_max_fee_per_gas cfg \<noteq> 0) (reject ''gas tx: fee cap not pinned'')) (\<lambda>_.
    and_then (require (gt_gas_limit tx \<le> gas_tx_max_gas_limit cfg)
      (reject ''gas tx: gasLimit exceeds pinned cap'')) (\<lambda>_.
    and_then (require (gt_max_fee_per_gas tx \<le> gas_tx_max_fee_per_gas cfg)
      (reject ''gas tx: maxFeePerGas exceeds pinned cap'')) (\<lambda>_.
    and_then (require (gt_max_priority_fee_per_gas tx \<le> gas_tx_max_fee_per_gas cfg)
      (reject ''gas tx: maxPriorityFeePerGas exceeds pinned cap'')) (\<lambda>_.
    and_then (case gt_selector tx of
        Some selector \<Rightarrow> require (selector \<in> set (gas_tx_allowed_selectors cfg))
          (reject ''gas tx: selector is not in the operator allowlist'')
      | None \<Rightarrow> Inl (reject ''gas tx: empty calldata is not permitted'')) (\<lambda>_.
    let digest = keccak256 (unsigned_tx req) in
    if wire_digest req \<noteq> [] \<and> wire_digest req \<noteq> digest
    then Inl (reject ''gas tx: supplied digest does not match keccak256(unsigned_tx)'')
    else Inr digest))))))))))))))"

subsection \<open>Reference encoding\<close>

text \<open>The canonical RLP encoding: minimal big-endian lengths, a byte below \<open>0x80\<close> as itself.\<close>

fun be_min :: "nat \<Rightarrow> bytes" where
  "be_min n = (if n = 0 then [] else be_min (n div 256) @ [of_nat n])"

declare be_min.simps [simp del]

definition rlp_header :: "nat \<Rightarrow> nat \<Rightarrow> bytes" where
  "rlp_header off len =
    (if len \<le> 55 then [of_nat (off + len)]
     else (let l = be_min len in of_nat (off + 55 + length l) # l))"

fun rlp_encode :: "rlp \<Rightarrow> bytes" where
  "rlp_encode (RStr s) =
    (if length s = 1 \<and> hd s < 0x80 then s else rlp_header 0x80 (length s) @ s)"
| "rlp_encode (RList items) =
    (let body = concat (map rlp_encode items) in rlp_header 0xc0 (length body) @ body)"

fun rlp_items :: "rlp \<Rightarrow> nat" where
  "rlp_items (RStr s) = 1"
| "rlp_items (RList items) = 1 + sum_list (map rlp_items items)"

fun rlp_fits :: "nat \<Rightarrow> rlp \<Rightarrow> bool" where
  "rlp_fits d (RStr s) = (d \<le> MAX_RLP_DEPTH)"
| "rlp_fits d (RList items) = (d \<le> MAX_RLP_DEPTH \<and> (\<forall>x\<in>set items. rlp_fits (d + 1) x))"

subsection \<open>Lengths\<close>

lemma be_min_pos: "0 < n \<Longrightarrow> be_min n = be_min (n div 256) @ [of_nat n]"
  by (subst be_min.simps) simp

lemma be_min_0 [simp]: "be_min 0 = []"
  by (subst be_min.simps) simp

lemma be_nat_be_min [simp]: "be_nat (be_min n) = n"
proof (induction n rule: be_min.induct)
  case (1 n)
  then show ?case by (cases "n = 0") (simp_all add: be_min_pos)
qed

lemma be_min_nonempty [simp]: "be_min n = [] \<longleftrightarrow> n = 0"
  by (cases "n = 0") (simp_all add: be_min_pos)

lemma hd_be_min: "0 < n \<Longrightarrow> hd (be_min n) \<noteq> 0"
proof (induction n rule: be_min.induct)
  case (1 n)
  show ?case
  proof (cases "n div 256 = 0")
    case True
    with 1 show ?thesis by (auto simp: be_min_pos word_of_nat_eq_0_iff div_eq_0_iff dest: nat_dvd_not_less)
  next
    case False
    with 1 have "hd (be_min (n div 256)) \<noteq> 0" by simp
    with False 1(2) show ?thesis by (simp add: be_min_pos [of n] hd_append)
  qed
qed

lemma be_min_be_nat: "bs \<noteq> [] \<Longrightarrow> hd bs \<noteq> 0 \<Longrightarrow> be_min (be_nat bs) = bs"
proof (induction bs rule: rev_induct)
  case (snoc b bs)
  have d: "(be_nat bs * 256 + unat b) div 256 = be_nat bs" using unat_byte_lt [of b] by simp
  have w: "(of_nat (be_nat bs * 256 + unat b) :: u8) = b"
    by (simp add: word_unat_eq_iff mod_less [OF unat_byte_lt] del: of_nat_add of_nat_mult)
  have pos: "0 < be_nat bs * 256 + unat b"
  proof (cases bs)
    case Nil
    then show ?thesis using snoc.prems by (simp add: unat_gt_0)
  next
    case (Cons c cs)
    then have "0 < be_nat bs" using snoc.prems by (simp add: be_nat_Cons unat_gt_0)
    then show ?thesis by simp
  qed
  have "be_min (be_nat bs) = bs"
    using snoc by (cases bs) simp_all
  then show ?case using d w be_min_pos [OF pos] by simp
qed simp

lemma length_be_min_bound:
  assumes "n < 256 ^ k"
  shows "length (be_min n) \<le> k"
  using assms
proof (induction k arbitrary: n)
  case (Suc k)
  then show ?case
    by (cases "n = 0") (simp_all add: be_min_pos less_mult_imp_div_less mult.commute)
qed simp

lemma accumulate_len_value:
  "unat v * 256 ^ length bs + be_nat bs < 2 ^ 64 \<Longrightarrow>
   accumulate_len v bs = Inr (of_nat (unat v * 256 ^ length bs + be_nat bs))"
proof (induction bs arbitrary: v)
  case (Cons b bs)
  have le: "unat v * 256 + unat b \<le> (unat v * 256 + unat b) * 256 ^ length bs" by simp
  also have "\<dots> \<le> unat v * 256 ^ length (b # bs) + be_nat (b # bs)"
    by (simp add: be_nat_Cons algebra_simps)
  finally have lt: "unat v * 256 + unat b < 2 ^ 64" using Cons.prems by simp
  have sh: "unat (push_bit 8 v) = unat v * 256"
    using lt by (simp add: push_bit_eq_mult unat_word_ariths)
  have add: "checked_add (push_bit 8 v) (ucast b) = Some (push_bit 8 v + ucast b)"
    "unat (push_bit 8 v + ucast b :: u64) = unat v * 256 + unat b"
    using lt sh by (auto simp: checked_add_def unat_add_lem [THEN iffD1])
  then show ?case
    using Cons.IH [of "push_bit 8 v + ucast b"] Cons.prems
    by (simp add: be_nat_Cons algebra_simps)
qed simp

lemma accumulate_len_be: "length bs \<le> 8 \<Longrightarrow> accumulate_len 0 bs = Inr (of_nat (be_nat bs))"
  "length bs \<le> 8 \<Longrightarrow> be_nat bs < 2 ^ 64"
proof -
  assume "length bs \<le> 8"
  then have "(256 :: nat) ^ length bs \<le> 256 ^ 8" by (intro power_increasing) simp_all
  then show "be_nat bs < 2 ^ 64" using be_nat_less [of bs] by simp
  then show "accumulate_len 0 bs = Inr (of_nat (be_nat bs))" using accumulate_len_value [of 0 bs] by simp
qed

lemma read_long_len_Inr:
  assumes "1 \<le> unat l" "unat l \<le> 8"
  shows "read_long_len buf l = Inr (len, header) \<longleftrightarrow>
    header = of_nat (1 + unat l) \<and> 55 < unat len \<and> length (be_min (unat len)) = unat l \<and>
    (\<exists>b rest. buf = b # be_min (unat len) @ rest)"
proof (cases "length buf < 1 + unat l")
  case True
  then show ?thesis by (auto simp: read_long_len_def)
next
  case False
  then obtain b tl0 where buf: "buf = b # tl0" "unat l \<le> length tl0" by (cases buf) auto
  define bs where "bs = take (unat l) tl0"
  then have bs: "length bs = unat l" "bs \<noteq> []" "tl0 = bs @ drop (unat l) tl0" "length bs \<le> 8"
    using buf assms by auto
  have sl: "sub_slice buf 1 (1 + unat l) = bs" by (simp add: buf sub_slice_def bs_def)
  have acc: "accumulate_len 0 bs = Inr (of_nat (be_nat bs))" "unat (of_nat (be_nat bs) :: u64) = be_nat bs"
    using accumulate_len_be bs by (simp_all add: unat_of_nat)
  have hd: "bs ! 0 = hd bs" using bs by (simp add: hd_conv_nth)
  have "read_long_len buf l = Inr (len, header) \<longleftrightarrow>
    hd bs \<noteq> 0 \<and> 55 < be_nat bs \<and> len = of_nat (be_nat bs) \<and> header = of_nat (1 + unat l)"
    using False sl acc hd by (auto simp: read_long_len_def Let_def word_le_nat_alt)
  also have "\<dots> \<longleftrightarrow> header = of_nat (1 + unat l) \<and> 55 < unat len \<and>
      length (be_min (unat len)) = unat l \<and> be_min (unat len) = bs"
  proof -
    have "len = of_nat (be_nat bs) \<longleftrightarrow> unat len = be_nat bs"
      using acc(2) by (metis word_unat_eq_iff)
    moreover have "be_nat bs = 0 \<or> hd bs = 0 \<or> be_min (be_nat bs) = bs" using be_min_be_nat bs by blast
    moreover have "be_min (unat len) = bs \<Longrightarrow> 0 < unat len \<Longrightarrow> hd bs \<noteq> 0 \<and> unat len = be_nat bs"
      using hd_be_min [of "unat len"] be_nat_be_min [of "unat len"] by auto
    ultimately show ?thesis using bs by auto
  qed
  also have "\<dots> \<longleftrightarrow> header = of_nat (1 + unat l) \<and> 55 < unat len \<and>
      length (be_min (unat len)) = unat l \<and> (\<exists>b rest. buf = b # be_min (unat len) @ rest)"
    using buf bs by (metis append_eq_append_conv list.inject)
  finally show ?thesis .
qed

subsection \<open>The decoder accepts exactly the canonical encodings\<close>

lemma rlp_header_short:
  assumes "len \<le> 55" "off \<in> {0x80, 0xc0}"
  obtains h where "rlp_header off len = [h]" "unat h = off + len"
  using assms that [of "of_nat (off + len)"] by (auto simp: rlp_header_def unat_of_nat simp del: of_nat_add)

lemma rlp_header_long:
  assumes "55 < len" "len < 2 ^ 64" "off \<in> {0x80, 0xc0}"
  obtains h where "rlp_header off len = h # be_min len"
    "unat h = off + 55 + length (be_min len)" "1 \<le> length (be_min len)" "length (be_min len) \<le> 8"
proof -
  have "length (be_min len) \<le> 8" using assms(2) by (intro length_be_min_bound) simp
  moreover have "1 \<le> length (be_min len)" using assms(1) by (cases "be_min len") simp_all
  ultimately show ?thesis
    using assms that [of "of_nat (off + 55 + length (be_min len))"]
    by (auto simp: rlp_header_def Let_def unat_of_nat simp del: of_nat_add)
qed

lemma unat_byte_diff: "c \<le> b \<Longrightarrow> unat (b - c) = unat b - unat (c :: u8)"
  by (simp add: unat_sub word_le_nat_alt)

lemma rlp_header_of_short_byte:
  assumes "of_nat off \<le> b" "unat (b - of_nat off) \<le> 55"
  shows "rlp_header off (unat (b - of_nat off)) = [b]"
  using assms by (simp add: rlp_header_def)

lemma rlp_header_of_long_byte:
  assumes "of_nat (off + 55) \<le> b" "1 \<le> unat (b - of_nat (off + 55))" "unat (b - of_nat (off + 55)) \<le> 8"
    and "read_long_len buf (b - of_nat (off + 55)) = Inr (len, header)" "buf = b # rest"
  shows "rlp_header off (unat len) @ drop (unat header) buf = buf"
    "length (rlp_header off (unat len)) = unat header" "55 < unat len"
proof -
  let ?l = "b - of_nat (off + 55)"
  from assms(4) have r: "header = of_nat (1 + unat ?l)" "55 < unat len"
    "length (be_min (unat len)) = unat ?l" "\<exists>c rest'. buf = c # be_min (unat len) @ rest'"
    unfolding read_long_len_Inr [OF assms(2,3)] by auto
  have uh: "unat header = Suc (unat ?l)" using r(1) assms(3) by (simp add: unat_of_nat del: of_nat_Suc of_nat_add)
  have h: "rlp_header off (unat len) = b # be_min (unat len)"
    using r(2,3) by (simp add: rlp_header_def Let_def)
  show "55 < unat len" by (fact r(2))
  show "length (rlp_header off (unat len)) = unat header" using h r(3) uh by simp
  show "rlp_header off (unat len) @ drop (unat header) buf = buf"
    using h r(3,4) uh assms(5) by auto
qed

lemma decode_byte:
  assumes "d \<le> MAX_RLP_DEPTH" "i \<noteq> 0" "b < 0x80"
  shows "decode_one (b # rest) d i = Inr (RStr [b], 1, i - 1)"
  using assms by (simp add: decode_one.simps word_less_nat_alt word_le_nat_alt)

lemma long_header_read:
  assumes "55 < len" "1 + length (be_min len) + len < 2 ^ 64" "off \<in> {0x80, 0xc0}"
  obtains h header fin where "rlp_header off len = h # be_min len"
    "off + 55 < unat h" "unat h \<le> off + 63"
    "\<And>rest. read_long_len (h # be_min len @ rest) (h - of_nat (off + 55)) = Inr (of_nat len, header)"
    "unat header = 1 + length (be_min len)"
    "checked_add header (of_nat len) = Some fin" "unat fin = 1 + length (be_min len) + len"
proof -
  obtain h where h: "rlp_header off len = h # be_min len" "unat h = off + 55 + length (be_min len)"
    "1 \<le> length (be_min len)" "length (be_min len) \<le> 8"
    using assms by (elim rlp_header_long) auto
  let ?l = "h - of_nat (off + 55)" and ?header = "of_nat (1 + length (be_min len)) :: u64"
  have "unat ?l = unat h - unat (of_nat (off + 55) :: u8)"
    using h(2,4) assms(3) by (intro unat_byte_diff) (auto simp: word_le_nat_alt unat_of_nat)
  then have l: "unat ?l = length (be_min len)"
    using h(2,4) assms(3) by (auto simp: unat_of_nat simp del: of_nat_add)
  have len: "unat (of_nat len :: u64) = len" using assms(2) by (simp add: unat_of_nat)
  have hd: "unat ?header = 1 + length (be_min len)"
    using h(4) by (simp add: unat_of_nat del: of_nat_Suc of_nat_add)
  have rd: "read_long_len (h # be_min len @ rest) ?l = Inr (of_nat len, ?header)" for rest
    using h l len assms(1) by (subst read_long_len_Inr) auto
  show thesis
    by (rule that [OF h(1) _ _ rd hd, where fin = "?header + of_nat len"])
      (use h assms(1,2) hd len in \<open>auto simp: checked_add_def unat_add_lem [THEN iffD1] simp del: of_nat_Suc of_nat_add\<close>)
qed

lemma short_header_read:
  assumes "len \<le> 55" "off \<in> {0x80, 0xc0}"
  obtains h where "rlp_header off len = [h]" "off \<le> unat h" "unat h \<le> off + 55"
    "unat (h - of_nat off) = len"
proof -
  obtain h where h: "rlp_header off len = [h]" "unat h = off + len"
    using assms by (elim rlp_header_short) auto
  have "unat (h - of_nat off) = unat h - unat (of_nat off :: u8)"
    using h assms by (intro unat_byte_diff) (auto simp: word_le_nat_alt unat_of_nat)
  with h assms show thesis by (intro that [of h]) auto
qed

lemma decode_string:
  assumes "d \<le> MAX_RLP_DEPTH" "i \<noteq> 0" "\<not> (length s = 1 \<and> hd s < 0x80)"
    and "length (rlp_header 0x80 (length s) @ s @ rest) < 2 ^ 64"
  shows "decode_one (rlp_header 0x80 (length s) @ s @ rest) d i =
    Inr (RStr s, length (rlp_header 0x80 (length s)) + length s, i - 1)"
proof (cases "length s \<le> 55")
  case True
  then obtain h where h: "rlp_header 0x80 (length s) = [h]" "0x80 \<le> unat h" "unat h \<le> 0x80 + 55"
    "unat (h - of_nat 0x80) = length s"
    by (rule short_header_read [where off = "0x80"]) auto
  have "length s = 1 \<Longrightarrow> \<not> s ! 0 < 0x80" using assms(3) by (cases s) simp_all
  then show ?thesis using assms h True
    by (simp add: decode_one.simps word_le_nat_alt sub_slice_def Let_def)
next
  case False
  have small: "1 + length (be_min (length s)) + length s < 2 ^ 64"
    using False assms(4) by (simp add: rlp_header_def Let_def)
  obtain h header fin where h: "rlp_header 0x80 (length s) = h # be_min (length s)"
    "0x80 + 55 < unat h" "unat h \<le> 0x80 + 63"
    "\<And>rest. read_long_len (h # be_min (length s) @ rest) (h - of_nat (0x80 + 55)) =
       Inr (of_nat (length s), header)"
    "unat header = 1 + length (be_min (length s))"
    "checked_add header (of_nat (length s)) = Some fin"
    "unat fin = 1 + length (be_min (length s)) + length s"
    by (rule long_header_read [of "length s" "0x80"]) (use False small in auto)
  then show ?thesis using assms(1,2)
    by (simp add: decode_one.simps word_le_nat_alt sub_slice_def Let_def)
qed

lemma decode_rlp_list:
  assumes "d \<le> MAX_RLP_DEPTH" "i \<noteq> 0"
    and "length (rlp_header 0xc0 (length body) @ body @ rest) < 2 ^ 64"
  shows "decode_one (rlp_header 0xc0 (length body) @ body @ rest) d i =
    and_then (decode_list body d (i - 1)) (\<lambda>(items, left').
      Inr (RList items, length (rlp_header 0xc0 (length body)) + length body, left'))"
proof (cases "length body \<le> 55")
  case True
  then obtain h where h: "rlp_header 0xc0 (length body) = [h]" "0xc0 \<le> unat h" "unat h \<le> 0xc0 + 55"
    "unat (h - of_nat 0xc0) = length body"
    by (rule short_header_read [where off = "0xc0"]) auto
  then show ?thesis using assms True
    by (simp add: decode_one.simps word_le_nat_alt sub_slice_def Let_def)
next
  case False
  have small: "1 + length (be_min (length body)) + length body < 2 ^ 64"
    using False assms(3) by (simp add: rlp_header_def Let_def)
  obtain h header fin where h: "rlp_header 0xc0 (length body) = h # be_min (length body)"
    "0xc0 + 55 < unat h" "unat h \<le> 0xc0 + 63"
    "\<And>rest. read_long_len (h # be_min (length body) @ rest) (h - of_nat (0xc0 + 55)) =
       Inr (of_nat (length body), header)"
    "unat header = 1 + length (be_min (length body))"
    "checked_add header (of_nat (length body)) = Some fin"
    "unat fin = 1 + length (be_min (length body)) + length body"
    by (rule long_header_read [of "length body" "0xc0"]) (use False small in auto)
  then show ?thesis using assms(1,2)
    by (simp add: decode_one.simps word_le_nat_alt sub_slice_def Let_def)
qed

lemma rlp_header_nonempty [simp]: "rlp_header off len \<noteq> []"
  by (simp add: rlp_header_def Let_def)

lemma rlp_encode_nonempty [simp]: "rlp_encode it \<noteq> []"
  by (cases it) (auto simp: Let_def)

lemma rlp_items_pos [simp]: "0 < rlp_items it"
  by (cases it) auto

lemma rlp_encode_RList: "rlp_encode (RList items) =
    rlp_header 0xc0 (length (concat (map rlp_encode items))) @ concat (map rlp_encode items)"
  by (simp add: Let_def)

lemma decode_list_complete:
  assumes "\<And>x j rest. x \<in> set items \<Longrightarrow> rlp_items x \<le> j \<Longrightarrow> length (rlp_encode x @ rest) < 2 ^ 64 \<Longrightarrow>
      decode_one (rlp_encode x @ rest) (d + 1) j = Inr (x, length (rlp_encode x), j - rlp_items x)"
    and "sum_list (map rlp_items items) \<le> i" "length (concat (map rlp_encode items)) < 2 ^ 64"
  shows "decode_list (concat (map rlp_encode items)) d i = Inr (items, i - sum_list (map rlp_items items))"
  using assms
proof (induction items arbitrary: i)
  case (Cons x xs)
  have "decode_one (rlp_encode x @ concat (map rlp_encode xs)) (d + 1) i =
      Inr (x, length (rlp_encode x), i - rlp_items x)"
    using Cons.prems by simp
  moreover have "decode_list (concat (map rlp_encode xs)) d (i - rlp_items x) =
      Inr (xs, i - rlp_items x - sum_list (map rlp_items xs))"
    using Cons.prems by (intro Cons.IH) simp_all
  ultimately show ?case by (subst decode_list.simps) simp
qed (simp add: decode_list.simps)

lemma decode_complete:
  "rlp_fits d it \<Longrightarrow> rlp_items it \<le> i \<Longrightarrow> length (rlp_encode it @ rest) < 2 ^ 64 \<Longrightarrow>
   decode_one (rlp_encode it @ rest) d i = Inr (it, length (rlp_encode it), i - rlp_items it)"
proof (induction it arbitrary: d i rest)
  case (RStr s)
  show ?case
  proof (cases "length s = 1 \<and> hd s < 0x80")
    case True
    then obtain b where "s = [b]" by (cases s) auto
    with True RStr show ?thesis by (simp add: decode_byte)
  next
    case False
    then have "decode_one (rlp_header 128 (length s) @ s @ rest) d i =
        Inr (RStr s, length (rlp_header 128 (length s)) + length s, i - 1)"
      using RStr by (intro decode_string) auto
    with False show ?thesis by (auto simp del: One_nat_def)
  qed
next
  case (RList items)
  let ?body = "concat (map rlp_encode items)"
  have "decode_list ?body d (i - 1) = Inr (items, i - 1 - sum_list (map rlp_items items))"
    using RList by (intro decode_list_complete) (auto simp: rlp_encode_RList simp del: rlp_encode.simps)
  moreover have "decode_one (rlp_header 0xc0 (length ?body) @ ?body @ rest) d i =
      and_then (decode_list ?body d (i - 1)) (\<lambda>(items, left').
        Inr (RList items, length (rlp_header 0xc0 (length ?body)) + length ?body, left'))"
    using RList.prems by (intro decode_rlp_list) (auto simp: rlp_encode_RList simp del: rlp_encode.simps)
  ultimately show ?case by (simp add: rlp_encode_RList del: rlp_encode.simps)
qed

lemma short_form:
  assumes "buf = b # rest" "of_nat off \<le> b" "unat b \<le> off + 55" "off \<in> {0x80, 0xc0}"
    and "\<not> length buf < 1 + unat (b - of_nat off)"
  shows "buf = rlp_header off (length (sub_slice buf 1 (1 + unat (b - of_nat off)))) @
      sub_slice buf 1 (1 + unat (b - of_nat off)) @ drop (1 + unat (b - of_nat off)) buf"
    "length (sub_slice buf 1 (1 + unat (b - of_nat off))) = unat (b - of_nat off)"
    "rlp_header off (unat (b - of_nat off)) = [b]"
proof -
  have "unat (b - of_nat off) = unat b - unat (of_nat off :: u8)"
    using assms(2) by (rule unat_byte_diff)
  also have "\<dots> \<le> 55" using assms(3,4) by auto
  finally show h: "rlp_header off (unat (b - of_nat off)) = [b]"
    using assms(2) by (intro rlp_header_of_short_byte)
  show l: "length (sub_slice buf 1 (1 + unat (b - of_nat off))) = unat (b - of_nat off)"
    using assms(1,5) by simp
  show "buf = rlp_header off (length (sub_slice buf 1 (1 + unat (b - of_nat off)))) @
      sub_slice buf 1 (1 + unat (b - of_nat off)) @ drop (1 + unat (b - of_nat off)) buf"
    unfolding l h using assms(1,5) by (simp add: sub_slice_def)
qed

lemma long_form:
  assumes "buf = b # rest" "off + 55 < unat b" "unat b \<le> off + 63" "off \<in> {0x80, 0xc0}"
    and "read_long_len buf (b - of_nat (off + 55)) = Inr (len, header)"
    and "checked_add header len = Some fin" "\<not> length buf < unat fin"
  shows "buf = rlp_header off (length (sub_slice buf (unat header) (unat fin))) @
      sub_slice buf (unat header) (unat fin) @ drop (unat fin) buf"
    "length (sub_slice buf (unat header) (unat fin)) = unat len"
    "length (rlp_header off (unat len)) + unat len = unat fin" "1 < unat len"
proof -
  have o: "unat (of_nat (off + 55) :: u8) = off + 55" using assms(4) by (auto simp: unat_of_nat)
  then have le: "of_nat (off + 55) \<le> b" using assms(2) by (simp add: word_le_nat_alt)
  have "unat (b - of_nat (off + 55)) = unat b - (off + 55)" using unat_byte_diff [OF le] o by simp
  then have l: "1 \<le> unat (b - of_nat (off + 55))" "unat (b - of_nat (off + 55)) \<le> 8"
    using assms(2,3) by simp_all
  note h = rlp_header_of_long_byte [OF le l assms(5,1)]
  have fin: "unat fin = unat header + unat len" using assms(6) unfolding checked_add_Some by blast
  show len: "length (sub_slice buf (unat header) (unat fin)) = unat len" using fin assms(7) by simp
  show "length (rlp_header off (unat len)) + unat len = unat fin" "1 < unat len"
    using h fin by simp_all
  show "buf = rlp_header off (length (sub_slice buf (unat header) (unat fin))) @
      sub_slice buf (unat header) (unat fin) @ drop (unat fin) buf"
    unfolding len using h(1) fin
    by (metis add.commute append_take_drop_id diff_add_inverse drop_drop sub_slice_def)
qed

lemma decode_one_shape:
  assumes "decode_one buf d i = Inr (it, used, left')"
  shows "d \<le> MAX_RLP_DEPTH \<and> i \<noteq> 0 \<and>
    ((\<exists>b rest. buf = b # rest \<and> b < 0x80 \<and> it = RStr [b] \<and> used = 1 \<and> left' = i - 1) \<or>
     (\<exists>s rest. buf = rlp_header 0x80 (length s) @ s @ rest \<and> \<not> (length s = 1 \<and> hd s < 0x80) \<and>
        it = RStr s \<and> used = length (rlp_header 0x80 (length s)) + length s \<and> left' = i - 1) \<or>
     (\<exists>body items rest. buf = rlp_header 0xc0 (length body) @ body @ rest \<and>
        decode_list body d (i - 1) = Inr (items, left') \<and> it = RList items \<and>
        used = length (rlp_header 0xc0 (length body)) + length body))"
proof -
  have pre: "d \<le> MAX_RLP_DEPTH" "i \<noteq> 0" "buf \<noteq> []"
    using assms by (auto simp: decode_one.simps and_then_Inr Let_def split: if_splits)
  then obtain b rest where buf: "buf = b # rest" by (cases buf) auto
  note dec = assms [unfolded decode_one.simps [of buf] Let_def and_then_Inr]
  have hd: "hd buf = b" using buf by simp
  consider (byte) "unat b \<le> 0x7f" | (sstr) "0x80 \<le> unat b" "unat b \<le> 0xb7"
    | (lstr) "0xb8 \<le> unat b" "unat b \<le> 0xbf"
    | (slist) "0xc0 \<le> unat b" "unat b \<le> 0xf7" | (llist) "0xf8 \<le> unat b" by linarith
  then show ?thesis
  proof cases
    case byte
    then show ?thesis using dec pre buf by (auto simp: word_le_nat_alt word_less_nat_alt)
  next
    case sstr
    let ?s = "sub_slice buf 1 (1 + unat (b - 0x80))"
    have len: "\<not> length buf < 1 + unat (b - 0x80)" and s: "\<not> (unat (b - 0x80) = 1 \<and> ?s ! 0 < 0x80)"
      and it: "it = RStr ?s" "used = 1 + unat (b - 0x80)" "left' = i - 1"
      using dec sstr hd pre by (auto simp: word_le_nat_alt split: if_splits)
    note f = short_form [OF buf, of "0x80"]
    have "buf = rlp_header 0x80 (length ?s) @ ?s @ drop (1 + unat (b - 0x80)) buf"
      "length ?s = unat (b - 0x80)" "rlp_header 0x80 (length ?s) = [b]"
      using f sstr len by (simp_all add: word_le_nat_alt)
    moreover have "length ?s = 1 \<Longrightarrow> hd ?s = ?s ! 0"
      by (rule hd_conv_nth) (metis length_0_conv zero_neq_one)
    ultimately show ?thesis using it s pre by (metis length_Cons list.size(3) One_nat_def)
  next
    case lstr
    obtain len header fin where r: "read_long_len buf (b - 0xb7) = Inr (len, header)"
      "checked_add header len = Some fin" "\<not> length buf < unat fin"
      "it = RStr (sub_slice buf (unat header) (unat fin))" "used = unat fin" "left' = i - 1"
      using dec lstr hd pre by (auto simp: word_le_nat_alt and_then_Inr split: if_splits)
    from long_form [OF buf, of "0x80" len header fin] lstr r show ?thesis using pre by auto
  next
    case slist
    let ?s = "sub_slice buf 1 (1 + unat (b - 0xc0))"
    obtain items where len: "\<not> length buf < 1 + unat (b - 0xc0)"
      and it: "decode_list ?s d (i - 1) = Inr (items, left')" "it = RList items" "used = 1 + unat (b - 0xc0)"
      using dec slist hd pre by (auto simp: word_le_nat_alt and_then_Inr split: if_splits)
    note f = short_form [OF buf, of "0xc0"]
    have "buf = rlp_header 0xc0 (length ?s) @ ?s @ drop (1 + unat (b - 0xc0)) buf"
      "length ?s = unat (b - 0xc0)" "rlp_header 0xc0 (length ?s) = [b]"
      using f slist len by (simp_all add: word_le_nat_alt)
    then show ?thesis using it pre by (metis length_Cons list.size(3) One_nat_def)
  next
    case llist
    have "unat b \<le> 0xff" using unat_byte_lt [of b] by simp
    obtain len header fin items where r: "read_long_len buf (b - 0xf7) = Inr (len, header)"
      "checked_add header len = Some fin" "\<not> length buf < unat fin"
      "decode_list (sub_slice buf (unat header) (unat fin)) d (i - 1) = Inr (items, left')"
      "it = RList items" "used = unat fin"
      using dec llist hd pre by (auto simp: word_le_nat_alt and_then_Inr split: if_splits)
    let ?s = "sub_slice buf (unat header) (unat fin)"
    have "buf = rlp_header 0xc0 (length ?s) @ ?s @ drop (unat fin) buf"
      "unat fin = length (rlp_header 0xc0 (length ?s)) + length ?s"
      using long_form [OF buf, of "0xc0" len header fin] llist \<open>unat b \<le> 0xff\<close> r(1-3) by simp_all
    then show ?thesis using pre r(4-6) by metis
  qed
qed

lemma decode_sound:
  "(decode_one buf d i = Inr (it, used, left') \<longrightarrow>
      1 \<le> used \<and> used \<le> length buf \<and> take used buf = rlp_encode it \<and> rlp_fits d it \<and>
      i = left' + rlp_items it) \<and>
   (decode_list buf d i = Inr (items, left') \<longrightarrow>
      buf = concat (map rlp_encode items) \<and> (\<forall>x\<in>set items. rlp_fits (d + 1) x) \<and>
      i = left' + sum_list (map rlp_items items))"
proof (induction "length buf" arbitrary: buf d i it used left' items rule: less_induct)
  case less
  have one: "1 \<le> used \<and> used \<le> length buf \<and> take used buf = rlp_encode it \<and> rlp_fits d it \<and>
      i = left' + rlp_items it" if "decode_one buf d i = Inr (it, used, left')" for d i it used left'
    using decode_one_shape [OF that]
  proof (elim conjE disjE exE)
    fix body items rest
    assume b: "buf = rlp_header 0xc0 (length body) @ body @ rest" "d \<le> MAX_RLP_DEPTH" "i \<noteq> 0"
      "decode_list body d (i - 1) = Inr (items, left')" "it = RList items"
      "used = length (rlp_header 0xc0 (length body)) + length body"
    have h: "1 \<le> length (rlp_header 0xc0 (length body))"
      by (metis One_nat_def Suc_leI length_greater_0_conv rlp_header_nonempty)
    then have "length body < length buf" using b(1) by simp
    from less [OF this] b(4) have "body = concat (map rlp_encode items)"
      "\<forall>x\<in>set items. rlp_fits (d + 1) x" "i - 1 = left' + sum_list (map rlp_items items)" by blast+
    then show ?thesis using b h by (auto simp: rlp_encode_RList simp del: rlp_encode.simps)
  next
    fix s rest
    assume s: "buf = rlp_header 0x80 (length s) @ s @ rest"
      "used = length (rlp_header 0x80 (length s)) + length s"
      "\<not> (length s = 1 \<and> hd s < 0x80)" "it = RStr s" "d \<le> MAX_RLP_DEPTH" "i \<noteq> 0" "left' = i - 1"
    have "1 \<le> length (rlp_header 0x80 (length s))"
      by (metis One_nat_def Suc_leI length_greater_0_conv rlp_header_nonempty)
    with s show ?thesis by auto
  qed auto
  have "buf = concat (map rlp_encode items) \<and> (\<forall>x\<in>set items. rlp_fits (d + 1) x) \<and>
      i = left' + sum_list (map rlp_items items)"
    if l: "decode_list buf d i = Inr (items, left')"
  proof (cases "buf = []")
    case True
    with l show ?thesis by (simp add: decode_list.simps)
  next
    case False
    then obtain x u j xs where x: "decode_one buf (d + 1) i = Inr (x, u, j)"
      "decode_list (drop u buf) d j = Inr (xs, left')" "items = x # xs"
      using l by (subst (asm) decode_list.simps) (auto simp: and_then_Inr)
    note o = one [OF x(1)]
    then have "length (drop u buf) < length buf" using False by simp
    from less [OF this] x(2) have "drop u buf = concat (map rlp_encode xs)"
      "\<forall>y\<in>set xs. rlp_fits (d + 1) y" "j = left' + sum_list (map rlp_items xs)" by blast+
    with o x(3) show ?thesis by simp (metis append_take_drop_id)
  qed
  with one show ?case by blast
qed

lemma decode_canonical_Inr:
  assumes "length buf < 2 ^ 64"
  shows "decode_canonical buf = Inr it \<longleftrightarrow>
    buf = rlp_encode it \<and> rlp_fits 0 it \<and> rlp_items it \<le> MAX_RLP_ITEMS"
proof
  assume "decode_canonical buf = Inr it"
  then obtain used left' where "decode_one buf 0 MAX_RLP_ITEMS = Inr (it, used, left')" "used = length buf"
    by (auto simp: decode_canonical_def and_then_Inr split: if_splits)
  with decode_sound [of buf 0 MAX_RLP_ITEMS it used left' "[]"]
  show "buf = rlp_encode it \<and> rlp_fits 0 it \<and> rlp_items it \<le> MAX_RLP_ITEMS" by auto
next
  assume "buf = rlp_encode it \<and> rlp_fits 0 it \<and> rlp_items it \<le> MAX_RLP_ITEMS"
  then show "decode_canonical buf = Inr it"
    using decode_complete [of 0 it MAX_RLP_ITEMS "[]"] assms by (simp add: decode_canonical_def)
qed

subsection \<open>Fields\<close>

fun field_bytes :: "rlp \<Rightarrow> bytes" where
  "field_bytes (RStr s) = s"
| "field_bytes (RList _) = []"

lemma scalar_u64_Inr:
  "scalar_u64 it = Inr v \<Longrightarrow> \<exists>s. it = RStr s \<and> unat v = be_nat s"
proof -
  assume "scalar_u64 it = Inr v"
  then obtain s where s: "it = RStr s" "length s \<le> 8" "v = fold_be s"
    by (cases it) (auto simp: scalar_u64_def and_then_Inr split: if_splits)
  then have "(256 :: nat) ^ length s \<le> 256 ^ 8" by (intro power_increasing) simp_all
  then show ?thesis using s by (simp add: unat_fold_be)
qed

lemma scalar_u128_Inr:
  "scalar_u128 it = Inr v \<Longrightarrow> \<exists>s. it = RStr s \<and> unat v = be_nat s"
proof -
  assume "scalar_u128 it = Inr v"
  then obtain s where s: "it = RStr s" "length s \<le> 16" "v = fold_be s"
    by (cases it) (auto simp: scalar_u128_def and_then_Inr split: if_splits)
  then have "(256 :: nat) ^ length s \<le> 256 ^ 16" by (intro power_increasing) simp_all
  then show ?thesis using s by (simp add: unat_fold_be)
qed

lemma as_address_Inr: "as_address it = Inr a \<Longrightarrow> it = RStr a \<and> length a = 20"
  by (cases it) (auto split: if_splits)

lemma as_bytes_Inr: "as_bytes it = Inr s \<longleftrightarrow> it = RStr s"
  by (cases it) auto

lemma scalar_is_zero_Inr: "scalar_is_zero it = Inr True \<longleftrightarrow> it = RStr []"
  by (cases it) (auto simp: scalar_is_zero_def and_then_Inr)

text \<open>The numbers and bytes that an unsigned transaction carries, by the positions of its fields:
  chain id, fee, priority fee, gas limit, destination, value and data.\<close>

record tx_layout =
  at_chain :: nat
  at_fee :: nat
  at_priority :: nat
  at_gas :: nat
  at_to :: nat
  at_value :: nat
  at_data :: nat

definition layout_1559 :: tx_layout where
  "layout_1559 = \<lparr>at_chain = 0, at_fee = 3, at_priority = 2, at_gas = 4, at_to = 5, at_value = 6, at_data = 7\<rparr>"

definition layout_legacy :: tx_layout where
  "layout_legacy = \<lparr>at_chain = 6, at_fee = 1, at_priority = 1, at_gas = 2, at_to = 3, at_value = 4, at_data = 5\<rparr>"

definition tx_num :: "rlp list \<Rightarrow> nat \<Rightarrow> nat" where
  "tx_num items k = be_nat (field_bytes (items ! k))"

text \<open>The unsigned transaction with these fields, as the signed bytes.\<close>

definition is_unsigned_tx :: "bytes \<Rightarrow> tx_layout \<Rightarrow> rlp list \<Rightarrow> bool" where
  "is_unsigned_tx raw ly items \<longleftrightarrow> length items = 9 \<and>
    (raw = TX_TYPE_EIP1559 # rlp_encode (RList items) \<and> ly = layout_1559 \<or>
     raw = rlp_encode (RList items) \<and> ly = layout_legacy \<and> items ! 7 = RStr [] \<and> items ! 8 = RStr [])"

lemma parse_gas_tx_fields:
  assumes "parse_gas_tx raw = Inr tx" "length raw < 2 ^ 64"
  obtains ly items where "is_unsigned_tx raw ly items"
    "unat (gt_chain_id tx) = tx_num items (at_chain ly)"
    "gt_to tx = field_bytes (items ! at_to ly)" "length (gt_to tx) = 20"
    "unat (gt_value tx) = tx_num items (at_value ly)"
    "unat (gt_gas_limit tx) = tx_num items (at_gas ly)"
    "unat (gt_max_fee_per_gas tx) = tx_num items (at_fee ly)"
    "unat (gt_max_priority_fee_per_gas tx) = tx_num items (at_priority ly)"
    "gt_data tx = field_bytes (items ! at_data ly)"
    "\<forall>sel. gt_selector tx = Some sel \<longrightarrow> 4 \<le> length (gt_data tx) \<and> sel = take 4 (gt_data tx)"
proof (cases "hd raw = TX_TYPE_EIP1559")
  case True
  then have p: "parse_eip1559 raw = Inr tx" "raw \<noteq> []"
    using assms(1) by (auto simp: parse_gas_tx_def Let_def split: if_splits)
  then obtain items where items: "decode_canonical (drop 1 raw) = Inr (RList items)" "length items = 9"
    and f: "scalar_u64 (items ! 0) = Inr (gt_chain_id tx)"
      "scalar_u128 (items ! 2) = Inr (gt_max_priority_fee_per_gas tx)"
      "scalar_u128 (items ! 3) = Inr (gt_max_fee_per_gas tx)"
      "scalar_u64 (items ! 4) = Inr (gt_gas_limit tx)" "as_address (items ! 5) = Inr (gt_to tx)"
      "scalar_u128 (items ! 6) = Inr (gt_value tx)"
      "as_calldata_selector (items ! 7) = Inr (gt_selector tx)"
      "as_bytes (items ! 7) = Inr (gt_data tx)"
    unfolding parse_eip1559_def and_then_Inr
    by (auto elim!: as_list.elims simp: and_then_Inr split: if_splits)
  have "raw = TX_TYPE_EIP1559 # rlp_encode (RList items)"
    using items(1) True p(2) assms(2) by (cases raw) (auto simp: decode_canonical_Inr simp del: rlp_encode.simps)
  then have "is_unsigned_tx raw layout_1559 items" using items(2) by (simp add: is_unsigned_tx_def)
  then show thesis
    using scalar_u64_Inr [OF f(1)] scalar_u128_Inr [OF f(2)] scalar_u128_Inr [OF f(3)]
      scalar_u64_Inr [OF f(4)] as_address_Inr [OF f(5)] scalar_u128_Inr [OF f(6)] f(7,8)
    by (intro that [of layout_1559 items])
      (auto simp: layout_1559_def tx_num_def as_bytes_Inr split: if_splits)
next
  case False
  then have p: "parse_legacy raw = Inr tx" "raw \<noteq> []"
    using assms(1) by (auto simp: parse_gas_tx_def Let_def split: if_splits)
  then obtain items where items: "decode_canonical raw = Inr (RList items)" "length items = 9"
      "scalar_is_zero (items ! 7) = Inr True" "scalar_is_zero (items ! 8) = Inr True"
    and f: "scalar_u128 (items ! 1) = Inr (gt_max_priority_fee_per_gas tx)"
      "gt_max_fee_per_gas tx = gt_max_priority_fee_per_gas tx"
      "scalar_u64 (items ! 6) = Inr (gt_chain_id tx)"
      "scalar_u64 (items ! 2) = Inr (gt_gas_limit tx)" "as_address (items ! 3) = Inr (gt_to tx)"
      "scalar_u128 (items ! 4) = Inr (gt_value tx)"
      "as_calldata_selector (items ! 5) = Inr (gt_selector tx)"
      "as_bytes (items ! 5) = Inr (gt_data tx)"
    unfolding parse_legacy_def and_then_Inr
    by (auto elim!: as_list.elims simp: and_then_Inr split: if_splits)
  have "is_unsigned_tx raw layout_legacy items"
    using items assms(2) by (auto simp: is_unsigned_tx_def decode_canonical_Inr scalar_is_zero_Inr simp del: rlp_encode.simps)
  then show thesis
    using scalar_u128_Inr [OF f(1)] f(2) scalar_u64_Inr [OF f(3)] scalar_u64_Inr [OF f(4)]
      as_address_Inr [OF f(5)] scalar_u128_Inr [OF f(6)] f(7,8)
    by (intro that [of layout_legacy items])
      (auto simp: layout_legacy_def tx_num_def as_bytes_Inr split: if_splits)
qed

subsection \<open>Properties\<close>

lemma validate_gas_tx_request_Inr:
  "validate_gas_tx_request K req cfg = Inr digest \<longleftrightarrow>
    (\<exists>tx selector. unsigned_tx req \<noteq> [] \<and> length (unsigned_tx req) \<le> MAX_GAS_TX_BYTES \<and>
      parse_gas_tx (unsigned_tx req) = Inr tx \<and> chain_id cfg \<noteq> 0 \<and> gt_chain_id tx = chain_id cfg \<and>
      gas_tx_allowed_to cfg = Some (gt_to tx) \<and> check_gas_value tx cfg = Inr () \<and>
      gas_tx_max_gas_limit cfg \<noteq> 0 \<and> gas_tx_max_fee_per_gas cfg \<noteq> 0 \<and>
      gt_gas_limit tx \<le> gas_tx_max_gas_limit cfg \<and>
      gt_max_fee_per_gas tx \<le> gas_tx_max_fee_per_gas cfg \<and>
      gt_max_priority_fee_per_gas tx \<le> gas_tx_max_fee_per_gas cfg \<and>
      gt_selector tx = Some selector \<and> selector \<in> set (gas_tx_allowed_selectors cfg) \<and>
      digest = K (unsigned_tx req) \<and> (wire_digest req = [] \<or> wire_digest req = digest))"
  unfolding validate_gas_tx_request_def and_then_Inr require_Inr ok_or_Inr Let_def
  by (auto split: option.splits if_splits)

lemma check_gas_value_Inr:
  "check_gas_value tx cfg = Inr u \<longleftrightarrow> gt_value tx = 0 \<or>
    (starts_with ONCHAIN_LZ_FUNDS_OUT_CALL_SELECTOR (gt_data tx) \<and> bridge_contract cfg \<noteq> replicate 20 0 \<and>
     gt_to tx = bridge_contract cfg \<and> (\<exists>m. gas_tx_max_value_wei cfg = Some m \<and> gt_value tx \<le> m))"
  by (auto simp: check_gas_value_def and_then_Inr)

text \<open>C24: the RLP decoder accepts a byte string exactly when it is the canonical encoding of the
  item it returns, nested at most 8 deep with at most 1024 items: no second encoding of an item
  and no trailing byte is accepted, and every canonical encoding within the limits is.\<close>

theorem rlp_decoder_exact:
  assumes "length buf < 2 ^ 64"
  shows "decode_canonical buf = Inr item \<longleftrightarrow>
    buf = rlp_encode item \<and> rlp_fits 0 item \<and> rlp_items item \<le> 1024"
  using decode_canonical_Inr [OF assms] by (simp add: MAX_RLP_ITEMS_def)

theorem rlp_decoder_exact_witness:
  "decode_canonical [0xc3, 0x01, 0x81, 0x80] = Inr (RList [RStr [0x01], RStr [0x80]])"
  using rlp_decoder_exact [of "[0xc3, 0x01, 0x81, 0x80]" "RList [RStr [0x01], RStr [0x80]]"]
  by (simp add: rlp_header_def MAX_RLP_DEPTH_def)

text \<open>C13: the gas key signs only the hash of an unsigned EIP-1559 or EIP-155 transaction whose own
  fields obey the pins: the pinned chain and destination, an allowlisted selector, gas and fees
  within the caps, and a value of zero unless it is the payable call to the pinned proxy within the
  pinned ceiling. So one signature spends at most the gas cap times the fee cap plus that ceiling.\<close>

theorem gas_tx_within_allowlist:
  assumes "validate_gas_tx_request K req cfg = Inr digest"
  shows "digest = K (unsigned_tx req) \<and>
    (\<exists>ly items. is_unsigned_tx (unsigned_tx req) ly items \<and>
      tx_num items (at_chain ly) = unat (chain_id cfg) \<and>
      gas_tx_allowed_to cfg = Some (field_bytes (items ! at_to ly)) \<and>
      4 \<le> length (field_bytes (items ! at_data ly)) \<and>
      take 4 (field_bytes (items ! at_data ly)) \<in> set (gas_tx_allowed_selectors cfg) \<and>
      tx_num items (at_priority ly) \<le> unat (gas_tx_max_fee_per_gas cfg) \<and>
      tx_num items (at_gas ly) * tx_num items (at_fee ly)
        \<le> unat (gas_tx_max_gas_limit cfg) * unat (gas_tx_max_fee_per_gas cfg) \<and>
      (tx_num items (at_value ly) = 0 \<or>
       starts_with ONCHAIN_LZ_FUNDS_OUT_CALL_SELECTOR (field_bytes (items ! at_data ly)) \<and>
       field_bytes (items ! at_to ly) = bridge_contract cfg \<and>
       (\<exists>m. gas_tx_max_value_wei cfg = Some m \<and> tx_num items (at_value ly) \<le> unat m)))"
proof -
  obtain tx selector where v: "length (unsigned_tx req) \<le> MAX_GAS_TX_BYTES"
    "parse_gas_tx (unsigned_tx req) = Inr tx" "gt_chain_id tx = chain_id cfg"
    "gas_tx_allowed_to cfg = Some (gt_to tx)" "check_gas_value tx cfg = Inr ()"
    "gt_gas_limit tx \<le> gas_tx_max_gas_limit cfg" "gt_max_fee_per_gas tx \<le> gas_tx_max_fee_per_gas cfg"
    "gt_max_priority_fee_per_gas tx \<le> gas_tx_max_fee_per_gas cfg"
    "gt_selector tx = Some selector" "selector \<in> set (gas_tx_allowed_selectors cfg)"
    "digest = K (unsigned_tx req)"
    using assms unfolding validate_gas_tx_request_Inr by blast
  have len: "length (unsigned_tx req) < 2 ^ 64" using v(1) by (simp add: MAX_GAS_TX_BYTES_def)
  obtain ly items where f:
    "is_unsigned_tx (unsigned_tx req) ly items"
    "unat (gt_chain_id tx) = tx_num items (at_chain ly)"
    "gt_to tx = field_bytes (items ! at_to ly)" "length (gt_to tx) = 20"
    "unat (gt_value tx) = tx_num items (at_value ly)"
    "unat (gt_gas_limit tx) = tx_num items (at_gas ly)"
    "unat (gt_max_fee_per_gas tx) = tx_num items (at_fee ly)"
    "unat (gt_max_priority_fee_per_gas tx) = tx_num items (at_priority ly)"
    "gt_data tx = field_bytes (items ! at_data ly)"
    "\<forall>sel. gt_selector tx = Some sel \<longrightarrow> 4 \<le> length (gt_data tx) \<and> sel = take 4 (gt_data tx)"
    by (rule parse_gas_tx_fields [OF v(2) len])
  have caps: "tx_num items (at_gas ly) * tx_num items (at_fee ly)
      \<le> unat (gas_tx_max_gas_limit cfg) * unat (gas_tx_max_fee_per_gas cfg)"
    "tx_num items (at_priority ly) \<le> unat (gas_tx_max_fee_per_gas cfg)"
    using v(6-8) unfolding word_le_nat_alt f(6-8) by (simp_all add: mult_le_mono)
  have chain: "tx_num items (at_chain ly) = unat (chain_id cfg)" using f(2) v(3) by simp
  have sel: "4 \<le> length (field_bytes (items ! at_data ly))"
    "take 4 (field_bytes (items ! at_data ly)) \<in> set (gas_tx_allowed_selectors cfg)"
    using f(10) v(9,10) unfolding f(9) by simp_all
  have "tx_num items (at_value ly) = 0 \<or>
       starts_with ONCHAIN_LZ_FUNDS_OUT_CALL_SELECTOR (field_bytes (items ! at_data ly)) \<and>
       field_bytes (items ! at_to ly) = bridge_contract cfg \<and>
       (\<exists>m. gas_tx_max_value_wei cfg = Some m \<and> tx_num items (at_value ly) \<le> unat m)"
    using v(5) unfolding check_gas_value_Inr word_le_nat_alt f(3,9) f(5) [symmetric] by auto
  with f(1) chain v(4,11) sel caps show ?thesis unfolding f(3) by blast
qed

definition demo_gas_config :: bridge_config where
  "demo_gas_config = bridge_config_default\<lparr>chain_id := 5, gas_tx_allowed_to := Some (replicate 20 7),
     gas_tx_max_gas_limit := 100, gas_tx_max_fee_per_gas := 50, gas_tx_allowed_selectors := [[1, 2, 3, 4]]\<rparr>"

text \<open>An EIP-1559 transaction: chain 5, nonce 0, fees 1 and 2, gas 9, value 0, data 01020304.\<close>

definition demo_gas_tx :: bytes where
  "demo_gas_tx = 0x02 # 0xe1 # [0x05, 0x80, 0x01, 0x02, 0x09, 0x94] @ replicate 20 7 @
     [0x80, 0x84, 1, 2, 3, 4, 0xc0]"

lemma demo_gas_tx_decodes:
  "decode_canonical (drop 1 demo_gas_tx) = Inr (RList [RStr [5], RStr [], RStr [1], RStr [2], RStr [9],
     RStr (replicate 20 7), RStr [], RStr [1, 2, 3, 4], RList []])"
  by (subst decode_canonical_Inr)
    (simp_all add: demo_gas_tx_def rlp_header_def Let_def MAX_RLP_DEPTH_def MAX_RLP_ITEMS_def)

lemma demo_gas_tx_accepted:
  "validate_gas_tx_request (\<lambda>x. take 1 x) \<lparr>unsigned_tx = demo_gas_tx, wire_digest = []\<rparr> demo_gas_config =
   Inr [0x02]"
proof -
  have "hd demo_gas_tx = 2" "demo_gas_tx \<noteq> []" "take 1 demo_gas_tx = [2]" "length demo_gas_tx \<le> MAX_GAS_TX_BYTES"
    by (simp_all add: demo_gas_tx_def MAX_GAS_TX_BYTES_def)
  then show ?thesis
    using demo_gas_tx_decodes
    by (simp add: validate_gas_tx_request_def demo_gas_config_def bridge_config_default_def
      parse_gas_tx_def TX_TYPE_EIP1559_def parse_eip1559_def scalar_u64_def scalar_u128_def
      fold_be_def check_gas_value_def Let_def)
qed

theorem gas_tx_within_allowlist_witness:
  "\<exists>ly items. is_unsigned_tx demo_gas_tx ly items \<and> tx_num items (at_chain ly) = 5"
  using gas_tx_within_allowlist [OF demo_gas_tx_accepted]
  by (auto simp: demo_gas_config_def)

end
