(* ===== verification/Ber_Der.thy ===== *)
theory Ber_Der
  imports Signer_Prelude
begin

text \<open>
  Conversion of the KMS recipient envelope from BER to DER (\<open>enclave/src/kms/ber.rs\<close>): the
  parser of tag-length-value trees with definite and indefinite lengths, the joining of chunked
  strings, and the encoder. The three loops of \<open>parse\<close> are recursive functions on the bytes that
  remain; the parser is total because every value takes at least two bytes.
\<close>

definition MAX_DEPTH :: nat where "MAX_DEPTH = 16"
definition MAX_TAG_BYTES :: nat where "MAX_TAG_BYTES = 4"
definition MAX_LENGTH_BYTES :: nat where "MAX_LENGTH_BYTES = 4"
definition UNIVERSAL_OCTET_STRING :: u8 where "UNIVERSAL_OCTET_STRING = 0x04"
definition CONSTRUCTED :: u8 where "CONSTRUCTED = 0x20"
definition CLASS_MASK :: u8 where "CLASS_MASK = 0xC0"
definition CLASS_CONTEXT :: u8 where "CLASS_CONTEXT = 0x80"

datatype ber_node = BNode (node_tag: bytes) (node_body: ber_body)
  and ber_body = Primitive bytes | Constructed "ber_node list"

subsection \<open>Tags and lengths\<close>

text \<open>The loop over the continuation bytes of a long tag; the result is the offset after the tag.
  \<open>fuel\<close> is the number of bytes the tag may still have, so that running out of it is the refusal
  of a tag longer than \<open>MAX_TAG_BYTES\<close>.\<close>

fun tag_end :: "nat \<Rightarrow> bytes \<Rightarrow> nat \<Rightarrow> nat option" where
  "tag_end fuel input offset =
    (if length input \<le> offset then None
     else case fuel of
       0 \<Rightarrow> None
     | Suc f \<Rightarrow> (if (input ! offset) AND 0x80 = 0 then Some (offset + 1)
                 else tag_end f input (offset + 1)))"

declare tag_end.simps [simp del]

definition parse_tag :: "bytes \<Rightarrow> nat option" where
  "parse_tag input =
    (if (input ! 0) AND 0x1F = 0x1F then tag_end (MAX_TAG_BYTES - 1) input 1 else Some 1)"

text \<open>The length octets at \<open>offset\<close>: the length (\<open>None\<close> when indefinite) and the offset after them.\<close>

definition parse_length :: "bytes \<Rightarrow> nat \<Rightarrow> (nat option \<times> nat) option" where
  "parse_length input offset =
    (if length input \<le> offset then None
     else
       (let l = input ! offset; offset = offset + 1 in
        if l < 0x80 then Some (Some (unat l), offset)
        else if l = 0x80 then Some (None, offset)
        else
          (let n = unat (l AND 0x7F) in
           if MAX_LENGTH_BYTES < n then None
           else if length input < offset + n then None
           else
             (let bytes = sub_slice input offset (offset + n) in
              if bytes ! 0 = 0 then None
              else Some (Some (unat (fold_be bytes :: u64)), offset + n)))))"

fun is_chunk :: "ber_node \<Rightarrow> bool" where
  "is_chunk (BNode tag (Primitive _)) = (tag = [UNIVERSAL_OCTET_STRING])"
| "is_chunk (BNode tag (Constructed _)) = False"

fun chunk_bytes :: "ber_node \<Rightarrow> bytes" where
  "chunk_bytes (BNode tag (Primitive bytes)) = bytes"
| "chunk_bytes (BNode tag (Constructed _)) = []"

fun joined :: "ber_node \<Rightarrow> ber_node" where
  "joined (BNode tag (Primitive bytes)) = BNode tag (Primitive bytes)"
| "joined (BNode tag (Constructed children)) =
    (let first = tag ! 0;
         eligible = (length tag = 1 \<and>
           (first = (UNIVERSAL_OCTET_STRING OR CONSTRUCTED) \<or> first AND CLASS_MASK = CLASS_CONTEXT));
         all_chunks = (children \<noteq> [] \<and> list_all is_chunk children)
     in if \<not> (eligible \<and> all_chunks) then BNode tag (Constructed children)
        else BNode [first AND NOT CONSTRUCTED] (Primitive (concat (map chunk_bytes children))))"

subsection \<open>The parser\<close>

text \<open>\<open>parse_children\<close> is the loop over a definite content, \<open>parse_until_eoc\<close> the loop up to the
  end-of-contents octets; the latter also returns the bytes it used.\<close>

function parse :: "bytes \<Rightarrow> nat \<Rightarrow> (ber_node \<times> nat) option"
  and parse_children :: "bytes \<Rightarrow> nat \<Rightarrow> ber_node list option"
  and parse_until_eoc :: "bytes \<Rightarrow> nat \<Rightarrow> (ber_node list \<times> nat) option" where
  "parse input depth =
    (if MAX_DEPTH < depth \<or> length input < 2 then None
     else Option.bind (parse_tag input) (\<lambda>tag_len.
       let tag = take tag_len input;
           constructed = ((input ! 0) AND CONSTRUCTED \<noteq> 0)
       in Option.bind (parse_length input tag_len) (\<lambda>(len, offset).
         case (len, constructed) of
           (Some len, False) \<Rightarrow>
             (if length input < offset + len then None
              else Some (joined (BNode tag (Primitive (sub_slice input offset (offset + len)))), offset + len))
         | (Some len, True) \<Rightarrow>
             (if length input < offset + len then None
              else Option.bind (parse_children (sub_slice input offset (offset + len)) depth) (\<lambda>children.
                Some (joined (BNode tag (Constructed children)), offset + len)))
         | (None, False) \<Rightarrow> None
         | (None, True) \<Rightarrow>
             Option.bind (parse_until_eoc (drop offset input) depth) (\<lambda>(children, used).
               Some (joined (BNode tag (Constructed children)), offset + used)))))"
| "parse_children buf depth =
    (if buf = [] then Some []
     else Option.bind (parse buf (depth + 1)) (\<lambda>(child, used).
       Option.bind (parse_children (drop used buf) depth) (\<lambda>children. Some (child # children))))"
| "parse_until_eoc rest depth =
    (if 2 \<le> length rest \<and> rest ! 0 = 0 \<and> rest ! 1 = 0 then Some ([], 2)
     else Option.bind (parse rest (depth + 1)) (\<lambda>(child, used).
       Option.bind (parse_until_eoc (drop used rest) depth) (\<lambda>(children, n).
       Some (child # children, used + n))))"
  by pat_completeness auto

lemma tag_end_gt: "tag_end f input k = Some t \<Longrightarrow> k < t"
  by (induction f input k rule: tag_end.induct)
    (subst (asm) (2) tag_end.simps, auto split: if_splits nat.splits)

lemma parse_tag_pos: "parse_tag input = Some t \<Longrightarrow> 0 < t"
  by (auto simp: parse_tag_def dest: tag_end_gt split: if_splits)

lemma parse_length_gt: "parse_length input t = Some (len, k) \<Longrightarrow> t < k"
  by (auto simp: parse_length_def Let_def split: if_splits)

lemma parse_used_partial:
  assumes "parse_parse_children_parse_until_eoc_dom (Inl (input, depth))"
    and "parse input depth = Some (node, used)"
  shows "0 < used \<and> input \<noteq> []"
  using assms(2)
  by (auto simp: parse.psimps [OF assms(1)] bind_eq_Some_conv Let_def
    dest!: parse_length_gt parse_tag_pos split: if_splits option.splits bool.splits prod.splits)

termination parse
  by (relation "measure (case_sum (\<lambda>(b, _). 2 * length b)
    (case_sum (\<lambda>(b, _). 2 * length b + 1) (\<lambda>(b, _). 2 * length b + 1)))")
    (auto dest!: parse_length_gt parse_used_partial simp: not_less simp del: length_sub_slice
      intro!: sub_slice_shorter)

declare parse.simps [simp del] parse_children.simps [simp del] parse_until_eoc.simps [simp del]

subsection \<open>The encoder\<close>

definition encode_length :: "nat \<Rightarrow> bytes" where
  "encode_length len =
    (if len < 0x80 then [of_nat len]
     else
       (let bytes = nat_be 8 len; skip = length (takeWhile (\<lambda>b. b = 0) bytes) in
        (0x80 OR of_nat (length bytes - skip)) # drop skip bytes))"

fun encode :: "ber_node \<Rightarrow> bytes" where
  "encode (BNode tag (Primitive bytes)) = tag @ encode_length (length bytes) @ bytes"
| "encode (BNode tag (Constructed children)) =
    (let inner = concat (map encode children) in tag @ encode_length (length inner) @ inner)"

definition ber_to_der :: "bytes \<Rightarrow> bytes option" where
  "ber_to_der input = Option.bind (parse input 0) (\<lambda>(node, used).
     if used \<noteq> length input then None else Some (encode node))"

subsection \<open>Trees in normal form\<close>

definition tag_ok :: "bytes \<Rightarrow> bool" where
  "tag_ok tag \<longleftrightarrow> tag \<noteq> [] \<and> parse_tag tag = Some (length tag)"

fun node_ok :: "nat \<Rightarrow> ber_node \<Rightarrow> bool" where
  "node_ok d (BNode tag (Primitive bytes)) =
    (d \<le> MAX_DEPTH \<and> tag_ok tag \<and> (tag ! 0) AND CONSTRUCTED = 0)"
| "node_ok d (BNode tag (Constructed children)) =
    (d \<le> MAX_DEPTH \<and> tag_ok tag \<and> (tag ! 0) AND CONSTRUCTED \<noteq> 0 \<and>
     joined (BNode tag (Constructed children)) = BNode tag (Constructed children) \<and>
     (\<forall>c\<in>set children. node_ok (d + 1) c))"

lemma tag_end_le: "tag_end f input k = Some t \<Longrightarrow> t \<le> length input"
  by (induction f input k rule: tag_end.induct)
    (subst (asm) (2) tag_end.simps, auto split: if_splits nat.splits)

lemma tag_end_prefix:
  "tag_end f input k = Some t \<Longrightarrow> tag_end f (take t input @ rest) k = Some t"
proof (induction f input k arbitrary: t rule: tag_end.induct)
  case (1 f input k)
  have lt: "k < t" "t \<le> length input" using 1(2) by (auto dest: tag_end_gt tag_end_le)
  then have nth: "(take t input @ rest) ! k = input ! k" by (simp add: nth_append)
  show ?case
  proof (cases f)
    case 0
    then show ?thesis using 1(2) by (subst (asm) tag_end.simps) (simp split: if_splits)
  next
    case (Suc n)
    then show ?thesis
      using 1 lt nth by (subst tag_end.simps, subst (asm) (2) tag_end.simps) (auto split: if_splits)
  qed
qed

lemma parse_tag_prefix:
  assumes "parse_tag input = Some t" "input \<noteq> []"
  shows "parse_tag (take t input @ rest) = Some t" "t \<le> length input" "0 < t"
proof -
  show pos: "0 < t" using parse_tag_pos [OF assms(1)] .
  show le: "t \<le> length input"
    using assms by (cases input) (auto simp: parse_tag_def dest: tag_end_le split: if_splits)
  have "(take t input @ rest) ! 0 = input ! 0" using pos le assms(2) by (simp add: nth_append)
  then show "parse_tag (take t input @ rest) = Some t"
    using assms by (auto simp: parse_tag_def dest: tag_end_prefix split: if_splits)
qed

lemma tag_ok_take:
  assumes "parse_tag input = Some t" "input \<noteq> []"
  shows "tag_ok (take t input)"
  using parse_tag_prefix(1) [OF assms, of "[]"] parse_tag_prefix(2,3) [OF assms] assms(2)
  by (auto simp: tag_ok_def)

lemma parse_tag_append: "tag_ok tag \<Longrightarrow> parse_tag (tag @ rest) = Some (length tag)"
  using parse_tag_prefix(1) [of tag "length tag" rest] by (auto simp: tag_ok_def)

lemma be_nat_dropWhile [simp]: "be_nat (dropWhile (\<lambda>b. b = 0) bs) = be_nat bs"
  by (induction bs) (auto simp: be_nat_Cons)

lemma long_length:
  assumes "0x80 \<le> len" "len < 2 ^ 32"
  obtains bs where "encode_length len = (0x80 OR of_nat (length bs)) # bs" "be_nat bs = len"
    "1 \<le> length bs" "length bs \<le> 4" "bs ! 0 \<noteq> 0"
proof -
  define bs where "bs = dropWhile (\<lambda>b. b = 0) (nat_be 8 len)"
  have be: "be_nat bs = len" using assms by (simp add: bs_def be_nat_nat_be)
  then have ne: "bs \<noteq> []" using assms(1) by auto
  then have hd: "hd bs \<noteq> 0" using hd_dropWhile [of "\<lambda>b. b = 0" "nat_be 8 len"] by (simp add: bs_def)
  have drop: "drop (length (takeWhile (\<lambda>b. b = 0) (nat_be 8 len))) (nat_be 8 len) = bs"
    by (simp add: bs_def dropWhile_eq_drop)
  have "encode_length len = (0x80 OR of_nat (length bs)) # bs"
    using assms(1) drop by (auto simp: encode_length_def Let_def)
  moreover have "length bs \<le> 4"
  proof (rule ccontr)
    assume "\<not> length bs \<le> 4"
    then obtain c cs where c: "bs = c # cs" "4 \<le> length cs" by (cases bs) auto
    then have "256 ^ 4 \<le> (256 :: nat) ^ length cs" by (intro power_increasing) simp_all
    also have "\<dots> \<le> unat c * 256 ^ length cs" using hd c by (simp add: unat_gt_0 Suc_leI)
    also have "\<dots> \<le> be_nat bs" using c by (simp add: be_nat_Cons)
    finally show False using be assms(2) by simp
  qed
  ultimately show thesis using be ne hd by (intro that [of bs]) (simp_all add: Suc_leI hd_conv_nth)
qed

lemma length_octet:
  assumes "1 \<le> n" "n \<le> 4"
  shows "\<not> (0x80 OR of_nat n :: u8) < 0x80" "(0x80 OR of_nat n :: u8) \<noteq> 0x80"
    "unat ((0x80 OR of_nat n :: u8) AND 0x7F) = n"
proof -
  have "n = 1 \<or> n = 2 \<or> n = 3 \<or> n = 4" using assms by auto
  then show "\<not> (0x80 OR of_nat n :: u8) < 0x80" "(0x80 OR of_nat n :: u8) \<noteq> 0x80"
    "unat ((0x80 OR of_nat n :: u8) AND 0x7F) = n" by auto
qed

lemma unat_fold_be_4: "length bs \<le> 4 \<Longrightarrow> unat (fold_be bs :: u64) = be_nat bs"
proof -
  assume "length bs \<le> 4"
  then have "(256 :: nat) ^ length bs \<le> 256 ^ 4" by (intro power_increasing) simp_all
  then show ?thesis by (intro unat_fold_be) simp_all
qed

lemma parse_length_encoded:
  assumes "len < 2 ^ 32"
  shows "parse_length (pre @ encode_length len @ rest) (length pre) =
    Some (Some len, length pre + length (encode_length len))"
proof (cases "len < 0x80")
  case True
  then show ?thesis
    by (simp add: parse_length_def encode_length_def nth_append word_less_nat_alt)
next
  case False
  then obtain bs where bs: "encode_length len = (0x80 OR of_nat (length bs)) # bs" "be_nat bs = len"
    "1 \<le> length bs" "length bs \<le> 4" "bs ! 0 \<noteq> 0"
    using assms by (metis not_less long_length)
  have sl: "sub_slice (pre @ (0x80 OR of_nat (length bs)) # bs @ rest) (length pre + 1)
      (length pre + 1 + length bs) = bs"
    by (simp add: sub_slice_def)
  show ?thesis
    using bs sl length_octet [OF bs(3,4)] unat_fold_be_4 [OF bs(4)]
    by (simp add: parse_length_def Let_def MAX_LENGTH_BYTES_def nth_append)
qed

subsection \<open>Output is parsed to the same tree\<close>

lemma encode_nonempty: "node_ok d n \<Longrightarrow> encode n \<noteq> []"
  by (cases "(d, n)" rule: node_ok.cases) (auto simp: tag_ok_def Let_def)

lemma encode_length_nonempty [simp]: "encode_length len \<noteq> []"
  by (simp add: encode_length_def Let_def)

lemma parse_children_complete:
  assumes "\<And>c rest. c \<in> set cs \<Longrightarrow> length (encode c) < 2 ^ 32 \<Longrightarrow>
      parse (encode c @ rest) (d + 1) = Some (c, length (encode c))"
    and "\<forall>c\<in>set cs. node_ok (d + 1) c" "length (concat (map encode cs)) < 2 ^ 32"
  shows "parse_children (concat (map encode cs)) d = Some cs"
  using assms
proof (induction cs)
  case (Cons c cs)
  then have "parse (encode c @ concat (map encode cs)) (d + 1) = Some (c, length (encode c))" by simp
  moreover have "parse_children (concat (map encode cs)) d = Some cs" using Cons by simp
  ultimately show ?case using Cons.prems(2) encode_nonempty by (subst parse_children.simps) auto
qed (simp add: parse_children.simps)

lemma parse_encoded_header:
  assumes "tag_ok tag" "length body < 2 ^ 32" "d \<le> MAX_DEPTH"
    and "input = tag @ encode_length (length body) @ body @ rest"
  shows "\<not> (MAX_DEPTH < d \<or> length input < 2)" "parse_tag input = Some (length tag)"
    "take (length tag) input = tag" "input ! 0 = tag ! 0"
    "parse_length input (length tag) = Some (Some (length body), length tag + length (encode_length (length body)))"
    "sub_slice input (length tag + length (encode_length (length body)))
      (length tag + length (encode_length (length body)) + length body) = body"
proof -
  have ne: "tag \<noteq> []" using assms(1) by (simp add: tag_ok_def)
  have "0 < length tag" "0 < length (encode_length (length body))" using ne by simp_all
  then show "\<not> (MAX_DEPTH < d \<or> length input < 2)"
    using assms(3,4) by (simp del: length_greater_0_conv)
  show "parse_tag input = Some (length tag)" using parse_tag_append [OF assms(1)] assms(4) by simp
  show "take (length tag) input = tag" "input ! 0 = tag ! 0" using assms(4) ne by (simp_all add: nth_append)
  show "parse_length input (length tag) = Some (Some (length body), length tag + length (encode_length (length body)))"
    using parse_length_encoded [OF assms(2), of tag] assms(4) by simp
  show "sub_slice input (length tag + length (encode_length (length body)))
      (length tag + length (encode_length (length body)) + length body) = body"
    using assms(4) by (simp add: sub_slice_def)
qed

lemma parse_complete:
  "node_ok d n \<Longrightarrow> length (encode n) < 2 ^ 32 \<Longrightarrow> parse (encode n @ rest) d = Some (n, length (encode n))"
proof (induction n arbitrary: d rest rule: encode.induct)
  case (1 tag bytes)
  then have ok: "tag_ok tag" "d \<le> MAX_DEPTH" "tag ! 0 AND CONSTRUCTED = 0" "length bytes < 2 ^ 32" by auto
  note h = parse_encoded_header [OF ok(1,4,2) refl, of rest]
  show ?case using h ok(3) by (subst parse.simps) (simp add: Let_def)
next
  case (2 tag cs)
  let ?body = "concat (map encode cs)"
  have ok: "tag_ok tag" "d \<le> MAX_DEPTH" "tag ! 0 AND CONSTRUCTED \<noteq> 0"
    "joined (BNode tag (Constructed cs)) = BNode tag (Constructed cs)" "\<forall>c\<in>set cs. node_ok (d + 1) c"
    "length ?body < 2 ^ 32"
    using 2(2,3) by (auto simp: Let_def)
  note h = parse_encoded_header [OF ok(1,6,2) refl, of rest]
  have "parse_children ?body d = Some cs"
    using ok(5,6) 2(1) by (intro parse_children_complete) auto
  then show ?case using h ok(3,4) by (subst parse.simps) (simp add: Let_def)
qed

subsection \<open>Parsed trees are in normal form\<close>

lemma primitive_tag_ok:
  assumes "tag_ok [first]"
  shows "tag_ok [first AND NOT CONSTRUCTED]" "(first AND NOT CONSTRUCTED) AND CONSTRUCTED = 0"
proof -
  have "(first AND NOT CONSTRUCTED) AND 0x1F = first AND 0x1F"
    by (simp add: CONSTRUCTED_def and.assoc)
  moreover have "first AND 0x1F \<noteq> 0x1F"
    using assms by (auto simp: tag_ok_def parse_tag_def tag_end.simps)
  ultimately show "tag_ok [first AND NOT CONSTRUCTED]" by (simp add: tag_ok_def parse_tag_def)
  show "(first AND NOT CONSTRUCTED) AND CONSTRUCTED = 0"
    by (rule bit_word_eqI) (auto simp: bit_simps)
qed

lemma joined_ok:
  assumes "tag_ok tag" "d \<le> MAX_DEPTH" "tag ! 0 AND CONSTRUCTED \<noteq> 0" "\<forall>c\<in>set cs. node_ok (d + 1) c"
  shows "node_ok d (joined (BNode tag (Constructed cs)))"
proof (cases "joined (BNode tag (Constructed cs)) = BNode tag (Constructed cs)")
  case True
  then show ?thesis using assms by simp
next
  case False
  then have "length tag = 1" "joined (BNode tag (Constructed cs)) =
      BNode [tag ! 0 AND NOT CONSTRUCTED] (Primitive (concat (map chunk_bytes cs)))"
    by (auto simp: Let_def split: if_splits)
  moreover from this have "tag_ok [tag ! 0]" using assms(1) by (cases tag) auto
  ultimately show ?thesis using assms(2) primitive_tag_ok by simp
qed

lemma parse_length_le: "parse_length input t = Some (len, k) \<Longrightarrow> k \<le> length input"
  by (auto simp: parse_length_def Let_def split: if_splits)

subsection \<open>The BER encodings of a tree\<close>

text \<open>A length is one octet below \<open>0x80\<close>, or up to four octets without a leading zero.\<close>

definition length_form :: "bytes \<Rightarrow> nat \<Rightarrow> bool" where
  "length_form lo n \<longleftrightarrow> n < 0x80 \<and> lo = [of_nat n] \<or>
    (\<exists>bs. 1 \<le> length bs \<and> length bs \<le> 4 \<and> bs ! 0 \<noteq> 0 \<and> be_nat bs = n \<and>
       lo = (0x80 OR of_nat (length bs)) # bs)"

inductive ber_enc :: "ber_node \<Rightarrow> bytes \<Rightarrow> bool" where
  enc_primitive: "tag_ok tag \<Longrightarrow> tag ! 0 AND CONSTRUCTED = 0 \<Longrightarrow> length_form lo (length bytes) \<Longrightarrow>
    ber_enc (BNode tag (Primitive bytes)) (tag @ lo @ bytes)"
| enc_definite: "tag_ok tag \<Longrightarrow> tag ! 0 AND CONSTRUCTED \<noteq> 0 \<Longrightarrow> list_all2 ber_enc cs bodies \<Longrightarrow>
    length_form lo (length (concat bodies)) \<Longrightarrow>
    ber_enc (BNode tag (Constructed cs)) (tag @ lo @ concat bodies)"
| enc_indefinite: "tag_ok tag \<Longrightarrow> tag ! 0 AND CONSTRUCTED \<noteq> 0 \<Longrightarrow> list_all2 ber_enc cs bodies \<Longrightarrow>
    ber_enc (BNode tag (Constructed cs)) (tag @ [0x80] @ concat bodies @ [0, 0])"

fun norm :: "ber_node \<Rightarrow> ber_node" where
  "norm (BNode tag (Primitive bytes)) = BNode tag (Primitive bytes)"
| "norm (BNode tag (Constructed cs)) = joined (BNode tag (Constructed (map norm cs)))"

fun content :: "ber_node \<Rightarrow> bytes" where
  "content (BNode tag (Primitive bytes)) = bytes"
| "content (BNode tag (Constructed cs)) = concat (map content cs)"

lemma content_joined: "content (joined n) = content n"
proof (cases n rule: joined.cases)
  case (2 tag cs)
  have "chunk_bytes c = content c" if "is_chunk c" for c
    using that by (cases c rule: is_chunk.cases) simp_all
  then show ?thesis using 2 by (auto simp: Let_def list_all_iff intro!: arg_cong [where f = concat])
qed simp

lemma content_norm: "content (norm n) = content n"
  by (induction n rule: norm.induct)
    (auto simp: content_joined comp_def intro!: arg_cong [where f = concat] simp del: joined.simps)

lemma octet_split:
  assumes "\<not> l < (0x80 :: u8)"
  shows "0x80 OR (l AND 0x7F) = l"
proof -
  have mask: "l AND 0x7F = take_bit 7 l" by (simp add: take_bit_eq_mask mask_eq_exp_minus_1)
  have "0x80 AND take_bit 7 l = 0" by (simp flip: mask add: and.left_commute [of "0x80" l])
  then have "0x80 OR take_bit 7 l = 0x80 + take_bit 7 l" by (simp add: disjunctive_add_eq_or)
  moreover have "unat (0x80 + take_bit 7 l) = unat l"
  proof -
    have l: "unat l = 128 + unat l mod 128"
      using assms unat_byte_lt [of l] by (simp add: word_less_nat_alt not_less le_mod_geq)
    have "unat (take_bit 7 l) = unat l mod 128" by (simp only: unsigned_take_bit_eq) (simp add: take_bit_eq_mod)
    then show ?thesis using l unat_byte_lt [of l] by (simp add: unat_word_ariths)
  qed
  ultimately show ?thesis by (metis mask word_unat_eq_iff)
qed

lemma parse_length_form:
  assumes "parse_length input t = Some (Some n, k)"
  shows "length_form (sub_slice input t k) n"
proof (cases "input ! t < 0x80")
  case True
  then have "t < length input" "n = unat (input ! t)" "k = t + 1"
    using assms by (auto simp: parse_length_def Let_def split: if_splits)
  then show ?thesis using True
    by (simp add: length_form_def sub_slice_def take_Suc_conv_app_nth hd_drop_conv_nth word_less_nat_alt)
next
  case False
  define m where "m = unat (input ! t AND 0x7F)"
  define bs where "bs = sub_slice input (t + 1) (t + 1 + m)"
  have p: "input ! t \<noteq> 0x80" "m \<le> 4" "t + 1 + m \<le> length input" "bs ! 0 \<noteq> 0" "k = t + 1 + m"
    "n = unat (fold_be bs :: u64)"
    using assms False by (auto simp: parse_length_def Let_def m_def bs_def MAX_LENGTH_BYTES_def split: if_splits)
  have len: "length bs = m" using p(3) by (simp add: bs_def)
  have "m \<noteq> 0"
  proof
    assume "m = 0"
    then have "input ! t AND 0x7F = 0" by (simp add: m_def unat_eq_0)
    then show False using octet_split [OF False] p(1) by simp
  qed
  moreover have "0x80 OR of_nat m = input ! t" using octet_split [OF False] by (simp add: m_def)
  moreover have "sub_slice input t k = input ! t # bs"
    using p(3,5) by (simp add: sub_slice_def bs_def Cons_nth_drop_Suc [symmetric])
  ultimately show ?thesis
    using p len unat_fold_be_4 [of bs] by (auto simp: length_form_def intro!: exI [of _ bs])
qed

lemma parse_length_indefinite:
  assumes "parse_length input t = Some (None, k)"
  shows "k = t + 1" "sub_slice input t k = [0x80]"
  using assms by (auto simp: parse_length_def Let_def sub_slice_def take_Suc_conv_app_nth
    hd_drop_conv_nth split: if_splits)

text \<open>One call of the parser: the three forms of a value, with the bytes it used.\<close>

lemma parse_shape:
  assumes "parse input d = Some (n, used)"
  obtains (primitive) tag lo bytes where "d \<le> MAX_DEPTH" "tag_ok tag" "used \<le> length input"
      "tag ! 0 AND CONSTRUCTED = 0" "length_form lo (length bytes)"
      "take used input = tag @ lo @ bytes" "n = BNode tag (Primitive bytes)"
  | (definite) tag lo body cs where "d \<le> MAX_DEPTH" "tag_ok tag" "used \<le> length input"
      "tag ! 0 AND CONSTRUCTED \<noteq> 0" "length_form lo (length body)"
      "take used input = tag @ lo @ body" "length body < length input"
      "parse_children body d = Some cs" "n = joined (BNode tag (Constructed cs))"
  | (indefinite) tag rest cs u where "d \<le> MAX_DEPTH" "tag_ok tag"
      "tag ! 0 AND CONSTRUCTED \<noteq> 0" "input = tag @ [0x80] @ rest" "length rest < length input"
      "parse_until_eoc rest d = Some (cs, u)" "used = length tag + 1 + u"
      "n = joined (BNode tag (Constructed cs))"
proof -
  obtain t len offset where t: "d \<le> MAX_DEPTH" "2 \<le> length input" "parse_tag input = Some t"
    "parse_length input t = Some (len, offset)"
    using assms by (subst (asm) parse.simps) (auto simp: bind_eq_Some_conv Let_def split: if_splits)
  have ne: "input \<noteq> []" using t(2) by auto
  have tag: "tag_ok (take t input)" using t(3) ne by (rule tag_ok_take)
  have first: "take t input ! 0 = input ! 0" using parse_tag_pos [OF t(3)] by simp
  have off: "t < offset" "offset \<le> length input" using t(4) by (auto dest: parse_length_gt parse_length_le)
  note body = assms [unfolded parse.simps [of input d], simplified t Let_def, simplified]
  have cut: "take (offset + l) input = take t input @ sub_slice input t offset @ sub_slice input offset (offset + l)" for l
    using take_add [of offset l input] take_add [of t "offset - t" input] off by (simp add: sub_slice_def)
  consider (p) l where "len = Some l" "input ! 0 AND CONSTRUCTED = 0"
    | (d) l where "len = Some l" "input ! 0 AND CONSTRUCTED \<noteq> 0"
    | (i) "len = None" by (cases len) auto
  then show thesis
  proof cases
    case p
    then have n: "n = BNode (take t input) (Primitive (sub_slice input offset (offset + l)))"
      "used = offset + l" "offset + l \<le> length input"
      using body t by (auto split: if_splits)
    then show thesis
      using t tag first p cut [of l] parse_length_form [of input t l offset]
      by (intro primitive [OF t(1) tag]) auto
  next
    case d
    then obtain cs where cs: "parse_children (sub_slice input offset (offset + l)) d = Some cs"
      "n = joined (BNode (take t input) (Constructed cs))" "used = offset + l" "offset + l \<le> length input"
      using body t by (auto simp: bind_eq_Some_conv split: if_splits)
    then show thesis
      using t tag first d cut [of l] off parse_length_form [of input t l offset]
      by (intro definite [OF t(1) tag _ _ _ _ _ cs(1,2)]) auto
  next
    case i
    then obtain cs u where u: "input ! 0 AND CONSTRUCTED \<noteq> 0" "parse_until_eoc (drop offset input) d = Some (cs, u)"
      "n = joined (BNode (take t input) (Constructed cs))" "used = offset + u"
      using body t by (auto simp: bind_eq_Some_conv split: bool.splits if_splits)
    note indef = parse_length_indefinite [of input t offset]
    have "input = take t input @ [0x80] @ drop offset input"
      using indef t(4) i off by (metis append_take_drop_id drop_drop sub_slice_def add.commute add_diff_cancel_left')
    then show thesis
      using u t i first off indef by (intro indefinite [OF t(1) tag _ _ _ u(2) _ u(3)]) auto
  qed
qed

definition denotes :: "nat \<Rightarrow> bytes \<Rightarrow> ber_node \<Rightarrow> bool" where
  "denotes d bs n \<longleftrightarrow> node_ok d n \<and> (\<exists>raw. ber_enc raw bs \<and> n = norm raw)"

definition denotes_all :: "nat \<Rightarrow> bytes \<Rightarrow> ber_node list \<Rightarrow> bool" where
  "denotes_all d bs cs \<longleftrightarrow> (\<forall>c\<in>set cs. node_ok (d + 1) c) \<and>
    (\<exists>raws bodies. list_all2 ber_enc raws bodies \<and> concat bodies = bs \<and> cs = map norm raws)"

lemma denotes_all_Nil: "denotes_all d [] []"
  unfolding denotes_all_def by (intro conjI exI [of _ "[]"]) simp_all

lemma denotes_all_Cons:
  "denotes (d + 1) bs c \<Longrightarrow> denotes_all d bs' cs \<Longrightarrow> denotes_all d (bs @ bs') (c # cs)"
  unfolding denotes_def denotes_all_def
  by (elim conjE exE, rule conjI, simp, rule_tac x = "raw # raws" in exI, rule_tac x = "bs # bodies" in exI) simp

lemma denotes_constructed:
  assumes "tag_ok tag" "d \<le> MAX_DEPTH" "tag ! 0 AND CONSTRUCTED \<noteq> 0" "denotes_all d body cs"
  shows "length_form lo (length body) \<Longrightarrow> denotes d (tag @ lo @ body) (joined (BNode tag (Constructed cs)))"
    and "denotes d (tag @ [0x80] @ body @ [0, 0]) (joined (BNode tag (Constructed cs)))"
proof -
  obtain raws bodies where r: "list_all2 ber_enc raws bodies" "concat bodies = body" "cs = map norm raws"
    and ok: "\<forall>c\<in>set cs. node_ok (d + 1) c"
    using assms(4) by (auto simp: denotes_all_def)
  have j: "node_ok d (joined (BNode tag (Constructed cs)))" using assms ok by (intro joined_ok)
  have n: "joined (BNode tag (Constructed cs)) = norm (BNode tag (Constructed raws))" using r(3) by simp
  show "length_form lo (length body) \<Longrightarrow> denotes d (tag @ lo @ body) (joined (BNode tag (Constructed cs)))"
    using enc_definite [OF assms(1,3) r(1)] j n r(2) unfolding denotes_def by metis
  show "denotes d (tag @ [0x80] @ body @ [0, 0]) (joined (BNode tag (Constructed cs)))"
    using enc_indefinite [OF assms(1,3) r(1)] j n r(2) unfolding denotes_def by metis
qed

lemma parse_used: "parse buf d = Some (n, used) \<Longrightarrow> 0 < used \<and> buf \<noteq> []"
  by (subst (asm) parse.simps)
    (auto simp: bind_eq_Some_conv Let_def dest!: parse_length_gt parse_tag_pos
      split: if_splits option.splits bool.splits prod.splits)

lemma parse_denotes:
  "(\<forall>d n used. parse buf d = Some (n, used) \<longrightarrow> used \<le> length buf \<and> denotes d (take used buf) n) \<and>
   (\<forall>d cs. parse_children buf d = Some cs \<longrightarrow> denotes_all d buf cs) \<and>
   (\<forall>d cs used. parse_until_eoc buf d = Some (cs, used) \<longrightarrow> used \<le> length buf \<and>
      (\<exists>body. take used buf = body @ [0, 0] \<and> denotes_all d body cs))"
proof (induction "length buf" arbitrary: buf rule: less_induct)
  case less
  have one: "used \<le> length buf \<and> denotes d (take used buf) n"
    if "parse buf d = Some (n, used)" for d n used
    using that
  proof (cases rule: parse_shape)
    case (primitive tag lo bytes)
    have "ber_enc n (take used buf)"
      unfolding primitive(6,7) by (rule enc_primitive [OF primitive(2,4,5)])
    moreover have "n = norm n" "node_ok d n" using primitive(1,2,4) unfolding primitive(7) by simp_all
    ultimately show ?thesis using primitive(3) unfolding denotes_def by blast
  next
    case (definite tag lo body cs)
    then have "denotes_all d body cs" using less [of body] by blast
    with definite have "denotes d (tag @ lo @ body) n" using denotes_constructed(1) [of tag d body cs lo] by simp
    with definite show ?thesis by simp
  next
    case (indefinite tag rest cs u)
    then obtain body where "u \<le> length rest" "take u rest = body @ [0, 0]" "denotes_all d body cs"
      using less [of rest] by blast
    then show ?thesis using indefinite denotes_constructed(2) [of tag d body cs] by simp
  qed
  have children: "denotes_all d buf cs" if l: "parse_children buf d = Some cs" for d cs
  proof (cases "buf = []")
    case False
    then obtain c u cs' where c: "parse buf (d + 1) = Some (c, u)"
      "parse_children (drop u buf) d = Some cs'" "cs = c # cs'"
      using l by (auto simp: parse_children.simps [of buf] bind_eq_Some_conv)
    have "length (drop u buf) < length buf" using parse_used [OF c(1)] by simp
    then have "denotes_all d (drop u buf) cs'" using less c(2) by blast
    with one [OF c(1)] have "denotes_all d (take u buf @ drop u buf) (c # cs')"
      by (intro denotes_all_Cons) simp_all
    then show ?thesis using c(3) by simp
  qed (use l in \<open>simp add: parse_children.simps denotes_all_Nil\<close>)
  have until: "used \<le> length buf \<and> (\<exists>body. take used buf = body @ [0, 0] \<and> denotes_all d body cs)"
    if l: "parse_until_eoc buf d = Some (cs, used)" for d cs used
  proof (cases "2 \<le> length buf \<and> buf ! 0 = 0 \<and> buf ! 1 = 0")
    case True
    then have "take 2 buf = [0, 0]" by (cases buf; cases "tl buf") (auto simp: numeral_2_eq_2)
    with True l show ?thesis by (auto simp: parse_until_eoc.simps [of buf] intro: denotes_all_Nil)
  next
    case False
    then obtain c u cs' u' where c: "parse buf (d + 1) = Some (c, u)"
      "parse_until_eoc (drop u buf) d = Some (cs', u')" "cs = c # cs'" "used = u + u'"
      using l by (auto simp: parse_until_eoc.simps [of buf] bind_eq_Some_conv)
    have "length (drop u buf) < length buf" using parse_used [OF c(1)] by simp
    then obtain body where "u' \<le> length (drop u buf)" "take u' (drop u buf) = body @ [0, 0]"
      "denotes_all d body cs'"
      using less c(2) by blast
    then show ?thesis
      using one [OF c(1)] c(3,4) denotes_all_Cons [of d "take u buf" c body cs'] by (auto simp: take_add)
  qed
  show ?case by (intro conjI allI impI) (use one children until in simp_all)
qed

subsection \<open>Properties\<close>

lemma ber_to_der_Some:
  "ber_to_der input = Some out \<longleftrightarrow> (\<exists>n. parse input 0 = Some (n, length input) \<and> out = encode n)"
  unfolding ber_to_der_def by (cases "parse input 0") (auto split: if_splits)


text \<open>An indefinite-length constructed octet string of two chunks becomes one primitive string.\<close>

lemma demo_ber:
  "ber_to_der [0x24, 0x80, 0x04, 0x01, 0xAA, 0x04, 0x01, 0xBB, 0x00, 0x00] = Some [0x04, 0x02, 0xAA, 0xBB]"
  by (simp add: ber_to_der_def parse.simps parse_until_eoc.simps parse_tag_def parse_length_def
    MAX_DEPTH_def CONSTRUCTED_def UNIVERSAL_OCTET_STRING_def Let_def sub_slice_def encode_length_def)


end
