(* ===== verification/Framing.thy ===== *)
theory Framing
  imports Enclave_Error
begin

text \<open>
  The message framing between parent and enclave (\<open>enclave/src/framing.rs\<close>) and the shape
  check that counts the protobuf fields of a request before it is decoded. A stream is the bytes
  it still delivers; a short read is an \<open>Io\<close> error. The \<open>prost\<close> functions that the code calls
  are a parameter record, each returning its value and the bytes that remain.
\<close>

definition MAX_MESSAGE_SIZE :: u32 where "MAX_MESSAGE_SIZE = 24 * 1024 * 1024"
definition MAX_WIRE_ELEMENTS :: nat where "MAX_WIRE_ELEMENTS = 2 ^ 19"

subsection \<open>Frames\<close>

definition read_exact :: "nat \<Rightarrow> bytes \<Rightarrow> (bytes \<times> bytes) enclave_result" where
  "read_exact n stream =
    (if length stream < n then Inl (Io ''failed to fill whole buffer'')
     else Inr (take n stream, drop n stream))"

definition read_frame :: "bytes \<Rightarrow> (bytes \<times> bytes) enclave_result" where
  "read_frame stream =
    and_then (read_exact 4 stream) (\<lambda>(len_buf, stream).
    let len = of_nat (le_nat len_buf) :: u32 in
    if len = 0 then Inl (Framing ''zero-length message'')
    else if MAX_MESSAGE_SIZE < len then Inl (Framing ''message too large'')
    else read_exact (unat len) stream)"

definition read_message :: "(bytes \<Rightarrow> 'm enclave_result) \<Rightarrow> bytes \<Rightarrow> ('m \<times> bytes) enclave_result" where
  "read_message decode stream =
    and_then (read_frame stream) (\<lambda>(buf, stream).
    and_then (decode buf) (\<lambda>msg. Inr (msg, stream)))"

definition write_message :: "('m \<Rightarrow> bytes) \<Rightarrow> 'm \<Rightarrow> bytes" where
  "write_message encode_to_vec msg =
    (let buf = encode_to_vec msg; len = of_nat (length buf) :: u32 in
     nat_le 4 (unat len) @ buf)"

subsection \<open>The shape of a request\<close>

datatype wire_type = Varint | SixtyFourBit | LengthDelimited | StartGroup | EndGroup | ThirtyTwoBit

record prost_lib =
  decode_key :: "bytes \<Rightarrow> (string, (u32 \<times> wire_type) \<times> bytes) result"
  skip_field :: "wire_type \<Rightarrow> u32 \<Rightarrow> bytes \<Rightarrow> (string, bytes) result"
  decode_varint :: "bytes \<Rightarrow> (string, u64 \<times> bytes) result"

datatype schema = SRequest | SSign | SRgbSource | SMerkleProofEntry | SSubmitHeaders | SLeaf

fun schema_child :: "schema \<Rightarrow> u32 \<Rightarrow> schema" where
  "schema_child SRequest tag = (if tag = 3 then SSign else if tag = 11 then SSubmitHeaders else SLeaf)"
| "schema_child SSign tag = (if tag = 3 then SRgbSource else SLeaf)"
| "schema_child SRgbSource tag = (if tag = 6 then SMerkleProofEntry else SLeaf)"
| "schema_child _ tag = SLeaf"

definition shape_error :: "string \<Rightarrow> enclave_error" where
  "shape_error e = Framing e"

function walk :: "prost_lib \<Rightarrow> bytes \<Rightarrow> schema \<Rightarrow> nat \<Rightarrow> nat enclave_result" where
  "walk p buf schema left =
    (if buf = [] then Inr left
     else
       and_then (map_err shape_error (decode_key p buf)) (\<lambda>((tag, wire_type), buf).
       and_then (require (left \<noteq> 0) (Framing ''request has too many elements'')) (\<lambda>_.
       let left = left - 1; child = schema_child schema tag in
       if child = SLeaf \<or> wire_type \<noteq> LengthDelimited then
         and_then (map_err shape_error (skip_field p wire_type tag buf)) (\<lambda>buf.
         walk p buf schema left)
       else
         and_then (map_err shape_error (decode_varint p buf)) (\<lambda>(len, buf).
         and_then (require (unat len \<le> length buf) (Framing ''request shape: nested message truncated'')) (\<lambda>_.
         and_then (walk p (take (unat len) buf) child left) (\<lambda>left.
         walk p (drop (unat len) buf) schema left))))))"
  by pat_completeness auto

lemma walk_left_partial:
  "walk_dom (p, buf, schema, left) \<Longrightarrow> walk p buf schema left = Inr left' \<Longrightarrow> left' \<le> left"
proof (induction arbitrary: left' rule: walk.pinduct)
  case (1 p buf schema left)
  show ?case
  proof (cases "buf = []")
    case False
    then obtain tag wt b1 where k: "decode_key p buf = Inr ((tag, wt), b1)" "left \<noteq> 0"
      using 1(5) by (auto simp: walk.psimps [OF 1(1)] result_simps Let_def)
    show ?thesis
    proof (cases "schema_child schema tag = SLeaf \<or> wt \<noteq> LengthDelimited")
      case True
      then obtain b2 where w: "skip_field p wt tag b1 = Inr b2" "walk p b2 schema (left - 1) = Inr left'"
        using 1(5) False k by (auto simp: walk.psimps [OF 1(1)] result_simps Let_def)
      have "left' \<le> left - 1"
        by (rule 1(2) [OF False, of "((tag, wt), b1)" "(tag, wt)" b1 tag wt "()" "left - 1" _ b1 b2])
          (use True k w in simp_all)
      then show ?thesis by simp
    next
      case inner: False
      then obtain len b2 mid where w: "decode_varint p b1 = Inr (len, b2)" "unat len \<le> length b2"
        "walk p (take (unat len) b2) (schema_child schema tag) (left - 1) = Inr mid"
        "walk p (drop (unat len) b2) schema mid = Inr left'"
        using 1(5) False k by (auto simp: walk.psimps [OF 1(1)] result_simps Let_def)
      have "mid \<le> left - 1"
        by (rule 1(3) [OF False, of "((tag, wt), b1)" "(tag, wt)" b1 tag wt "()" "left - 1" _ b1 "(len, b2)"])
          (use inner k w in simp_all)
      moreover have "left' \<le> mid"
        by (rule 1(4) [OF False, of "((tag, wt), b1)" "(tag, wt)" b1 tag wt "()" "left - 1" _ b1 "(len, b2)"])
          (use inner k w in simp_all)
      ultimately show ?thesis by simp
    qed
  next
    case True
    then show ?thesis using 1(5) unfolding walk.psimps [OF 1(1)] by simp
  qed
qed

termination walk
  by (relation "measure (\<lambda>(_, _, _, left). left)") (auto dest: walk_left_partial)

declare walk.simps [simp del]

definition count_request_elements :: "prost_lib \<Rightarrow> bytes \<Rightarrow> nat enclave_result" where
  "count_request_elements p frame =
    and_then (walk p frame SRequest MAX_WIRE_ELEMENTS) (\<lambda>left. Inr (MAX_WIRE_ELEMENTS - left))"

definition check_request_shape :: "prost_lib \<Rightarrow> bytes \<Rightarrow> unit enclave_result" where
  "check_request_shape p frame = and_then (count_request_elements p frame) (\<lambda>_. Inr ())"

definition read_request ::
  "prost_lib \<Rightarrow> (bytes \<Rightarrow> 'm enclave_result) \<Rightarrow> bytes \<Rightarrow> ('m \<times> bytes) enclave_result" where
  "read_request p decode stream =
    and_then (read_frame stream) (\<lambda>(buf, stream).
    and_then (check_request_shape p buf) (\<lambda>_.
    and_then (decode buf) (\<lambda>msg. Inr (msg, stream))))"

subsection \<open>Frames are exact\<close>

lemma read_exact_Inr:
  "read_exact n stream = Inr (bs, rest) \<longleftrightarrow> length bs = n \<and> stream = bs @ rest"
  by (auto simp: read_exact_def)

lemma nat_le_le_nat: "nat_le (length bs) (le_nat bs) = bs"
proof (induction bs)
  case (Cons b bs)
  have "(unat b + 256 * le_nat bs) div 256 = le_nat bs" using unat_byte_lt [of b] by simp
  moreover have "(of_nat (unat b + 256 * le_nat bs) :: u8) = b"
  proof -
    have "(of_nat (256 * le_nat bs) :: u8) = of_nat 256 * of_nat (le_nat bs)" by (simp only: of_nat_mult)
    also have "(of_nat 256 :: u8) = 0" by simp
    finally show ?thesis by (simp only: of_nat_add) simp
  qed
  ultimately show ?case using Cons by simp
qed simp

lemma le_word_bytes:
  assumes "length lb = 4"
  shows "nat_le 4 (unat (of_nat (le_nat lb) :: u32)) = lb"
  using assms le_nat_less [of lb] nat_le_le_nat [of lb] by (simp add: unat_of_nat)

lemma read_frame_Inr:
  "read_frame stream = Inr (buf, rest) \<longleftrightarrow>
     buf \<noteq> [] \<and> length buf \<le> unat MAX_MESSAGE_SIZE \<and> stream = write_message (\<lambda>b. b) buf @ rest"
  (is "?l \<longleftrightarrow> ?r")
proof
  assume ?l
  then obtain lb s' where s: "length lb = 4" "stream = lb @ s'"
    "(of_nat (le_nat lb) :: u32) \<noteq> 0" "(of_nat (le_nat lb) :: u32) \<le> MAX_MESSAGE_SIZE"
    "length buf = unat (of_nat (le_nat lb) :: u32)" "s' = buf @ rest"
    by (auto simp: read_frame_def result_simps read_exact_Inr Let_def not_less split: if_splits)
  then show ?r using le_word_bytes [OF s(1)]
    by (auto simp: write_message_def Let_def word_le_nat_alt unat_eq_0 simp del: of_nat_eq_0_iff)
next
  assume r: ?r
  then have lt: "length buf < 2 ^ 32" by (simp add: MAX_MESSAGE_SIZE_def)
  then have len: "unat (of_nat (length buf) :: u32) = length buf" by (simp add: unat_of_nat)
  have "read_exact 4 stream = Inr (nat_le 4 (length buf), buf @ rest)"
    using r len by (simp add: read_exact_Inr write_message_def Let_def)
  moreover have "(of_nat (length buf) :: u32) \<noteq> 0" using r len by (metis length_0_conv unat_0)
  moreover have "le_nat (nat_le 4 (length buf)) = length buf" using lt by (simp add: le_nat_nat_le)
  ultimately show ?l using conjunct1 [OF conjunct2 [OF r]] len unfolding read_frame_def
    by (simp add: Let_def read_exact_def word_less_nat_alt)
qed

subsection \<open>The count of the shape check is exact\<close>

text \<open>A buffer with \<open>n\<close> field occurrences, counting those of the messages the schema enters.\<close>

inductive fields :: "prost_lib \<Rightarrow> schema \<Rightarrow> bytes \<Rightarrow> nat \<Rightarrow> bool" for p where
  fields_Nil: "fields p schema [] 0"
| fields_skip: "buf \<noteq> [] \<Longrightarrow> decode_key p buf = Inr ((tag, wt), b1) \<Longrightarrow>
    schema_child schema tag = SLeaf \<or> wt \<noteq> LengthDelimited \<Longrightarrow>
    skip_field p wt tag b1 = Inr b2 \<Longrightarrow> fields p schema b2 n \<Longrightarrow> fields p schema buf (Suc n)"
| fields_enter: "buf \<noteq> [] \<Longrightarrow> decode_key p buf = Inr ((tag, LengthDelimited), b1) \<Longrightarrow>
    schema_child schema tag \<noteq> SLeaf \<Longrightarrow> decode_varint p b1 = Inr (len, b2) \<Longrightarrow> unat len \<le> length b2 \<Longrightarrow>
    fields p (schema_child schema tag) (take (unat len) b2) m \<Longrightarrow>
    fields p schema (drop (unat len) b2) n \<Longrightarrow> fields p schema buf (Suc (m + n))"

lemma walk_Nil [simp]: "walk p [] schema left = Inr left"
  by (simp add: walk.simps)

lemma walk_complete: "fields p schema buf n \<Longrightarrow> walk p buf schema (n + left) = Inr left"
proof (induction arbitrary: left rule: fields.induct)
  case (fields_enter buf tag b1 schema len b2 m n)
  then show ?case using fields_enter.IH(1) [of "n + left"]
    by (subst walk.simps) (simp add: add.assoc)
qed (subst walk.simps; auto)+

lemma walk_sound: "walk p buf schema left = Inr left' \<Longrightarrow> \<exists>n. fields p schema buf n \<and> left = n + left'"
proof (induction left arbitrary: buf schema left' rule: less_induct)
  case (less left)
  show ?case
  proof (cases "buf = []")
    case True
    then show ?thesis using less(2) fields_Nil by fastforce
  next
    case False
    then obtain tag wt b1 where k: "decode_key p buf = Inr ((tag, wt), b1)" "0 < left"
      using less(2) by (auto simp: walk.simps [of p buf] result_simps Let_def)
    show ?thesis
    proof (cases "schema_child schema tag = SLeaf \<or> wt \<noteq> LengthDelimited")
      case True
      then obtain b2 where w: "skip_field p wt tag b1 = Inr b2" "walk p b2 schema (left - 1) = Inr left'"
        using less(2) False k by (auto simp: walk.simps [of p buf] result_simps Let_def)
      obtain n where "fields p schema b2 n" "left - 1 = n + left'" using less(1) [OF _ w(2)] k by auto
      then show ?thesis using fields_skip [OF False k(1) True w(1)] k(2) by (intro exI [of _ "Suc n"]) simp
    next
      case inner: False
      then obtain len b2 mid where w: "decode_varint p b1 = Inr (len, b2)" "unat len \<le> length b2"
        "walk p (take (unat len) b2) (schema_child schema tag) (left - 1) = Inr mid"
        "walk p (drop (unat len) b2) schema mid = Inr left'"
        using less(2) False k by (auto simp: walk.simps [of p buf] result_simps Let_def)
      obtain m where m: "fields p (schema_child schema tag) (take (unat len) b2) m" "left - 1 = m + mid"
        using less(1) [OF _ w(3)] k by auto
      obtain n where "fields p schema (drop (unat len) b2) n" "mid = n + left'"
        using less(1) [OF _ w(4)] m(2) k(2) by fastforce
      then show ?thesis using fields_enter [OF False _ _ w(1,2) m(1)] k m(2) inner
        by (intro exI [of _ "Suc (m + n)"]) simp
    qed
  qed
qed

lemma count_request_elements_Inr:
  "count_request_elements p frame = Inr n \<longleftrightarrow> fields p SRequest frame n \<and> n \<le> MAX_WIRE_ELEMENTS"
proof
  assume "fields p SRequest frame n \<and> n \<le> MAX_WIRE_ELEMENTS"
  then show "count_request_elements p frame = Inr n"
    using walk_complete [of p SRequest frame n "MAX_WIRE_ELEMENTS - n"] by (simp add: count_request_elements_def)
next
  assume "count_request_elements p frame = Inr n"
  then obtain left where "walk p frame SRequest MAX_WIRE_ELEMENTS = Inr left" "n = MAX_WIRE_ELEMENTS - left"
    by (auto simp: count_request_elements_def result_simps)
  moreover obtain k where "fields p SRequest frame k" "MAX_WIRE_ELEMENTS = k + left"
    using walk_sound [OF calculation(1)] by blast
  ultimately have "n = k" "n \<le> MAX_WIRE_ELEMENTS" by simp_all
  with \<open>fields p SRequest frame k\<close> show "fields p SRequest frame n \<and> n \<le> MAX_WIRE_ELEMENTS" by simp
qed

subsection \<open>Properties\<close>

text \<open>C26: a request is read exactly when the stream starts with a frame that \<open>write_message\<close>
  produces for a body of 1 byte to 24 MiB, the body has at most \<open>2 ^ 19\<close> field occurrences along the
  request schema, counted before anything is decoded, and the body decodes. The rest of the stream
  is left for the next read. The walk ends on every frame, whatever the protobuf functions return.\<close>

theorem request_read_exact:
  "read_request p decode stream = Inr (msg, rest) \<longleftrightarrow>
     (\<exists>buf n. 1 \<le> length buf \<and> length buf \<le> 24 * 1024 * 1024 \<and>
        stream = write_message (\<lambda>b. b) buf @ rest \<and>
        fields p SRequest buf n \<and> n \<le> 2 ^ 19 \<and> decode buf = Inr msg)"
  by (auto simp: read_request_def check_request_shape_def result_simps count_request_elements_Inr
    read_frame_Inr MAX_MESSAGE_SIZE_def MAX_WIRE_ELEMENTS_def Suc_le_eq)

end
