(* ===== verification/Evm_Rpc.thy ===== *)
theory Evm_Rpc
  imports Enclave_Error
begin

text \<open>
  The read-only interface to an EVM node (\<open>LogEntry\<close>, \<open>ReceiptData\<close>, \<open>BlockData\<close> and the trait
  \<open>EvmReceiptProvider\<close> of \<open>enclave/src/networks/evm/events.rs\<close>). The node is outside the enclave
  and its chain moves between two calls, so a call takes the state of the node and returns the
  state after it. What a node that follows one chain over time answers is stated by
  \<open>follows\<close>, over the views of the chain it has at successive moments.
\<close>

subsection \<open>Calls that can fail and that move the node\<close>

type_synonym ('n, 'a) rpc = "'n \<Rightarrow> 'a enclave_result \<times> 'n"

definition rpc_then :: "('n, 'a) rpc \<Rightarrow> ('a \<Rightarrow> ('n, 'b) rpc) \<Rightarrow> ('n, 'b) rpc" where
  "rpc_then m f = (\<lambda>n. case m n of (Inl e, n') \<Rightarrow> (Inl e, n') | (Inr x, n') \<Rightarrow> f x n')"

definition rpc_lift :: "'a enclave_result \<Rightarrow> ('n, 'a) rpc" where
  "rpc_lift r = (\<lambda>n. (r, n))"

named_theorems rpc_simps "what a sequence of calls returns"

lemma rpc_lift_apply [simp, rpc_simps]: "rpc_lift r n = (r, n)"
  by (simp add: rpc_lift_def)

lemma rpc_then_Inr [rpc_simps]:
  "rpc_then m f n = (Inr y, n'') \<longleftrightarrow> (\<exists>x n'. m n = (Inr x, n') \<and> f x n' = (Inr y, n''))"
  by (auto simp: rpc_then_def split: prod.splits sum.splits)

lemma rpc_then_Inl [rpc_simps]:
  "rpc_then m f n = (Inl e, n'') \<longleftrightarrow>
     m n = (Inl e, n'') \<or> (\<exists>x n'. m n = (Inr x, n') \<and> f x n' = (Inl e, n''))"
  by (auto simp: rpc_then_def split: prod.splits sum.splits)

lemma rpc_then_simps [simp]:
  "m n = (Inr x, n') \<Longrightarrow> rpc_then m f n = f x n'"
  "m n = (Inl e, n') \<Longrightarrow> rpc_then m f n = (Inl e, n')"
  by (simp_all add: rpc_then_def)

lemma rpc_then_lift [simp]:
  "rpc_then (rpc_lift (Inr x)) f = f x" "rpc_then (rpc_lift (Inl e)) f = rpc_lift (Inl e)"
  by (simp_all add: rpc_then_def rpc_lift_def)

subsection \<open>The trait\<close>

record log_entry =
  log_address :: bytes
  log_topics :: "bytes list"
  log_data :: bytes

record receipt_data =
  status_success :: bool
  rc_block_number :: u64
  rc_block_hash :: bytes
  rc_logs :: "log_entry list"

record block_data =
  blk_number :: u64
  blk_hash :: bytes

record 'n evm_provider =
  get_transaction_receipt :: "bytes \<Rightarrow> ('n, receipt_data option) rpc"
  get_block_by_tag :: "evm_finality_tag \<Rightarrow> ('n, block_data option) rpc"
  get_block_by_number :: "u64 \<Rightarrow> ('n, block_data option) rpc"
  get_chain_id :: "('n, u64) rpc"
  eth_call :: "bytes \<Rightarrow> bytes \<Rightarrow> u64 \<Rightarrow> ('n, bytes) rpc"

text \<open>The method that the trait gives by default.\<close>

definition call_default :: "bytes \<Rightarrow> bytes \<Rightarrow> u64 \<Rightarrow> ('n, bytes) rpc" where
  "call_default to data block = rpc_lift (Inl (CrossCheck ''evm-rpc: this provider makes no eth_call''))"

subsection \<open>A node over time\<close>

text \<open>The state of the node is the time. At each moment it has a canonical chain, given by the
  block hash at each height. A call is answered from the chain at some moment while it runs; a
  receipt is the one of a block that was then canonical, and \<open>receipt_in\<close> gives the receipts of
  a block by its hash.\<close>

type_synonym view = "u64 \<Rightarrow> bytes option"

definition answered :: "nat \<Rightarrow> nat \<Rightarrow> (nat \<Rightarrow> bool) \<Rightarrow> bool" where
  "answered t t' P \<longleftrightarrow> t \<le> t' \<and> (\<exists>u. t \<le> u \<and> u \<le> t' \<and> P u)"

definition follows ::
  "(nat \<Rightarrow> view) \<Rightarrow> (bytes \<Rightarrow> bytes \<Rightarrow> receipt_data option) \<Rightarrow> nat evm_provider \<Rightarrow> bool" where
  "follows views receipt_in p \<longleftrightarrow>
     (\<forall>tx t r t'. get_transaction_receipt p tx t = (Inr (Some r), t') \<longrightarrow>
        t \<le> t' \<and> receipt_in (rc_block_hash r) tx = Some r) \<and>
     (\<forall>tag t b t'. get_block_by_tag p tag t = (Inr (Some b), t') \<longrightarrow>
        answered t t' (\<lambda>u. views u (blk_number b) = Some (blk_hash b))) \<and>
     (\<forall>n t b t'. get_block_by_number p n t = (Inr (Some b), t') \<longrightarrow>
        answered t t' (\<lambda>u. views u (blk_number b) = Some (blk_hash b)))"

text \<open>A block that a reorganisation removed does not become canonical again.\<close>

definition no_return :: "(nat \<Rightarrow> view) \<Rightarrow> bool" where
  "no_return views \<longleftrightarrow>
     (\<forall>t u v h x. t \<le> u \<longrightarrow> u \<le> v \<longrightarrow> views t h = Some x \<longrightarrow> views v h = Some x \<longrightarrow> views u h = Some x)"

end
