(* ===== verification/Evm_Events.thy ===== *)
theory Evm_Events
  imports Evm_Rpc Bridge_Config
begin

text \<open>
  Verification of the EVM deposit behind a mint (\<open>enclave/src/networks/evm/events.rs\<close> and
  \<open>enclave/src/server/bfa.rs\<close>): the ABI words of a log, the choice of the one log of the pinned
  contract, the comparison with the request, and the inclusion of the receipt below the tagged
  head. Keccak-256 is a parameter.
\<close>

subsection \<open>ABI words\<close>

definition abi_word :: "u64 \<Rightarrow> bytes" where
  "abi_word v = replicate 24 0 @ word_be v"

definition abi_address :: "bytes \<Rightarrow> bytes" where
  "abi_address a = replicate 12 0 @ a"

definition extract_uint256_as_u64 :: "bytes \<Rightarrow> nat \<Rightarrow> u64 enclave_result" where
  "extract_uint256_as_u64 data offset =
    (let fin = offset + 32 in
     if length data < fin then Inl (CrossCheck ''call_data too short'')
     else
       let slot = sub_slice data offset fin in
       if list_ex (\<lambda>b. b \<noteq> 0) (take 24 slot) then Inl (CrossCheck ''uint256 value exceeds u64 range'')
       else Inr (of_nat (be_nat (drop 24 slot))))"

definition decode_u64_word :: "bytes \<Rightarrow> nat \<Rightarrow> string \<Rightarrow> u64 enclave_result" where
  "decode_u64_word data offset field =
    map_err (\<lambda>e. CrossCheck (''FundsIn '' @ field)) (extract_uint256_as_u64 data offset)"

definition BRIDGE_FUNDS_IN_SIG :: string where
  "BRIDGE_FUNDS_IN_SIG = ''BridgeFundsIn(bytes32,bytes32,address,uint256,uint256,uint256,uint256,uint256,uint256,uint256,string,bytes)''"

definition FUNDS_IN_SIG :: string where
  "FUNDS_IN_SIG = ''FundsIn(address,uint256,uint64)''"

definition BFI_OPERATION_ID_TOPIC :: nat where "BFI_OPERATION_ID_TOPIC = 1"
definition BFI_AMOUNT_OFF :: nat where "BFI_AMOUNT_OFF = 32"
definition BFI_NET_AMOUNT_OFF :: nat where "BFI_NET_AMOUNT_OFF = 64"
definition BFI_TOKEN_COMMISSION_OFF :: nat where "BFI_TOKEN_COMMISSION_OFF = 96"
definition BFI_DEST_CHAIN_ID_OFF :: nat where "BFI_DEST_CHAIN_ID_OFF = 192"
definition BFI_DEST_ADDRESS_HEAD_OFF :: nat where "BFI_DEST_ADDRESS_HEAD_OFF = 224"
definition BFI_MAX_DEST_ADDRESS_LEN :: nat where "BFI_MAX_DEST_ADDRESS_LEN = 2048"
definition BFI_MIN_DATA_LEN :: nat where "BFI_MIN_DATA_LEN = 9 * 32"
definition FUNDS_IN_LOCK_ID_TOPIC :: nat where "FUNDS_IN_LOCK_ID_TOPIC = 2"
definition RGB_CHAIN_ID :: u64 where "RGB_CHAIN_ID = 827166"

lemmas bfi_consts = BFI_OPERATION_ID_TOPIC_def BFI_AMOUNT_OFF_def BFI_NET_AMOUNT_OFF_def
  BFI_TOKEN_COMMISSION_OFF_def BFI_DEST_CHAIN_ID_OFF_def BFI_DEST_ADDRESS_HEAD_OFF_def
  BFI_MAX_DEST_ADDRESS_LEN_def BFI_MIN_DATA_LEN_def FUNDS_IN_LOCK_ID_TOPIC_def

definition decode_abi_string :: "bytes \<Rightarrow> nat \<Rightarrow> string \<Rightarrow> string enclave_result" where
  "decode_abi_string data head_off field =
    (let err = (\<lambda>m. CrossCheck (''BridgeFundsIn '' @ field @ m));
         word_at = (\<lambda>off. map_err (\<lambda>_. err '': bad word'') (extract_uint256_as_u64 data off)) in
     and_then (word_at head_off) (\<lambda>offset.
     and_then (ok_or (checked_add offset 32) (err '': tail offset overflow'')) (\<lambda>len_off.
     and_then (require (unat len_off \<le> length data) (err '': tail offset past the data'')) (\<lambda>_.
     and_then (word_at (unat offset)) (\<lambda>len.
     and_then (require (unat len \<le> BFI_MAX_DEST_ADDRESS_LEN) (err '': tail length exceeds the cap'')) (\<lambda>_.
     and_then (ok_or (checked_add len_off len) (err '': tail length overflow'')) (\<lambda>fin.
     and_then (require (unat fin \<le> length data) (err '': tail past the data'')) (\<lambda>_.
     ok_or (from_utf8 (sub_slice data (unat len_off) (unat fin))) (err '': tail is not valid UTF-8'')))))))))"

subsection \<open>Logs\<close>

definition event_topic0 :: "(bytes \<Rightarrow> bytes) \<Rightarrow> string \<Rightarrow> bytes" where
  "event_topic0 keccak sig = keccak (as_str_bytes sig)"

definition nth_topic :: "log_entry \<Rightarrow> nat \<Rightarrow> bytes option" where
  "nth_topic log i = (if i < length (log_topics log) then Some (log_topics log ! i) else None)"

record bridge_funds_in_record =
  bfi_operation_id :: bytes
  bfi_gross :: u64
  bfi_net :: u64
  bfi_commission :: u64
  bfi_dest_chain_id :: u64
  bfi_destination_address :: string

definition decode_bridge_funds_in :: "log_entry \<Rightarrow> bridge_funds_in_record enclave_result" where
  "decode_bridge_funds_in log =
    and_then (ok_or (nth_topic log BFI_OPERATION_ID_TOPIC)
      (CrossCheck ''BridgeFundsIn log has no operationId topic'')) (\<lambda>operation_id.
    and_then (require (BFI_MIN_DATA_LEN \<le> length (log_data log))
      (CrossCheck ''BridgeFundsIn data too short'')) (\<lambda>_.
    and_then (decode_u64_word (log_data log) BFI_AMOUNT_OFF ''amount'') (\<lambda>gross.
    and_then (decode_u64_word (log_data log) BFI_NET_AMOUNT_OFF ''netAmount'') (\<lambda>net.
    and_then (decode_u64_word (log_data log) BFI_TOKEN_COMMISSION_OFF ''tokenCommission'') (\<lambda>commission.
    and_then (decode_u64_word (log_data log) BFI_DEST_CHAIN_ID_OFF ''destinationChainId'') (\<lambda>dest_chain_id.
    and_then (decode_abi_string (log_data log) BFI_DEST_ADDRESS_HEAD_OFF ''destinationAddress'') (\<lambda>destination_address.
    Inr \<lparr>bfi_operation_id = operation_id, bfi_gross = gross, bfi_net = net, bfi_commission = commission,
      bfi_dest_chain_id = dest_chain_id, bfi_destination_address = destination_address\<rparr>)))))))"

definition log_matches :: "bytes \<Rightarrow> bytes \<Rightarrow> nat \<Rightarrow> bytes \<Rightarrow> bytes option \<Rightarrow> log_entry \<Rightarrow> bool" where
  "log_matches emitter topic0 id_topic ident data log \<longleftrightarrow>
     log_address log = emitter \<and> nth_topic log 0 = Some topic0 \<and> nth_topic log id_topic = Some ident \<and>
     (case data of None \<Rightarrow> True | Some d \<Rightarrow> log_data log = d)"

definition select_unique_log ::
  "receipt_data \<Rightarrow> bytes \<Rightarrow> bytes \<Rightarrow> nat \<Rightarrow> bytes \<Rightarrow> bytes option \<Rightarrow> log_entry enclave_result" where
  "select_unique_log receipt emitter topic0 id_topic ident data =
    (let candidates = filter (log_matches emitter topic0 id_topic ident data) (rc_logs receipt) in
     if 1 < length candidates then Inl (CrossCheck ''ambiguous: multiple logs'')
     else case candidates of [] \<Rightarrow> Inl (CrossCheck ''no such log'') | log # _ \<Rightarrow> Inr log)"

definition check_eq :: "string \<Rightarrow> u64 \<Rightarrow> u64 \<Rightarrow> unit enclave_result" where
  "check_eq field got want = require (got = want) (CrossCheck (''FundsIn mismatch: '' @ field))"

subsection \<open>Receipts and finality\<close>

definition fetch_successful_receipt :: "'n evm_provider \<Rightarrow> bytes \<Rightarrow> ('n, receipt_data) rpc" where
  "fetch_successful_receipt p tx_hash =
    rpc_then (get_transaction_receipt p tx_hash) (\<lambda>r.
    rpc_then (rpc_lift (ok_or r (CrossCheck ''FundsIn receipt not found''))) (\<lambda>receipt.
    rpc_lift (if \<not> status_success receipt then Inl (CrossCheck ''FundsIn tx reverted'') else Inr receipt)))"

definition fetch_finality_block :: "'n evm_provider \<Rightarrow> evm_finality_tag \<Rightarrow> ('n, block_data) rpc" where
  "fetch_finality_block p tag =
    rpc_then (get_block_by_tag p tag) (\<lambda>b.
    rpc_lift (ok_or b (CrossCheck ''FundsIn tagged block unavailable from RPC'')))"

definition check_finality_inclusion ::
  "'n evm_provider \<Rightarrow> evm_finality_tag \<Rightarrow> block_data \<Rightarrow> receipt_data \<Rightarrow> ('n, unit) rpc" where
  "check_finality_inclusion p tag head receipt =
    (if blk_number head < rc_block_number receipt then
       rpc_lift (Inl (if tag = Safe \<or> tag = Finalized
         then EvmFinalityPending (rc_block_number receipt) tag (blk_number head)
         else CrossCheck ''FundsIn receipt block is above the RPC block''))
     else
       rpc_then (get_block_by_number p (rc_block_number receipt)) (\<lambda>b.
       rpc_then (rpc_lift (ok_or b (CrossCheck ''FundsIn canonical block unavailable from RPC''))) (\<lambda>canonical.
       rpc_lift
        (if blk_number canonical \<noteq> rc_block_number receipt then
           Inl (CrossCheck ''FundsIn canonical block number mismatch'')
         else if blk_hash canonical \<noteq> rc_block_hash receipt then
           Inl (CrossCheck ''FundsIn receipt block hash does not match canonical block'')
         else if rc_block_number receipt = blk_number head \<and> rc_block_hash receipt \<noteq> blk_hash head then
           Inl (CrossCheck ''FundsIn receipt block hash does not match block snapshot'')
         else Inr ()))))"

definition check_finality_snapshot ::
  "'n evm_provider \<Rightarrow> evm_finality_tag \<Rightarrow> block_data \<Rightarrow> ('n, unit) rpc" where
  "check_finality_snapshot p tag initial =
    rpc_then (fetch_finality_block p tag) (\<lambda>current.
    if blk_number current < blk_number initial then
      rpc_lift (Inl (CrossCheck ''FundsIn block regressed during verification''))
    else
      rpc_then
        (if blk_number current = blk_number initial then rpc_lift (Inr current)
         else rpc_then (get_block_by_number p (blk_number initial)) (\<lambda>b.
           rpc_lift (ok_or b (CrossCheck ''FundsIn original block unavailable from RPC'')))) (\<lambda>original.
      rpc_lift (require (original = initial)
        (CrossCheck ''FundsIn block snapshot changed during verification''))))"

subsection \<open>The deposit of a request\<close>

definition check_deposit_amounts :: "bridge_funds_in_record \<Rightarrow> bytes \<Rightarrow> u64 \<Rightarrow> u64 \<Rightarrow> unit enclave_result" where
  "check_deposit_amounts r expected_id expected_gross expected_commission =
    and_then (require (expected_id = bfi_operation_id r) (CrossCheck ''FundsIn operationId mismatch'')) (\<lambda>_.
    and_then (check_eq ''amount'' (bfi_gross r) expected_gross) (\<lambda>_.
    and_then (check_eq ''tokenCommission'' (bfi_commission r) expected_commission) (\<lambda>_.
    and_then (ok_or (checked_sub (bfi_gross r) (bfi_commission r))
      (CrossCheck ''BridgeFundsIn commission exceeds gross amount'')) (\<lambda>max_net.
    require (bfi_net r \<le> max_net) (CrossCheck ''BridgeFundsIn netAmount exceeds gross - commission'')))))"

definition verify_funds_in_event ::
  "(bytes \<Rightarrow> bytes) \<Rightarrow> 'n evm_provider \<Rightarrow> bytes \<Rightarrow> evm_finality_tag \<Rightarrow> bytes \<Rightarrow> bytes \<Rightarrow> u64 \<Rightarrow> u64 \<Rightarrow>
   ('n, string) rpc" where
  "verify_funds_in_event keccak p contract tag tx_hash expected_id expected_gross expected_commission =
    rpc_then (rpc_lift (require (length expected_id = 32)
      (CrossCheck ''FundsIn expected operationId must be exactly 32 bytes''))) (\<lambda>_.
    rpc_then (fetch_finality_block p tag) (\<lambda>head.
    rpc_then (fetch_successful_receipt p tx_hash) (\<lambda>receipt.
    rpc_then (rpc_lift (select_unique_log receipt contract (event_topic0 keccak BRIDGE_FUNDS_IN_SIG)
      BFI_OPERATION_ID_TOPIC expected_id None)) (\<lambda>log.
    rpc_then (rpc_lift (decode_bridge_funds_in log)) (\<lambda>r.
    rpc_then (rpc_lift (check_deposit_amounts r expected_id expected_gross expected_commission)) (\<lambda>_.
    rpc_then (check_finality_inclusion p tag head receipt) (\<lambda>_.
    rpc_then (check_finality_snapshot p tag head) (\<lambda>_.
    rpc_lift (Inr (bfi_destination_address r))))))))))"

subsection \<open>The lock of a mint\<close>

record verified_lock =
  vl_lock_id :: bytes
  vl_minted :: u64
  vl_operation_id :: bytes
  vl_net_amount :: u64

definition decode_funds_in :: "(bytes \<Rightarrow> bytes) \<Rightarrow> log_entry \<Rightarrow> bytes \<Rightarrow> u64 enclave_result" where
  "decode_funds_in keccak log expected_lock_id =
    and_then (require (nth_topic log 0 = Some (event_topic0 keccak FUNDS_IN_SIG))
      (CrossCheck ''log is not a FundsIn event'')) (\<lambda>_.
    and_then (require (length (log_topics log) = 3 \<and> length (log_data log) = 32)
      (CrossCheck ''unexpected FundsIn event layout'')) (\<lambda>_.
    let lock_id = log_topics log ! FUNDS_IN_LOCK_ID_TOPIC in
    and_then (extract_uint256_as_u64 (log_data log) 0) (\<lambda>amount.
    and_then (require (lock_id = expected_lock_id) (CrossCheck ''FundsIn lockId mismatch'')) (\<lambda>_.
    Inr amount))))"

definition RGB_MINT_DEPOSIT_TYPEHASH_STR :: string where
  "RGB_MINT_DEPOSIT_TYPEHASH_STR =
    ''UtexoRgbMintDeposit(address bridge,uint256 chainId,address token,uint256 rgbNetwork,uint256 rgbOpId,uint256 netAmount)''"

definition rgb_mint_deposit_id ::
  "(bytes \<Rightarrow> bytes) \<Rightarrow> bridge_config \<Rightarrow> bytes \<Rightarrow> u64 \<Rightarrow> bytes enclave_result" where
  "rgb_mint_deposit_id keccak cfg lock_id minted =
    and_then (require (\<not> (token_contract cfg = replicate 20 0 \<or> chain_id cfg = 0))
      (CrossCheck ''TOKEN_CONTRACT and EVM_CHAIN_ID must be pinned'')) (\<lambda>_.
    and_then (require (minted \<noteq> 0) (CrossCheck ''BFA mint mints nothing'')) (\<lambda>_.
    Inr (keccak (keccak (as_str_bytes RGB_MINT_DEPOSIT_TYPEHASH_STR) @ abi_address (funds_in_contract cfg) @
      abi_word (chain_id cfg) @ abi_address (token_contract cfg) @ abi_word RGB_CHAIN_ID @ lock_id @
      abi_word minted))))"

definition derived_lock ::
  "(bytes \<Rightarrow> bytes) \<Rightarrow> bridge_config \<Rightarrow> bytes \<Rightarrow> u64 \<Rightarrow> verified_lock enclave_result" where
  "derived_lock keccak cfg lock_id minted =
    and_then (rgb_mint_deposit_id keccak cfg lock_id minted) (\<lambda>operation_id.
    Inr \<lparr>vl_lock_id = lock_id, vl_minted = minted, vl_operation_id = operation_id, vl_net_amount = minted\<rparr>)"

definition verify_rgb_funds_in ::
  "(bytes \<Rightarrow> bytes) \<Rightarrow> 'n evm_provider \<Rightarrow> bytes \<Rightarrow> evm_finality_tag \<Rightarrow> bytes \<Rightarrow> bytes \<Rightarrow> bytes \<Rightarrow> u64 \<Rightarrow>
   u64 \<Rightarrow> ('n, verified_lock) rpc" where
  "verify_rgb_funds_in keccak p contract tag tx_hash lock_id operation_id minted before_block =
    rpc_then (fetch_finality_block p tag) (\<lambda>head.
    rpc_then (fetch_successful_receipt p tx_hash) (\<lambda>receipt.
    rpc_then (rpc_lift (select_unique_log receipt contract (event_topic0 keccak FUNDS_IN_SIG)
      FUNDS_IN_LOCK_ID_TOPIC lock_id (Some (abi_word minted)))) (\<lambda>log.
    rpc_then (rpc_lift (decode_funds_in keccak log lock_id)) (\<lambda>minted.
    rpc_then (rpc_lift (select_unique_log receipt contract (event_topic0 keccak BRIDGE_FUNDS_IN_SIG)
      BFI_OPERATION_ID_TOPIC operation_id None)) (\<lambda>bridge_log.
    rpc_then (rpc_lift (decode_bridge_funds_in bridge_log)) (\<lambda>r.
    rpc_then (rpc_lift (require (bfi_dest_chain_id r = RGB_CHAIN_ID)
      (CrossCheck ''BridgeFundsIn destinationChainId is not the RGB network id''))) (\<lambda>_.
    rpc_then (rpc_lift (require (rc_block_number receipt < before_block)
      (CrossCheck ''FundsIn block is not before beforeBlock''))) (\<lambda>_.
    rpc_then (check_finality_inclusion p tag head receipt) (\<lambda>_.
    rpc_then (check_finality_snapshot p tag head) (\<lambda>_.
    rpc_lift (Inr \<lparr>vl_lock_id = lock_id, vl_minted = minted, vl_operation_id = bfi_operation_id r,
      vl_net_amount = bfi_net r\<rparr>)))))))))))"

definition check_node_chain_id :: "'n evm_provider \<Rightarrow> u64 \<Rightarrow> ('n, u64) rpc" where
  "check_node_chain_id p pinned =
    rpc_then (get_chain_id p) (\<lambda>node.
    rpc_lift (if node \<noteq> pinned then Inl (CrossCheck ''EVM RPC node reports another chain id'') else Inr node))"

subsection \<open>Binding a mint to its deposit\<close>

record bfa_bridge =
  bb_chain_id :: u64
  bb_address :: bytes

record mint_anchor =
  ma_opid :: bytes
  ma_lock_id :: bytes
  ma_amount :: u64
  ma_before_block :: u64
  ma_in_last_bundle :: bool

record bound_anchors =
  ba_evm_chain_id :: u64
  ba_locks :: "verified_lock list"

definition check_bridge :: "bridge_config \<Rightarrow> bfa_bridge \<Rightarrow> unit enclave_result" where
  "check_bridge cfg bridge =
    require (\<not> (bb_chain_id bridge \<noteq> chain_id cfg \<or> bb_address bridge \<noteq> funds_in_contract cfg))
      (CrossCheck ''asset bridge location is not the pinned funds-in contract'')"

definition derive_all ::
  "(bytes \<Rightarrow> bytes) \<Rightarrow> bridge_config \<Rightarrow> mint_anchor list \<Rightarrow> verified_lock list enclave_result" where
  "derive_all keccak cfg anchors =
    collect_map (\<lambda>a. derived_lock keccak cfg (ma_lock_id a) (ma_amount a)) anchors"

definition derived_locks ::
  "(bytes \<Rightarrow> bytes) \<Rightarrow> bridge_config \<Rightarrow> bfa_bridge \<Rightarrow> mint_anchor list \<Rightarrow> bound_anchors enclave_result" where
  "derived_locks keccak cfg bridge anchors =
    and_then (check_bridge cfg bridge) (\<lambda>_.
    and_then (derive_all keccak cfg anchors) (\<lambda>locks.
    Inr \<lparr>ba_evm_chain_id = chain_id cfg, ba_locks = locks\<rparr>))"

text \<open>The facts of a mint that the binding reads. \<open>launch\<close> is \<^const>\<open>None\<close> until the endpoints are
  set and then holds the RPC client, if there is one.\<close>

record mint_facts =
  mf_opid :: bytes
  mf_lock_id :: bytes
  mf_issued :: u64
  mf_before_block :: u64

definition bind_request_deposit :: "verified_lock \<Rightarrow> verified_lock \<Rightarrow> unit enclave_result" where
  "bind_request_deposit derived paid =
    require (paid = derived) (CrossCheck ''the request's deposit is not the one the mint lockId derives'')"

definition bind_mint_deposit ::
  "(bytes \<Rightarrow> bytes) \<Rightarrow> bridge_config \<Rightarrow> 'n evm_provider option option \<Rightarrow> bytes \<Rightarrow> bytes \<Rightarrow> mint_facts \<Rightarrow>
   ('n, unit) rpc" where
  "bind_mint_deposit keccak cfg launch tx_hash request_operation_id mint =
    rpc_then (rpc_lift (derived_lock keccak cfg (mf_lock_id mint) (mf_issued mint))) (\<lambda>derived.
    rpc_then (rpc_lift (require (request_operation_id = vl_operation_id derived)
      (CrossCheck ''the request's funds_in_operation_id is not the deposit id the mint derives''))) (\<lambda>_.
    rpc_then (rpc_lift (ok_or launch (NotReady ''endpoints-unset''))) (\<lambda>client.
    rpc_then (rpc_lift (ok_or client (CrossCheck ''the EVM RPC client is unavailable''))) (\<lambda>p.
    rpc_then (check_node_chain_id p (chain_id cfg)) (\<lambda>_.
    rpc_then (verify_rgb_funds_in keccak p (funds_in_contract cfg) (cfg_evm_finality_tag cfg) tx_hash
      (mf_lock_id mint) (vl_operation_id derived) (mf_issued mint) (mf_before_block mint)) (\<lambda>paid.
    rpc_lift (bind_request_deposit derived paid)))))))"

subsection \<open>What the decoders read\<close>

lemma length_abi_word [simp]: "length (abi_word v) = 32"
  by (simp add: abi_word_def)

lemma abi_word_inject [simp]: "abi_word v = abi_word w \<longleftrightarrow> v = w"
  using word_be_be_nat [of "word_be v" v] word_be_be_nat [of "word_be v" w] by (auto simp: abi_word_def)

lemma all_zero_replicate: "\<not> list_ex (\<lambda>b. b \<noteq> 0) xs \<longleftrightarrow> xs = replicate (length xs) (0 :: u8)"
  by (induction xs) auto

lemma extract_uint256_as_u64_Inr:
  "extract_uint256_as_u64 data off = Inr v \<longleftrightarrow>
     off + 32 \<le> length data \<and> sub_slice data off (off + 32) = abi_word v"
proof (cases "off + 32 \<le> length data")
  case True
  define slot where "slot = sub_slice data off (off + 32)"
  have len: "length slot = 32" using True by (simp add: slot_def)
  have "extract_uint256_as_u64 data off = Inr v \<longleftrightarrow>
      take 24 slot = replicate 24 0 \<and> of_nat (be_nat (drop 24 slot)) = v"
    using True len all_zero_replicate [of "take 24 slot"]
    by (auto simp: extract_uint256_as_u64_def Let_def slot_def [symmetric] not_less)
  also have "\<dots> \<longleftrightarrow> take 24 slot = replicate 24 0 \<and> drop 24 slot = word_be v"
    using len by (subst word_be_be_nat) simp_all
  also have "\<dots> \<longleftrightarrow> slot = abi_word v"
    by (metis abi_word_def append_eq_conv_conj append_take_drop_id length_replicate)
  finally show ?thesis using True by (simp add: slot_def)
qed (simp add: extract_uint256_as_u64_def Let_def not_le)

lemma select_unique_log_Inr:
  "select_unique_log receipt emitter topic0 i ident data = Inr log \<longleftrightarrow>
     filter (log_matches emitter topic0 i ident data) (rc_logs receipt) = [log]"
  by (auto simp: select_unique_log_def Let_def split: list.splits if_splits)

lemma check_deposit_amounts_Inr:
  "check_deposit_amounts r ident gross commission = Inr u \<longleftrightarrow>
     bfi_operation_id r = ident \<and> bfi_gross r = gross \<and> bfi_commission r = commission \<and>
     unat (bfi_net r) + unat commission \<le> unat gross"
  by (auto simp: check_deposit_amounts_def check_eq_def result_simps int_ops word_le_nat_alt unat_sub)

lemma fetch_finality_block_Inr:
  "fetch_finality_block p tag t = (Inr head, t') \<longleftrightarrow> get_block_by_tag p tag t = (Inr (Some head), t')"
  by (auto simp: fetch_finality_block_def rpc_simps)

lemma fetch_successful_receipt_Inr:
  "fetch_successful_receipt p tx t = (Inr receipt, t') \<longleftrightarrow>
     get_transaction_receipt p tx t = (Inr (Some receipt), t') \<and> status_success receipt"
  by (auto simp: fetch_successful_receipt_def rpc_simps split: if_splits)

lemma check_finality_inclusion_Inr:
  "check_finality_inclusion p tag head receipt t = (Inr u, t') \<longleftrightarrow>
     rc_block_number receipt \<le> blk_number head \<and>
     get_block_by_number p (rc_block_number receipt) t =
       (Inr (Some \<lparr>blk_number = rc_block_number receipt, blk_hash = rc_block_hash receipt\<rparr>), t') \<and>
     (rc_block_number receipt = blk_number head \<longrightarrow> rc_block_hash receipt = blk_hash head)"
  (is "?l \<longleftrightarrow> ?r")
proof
  show "?l \<Longrightarrow> ?r" by (auto simp: check_finality_inclusion_def rpc_simps split: if_splits)
qed (auto simp: check_finality_inclusion_def)

lemma check_finality_snapshot_Inr:
  "check_finality_snapshot p tag initial t = (Inr u, t') \<longleftrightarrow>
     get_block_by_tag p tag t = (Inr (Some initial), t') \<or>
     (\<exists>current t1. get_block_by_tag p tag t = (Inr (Some current), t1) \<and>
        blk_number initial < blk_number current \<and>
        get_block_by_number p (blk_number initial) t1 = (Inr (Some initial), t'))"
  (is "?l \<longleftrightarrow> ?r")
proof
  show "?l \<Longrightarrow> ?r"
    by (auto simp: check_finality_snapshot_def rpc_simps fetch_finality_block_Inr split: if_splits)
qed (auto simp: check_finality_snapshot_def fetch_finality_block_def)

subsection \<open>One moment at which receipt and head are on the same chain\<close>

lemma followsD:
  assumes "follows views receipt_in p"
  shows "get_transaction_receipt p tx t = (Inr (Some r), t') \<Longrightarrow> t \<le> t' \<and> receipt_in (rc_block_hash r) tx = Some r"
    and "get_block_by_tag p tag t = (Inr (Some b), t') \<Longrightarrow>
      answered t t' (\<lambda>u. views u (blk_number b) = Some (blk_hash b))"
    and "get_block_by_number p n t = (Inr (Some b), t') \<Longrightarrow>
      answered t t' (\<lambda>u. views u (blk_number b) = Some (blk_hash b))"
  using assms unfolding follows_def by blast+

lemma snapshot_answered:
  assumes "follows views receipt_in p" "check_finality_snapshot p tag head t = (Inr (), t')"
  shows "answered t t' (\<lambda>u. views u (blk_number head) = Some (blk_hash head))"
  using assms(2) unfolding check_finality_snapshot_Inr
proof (elim disjE exE conjE)
  fix current t1
  assume "get_block_by_tag p tag t = (Inr (Some current), t1)"
    "get_block_by_number p (blk_number head) t1 = (Inr (Some head), t')"
  then show ?thesis using followsD(2,3) [OF assms(1)] unfolding answered_def by (meson order_trans)
qed (use followsD(2) [OF assms(1)] in blast)

definition same_chain :: "(nat \<Rightarrow> view) \<Rightarrow> block_data \<Rightarrow> receipt_data \<Rightarrow> nat \<Rightarrow> bool" where
  "same_chain views head receipt u \<longleftrightarrow> views u (blk_number head) = Some (blk_hash head) \<and>
     views u (rc_block_number receipt) = Some (rc_block_hash receipt)"

lemma same_moment:
  assumes "follows views receipt_in p" "no_return views"
    and "get_block_by_tag p tag t = (Inr (Some head), t1)"
    and "t1 \<le> t2" "check_finality_inclusion p tag head receipt t2 = (Inr (), t3)"
    and "check_finality_snapshot p tag head t3 = (Inr (), t4)"
  shows "answered t t4 (same_chain views head receipt)"
proof -
  obtain u1 where u1: "t \<le> u1" "u1 \<le> t1" "views u1 (blk_number head) = Some (blk_hash head)"
    using followsD(2) [OF assms(1,3)] unfolding answered_def by blast
  obtain u2 where u2: "t2 \<le> u2" "u2 \<le> t3" "views u2 (rc_block_number receipt) = Some (rc_block_hash receipt)"
    using assms(5) followsD(3) [OF assms(1), of "rc_block_number receipt" t2 _ t3]
    unfolding check_finality_inclusion_Inr answered_def by force
  obtain u3 where u3: "t3 \<le> u3" "u3 \<le> t4" "views u3 (blk_number head) = Some (blk_hash head)"
    using snapshot_answered [OF assms(1,6)] unfolding answered_def by blast
  have "u1 \<le> u2" "u2 \<le> u3" using u1 u2 u3 assms(4) by linarith+
  then have "views u2 (blk_number head) = Some (blk_hash head)"
    using assms(2) u1(3) u3(3) unfolding no_return_def by blast
  moreover have "t \<le> t4" "t \<le> u2" "u2 \<le> t4" using u1 u2 u3 assms(4) by linarith+
  ultimately show ?thesis using u2(3) unfolding answered_def same_chain_def by blast
qed

subsection \<open>The layout of a deposit log\<close>

definition abi_at :: "bytes \<Rightarrow> nat \<Rightarrow> u64 \<Rightarrow> bool" where
  "abi_at data off v \<longleftrightarrow> off + 32 \<le> length data \<and> sub_slice data off (off + 32) = abi_word v"

definition abi_string_at :: "bytes \<Rightarrow> nat \<Rightarrow> string \<Rightarrow> bool" where
  "abi_string_at data head s \<longleftrightarrow> valid_string s \<and> length s \<le> 2048 \<and>
     (\<exists>off. abi_at data head off \<and> abi_at data (unat off) (of_nat (length s)) \<and>
        unat off + 32 + length s \<le> length data \<and>
        sub_slice data (unat off + 32) (unat off + 32 + length s) = as_str_bytes s)"

text \<open>A \<open>BridgeFundsIn\<close> log of the contract for this deposit: the data words are the amounts.\<close>

definition deposit_log :: "(bytes \<Rightarrow> bytes) \<Rightarrow> bytes \<Rightarrow> bytes \<Rightarrow> log_entry \<Rightarrow> bool" where
  "deposit_log keccak contract ident =
     log_matches contract (event_topic0 keccak BRIDGE_FUNDS_IN_SIG) 1 ident None"

definition lock_log :: "(bytes \<Rightarrow> bytes) \<Rightarrow> bytes \<Rightarrow> bytes \<Rightarrow> u64 \<Rightarrow> log_entry \<Rightarrow> bool" where
  "lock_log keccak contract lock_id minted =
     log_matches contract (event_topic0 keccak FUNDS_IN_SIG) 2 lock_id (Some (abi_word minted))"

definition only_log :: "(log_entry \<Rightarrow> bool) \<Rightarrow> receipt_data \<Rightarrow> log_entry \<Rightarrow> bool" where
  "only_log P receipt log \<longleftrightarrow> filter P (rc_logs receipt) = [log]"

lemma extract_abi_at: "extract_uint256_as_u64 data off = Inr v \<longleftrightarrow> abi_at data off v"
  by (simp add: extract_uint256_as_u64_Inr abi_at_def)

lemma decode_u64_word_Inr: "decode_u64_word data off f = Inr v \<longleftrightarrow> abi_at data off v"
  by (simp add: decode_u64_word_def extract_abi_at)

lemma decode_abi_string_sound:
  assumes "decode_abi_string data head f = Inr s"
  shows "abi_string_at data head s"
proof -
  obtain off len where d: "abi_at data head off" "abi_at data (unat off) len" "unat len \<le> 2048"
    "unat off + 32 + unat len \<le> length data"
    "from_utf8 (sub_slice data (unat off + 32) (unat off + 32 + unat len)) = Some s"
    using assms unfolding decode_abi_string_def Let_def
    by (auto simp: result_simps extract_abi_at checked_add_Some BFI_MAX_DEST_ADDRESS_LEN_def)
  then have str: "sub_slice data (unat off + 32) (unat off + 32 + unat len) = as_str_bytes s" "valid_string s"
    by (simp_all add: from_utf8_Some)
  have "length (as_str_bytes s) = unat len" unfolding str(1) [symmetric] using d(4) by simp
  then have "length s = unat len" "len = of_nat (length s)" by simp_all
  then show ?thesis using d str unfolding abi_string_at_def by (intro conjI exI [of _ off]) simp_all
qed

lemma decode_bridge_funds_in_Inr:
  assumes "decode_bridge_funds_in log = Inr r"
  shows "nth_topic log 1 = Some (bfi_operation_id r)" "abi_at (log_data log) 32 (bfi_gross r)"
    "abi_at (log_data log) 64 (bfi_net r)" "abi_at (log_data log) 96 (bfi_commission r)"
    "abi_at (log_data log) 192 (bfi_dest_chain_id r)"
    "abi_string_at (log_data log) 224 (bfi_destination_address r)"
  using assms by (auto simp: decode_bridge_funds_in_def result_simps decode_u64_word_Inr bfi_consts
    dest: decode_abi_string_sound)

lemma verify_funds_in_event_Inr:
  "verify_funds_in_event keccak p contract tag tx ident gross commission t = (Inr dest, t') \<longleftrightarrow>
    (\<exists>head receipt log r t1 t2 t3. length ident = 32 \<and>
       get_block_by_tag p tag t = (Inr (Some head), t1) \<and>
       get_transaction_receipt p tx t1 = (Inr (Some receipt), t2) \<and> status_success receipt \<and>
       only_log (deposit_log keccak contract ident) receipt log \<and> decode_bridge_funds_in log = Inr r \<and>
       check_deposit_amounts r ident gross commission = Inr () \<and>
       check_finality_inclusion p tag head receipt t2 = (Inr (), t3) \<and>
       check_finality_snapshot p tag head t3 = (Inr (), t') \<and> dest = bfi_destination_address r)"
  unfolding verify_funds_in_event_def rpc_simps fetch_finality_block_Inr fetch_successful_receipt_Inr
    prod.inject Pair_inject select_unique_log_Inr only_log_def deposit_log_def BFI_OPERATION_ID_TOPIC_def
  by auto

subsection \<open>Errors\<close>

text \<open>The client reports every failure of its own as \<open>CrossCheck\<close>.\<close>

definition crosscheck_errors :: "'n evm_provider \<Rightarrow> bool" where
  "crosscheck_errors p \<longleftrightarrow>
     (\<forall>tx t e t'. get_transaction_receipt p tx t = (Inl e, t') \<longrightarrow> (\<exists>m. e = CrossCheck m)) \<and>
     (\<forall>tag t e t'. get_block_by_tag p tag t = (Inl e, t') \<longrightarrow> (\<exists>m. e = CrossCheck m)) \<and>
     (\<forall>n t e t'. get_block_by_number p n t = (Inl e, t') \<longrightarrow> (\<exists>m. e = CrossCheck m))"

lemma crosscheck_errorsD:
  assumes "crosscheck_errors p"
  shows "get_transaction_receipt p tx t = (Inl e, t') \<Longrightarrow> \<exists>m. e = CrossCheck m"
    and "get_block_by_tag p tag t = (Inl e, t') \<Longrightarrow> \<exists>m. e = CrossCheck m"
    and "get_block_by_number p n t = (Inl e, t') \<Longrightarrow> \<exists>m. e = CrossCheck m"
  using assms unfolding crosscheck_errors_def by blast+

lemma decode_abi_string_Inl: "decode_abi_string data off f = Inl e \<Longrightarrow> \<exists>m. e = CrossCheck m"
  by (auto simp: decode_abi_string_def Let_def result_simps)

lemma decode_bridge_funds_in_Inl: "decode_bridge_funds_in log = Inl e \<Longrightarrow> \<exists>m. e = CrossCheck m"
  by (auto simp: decode_bridge_funds_in_def decode_u64_word_def result_simps dest: decode_abi_string_Inl)

lemma select_unique_log_Inl:
  "select_unique_log receipt emitter topic0 i ident data = Inl e \<Longrightarrow> \<exists>m. e = CrossCheck m"
  by (auto simp: select_unique_log_def Let_def split: if_splits list.splits)

lemma check_deposit_amounts_Inl: "check_deposit_amounts r ident g c = Inl e \<Longrightarrow> \<exists>m. e = CrossCheck m"
  by (auto simp: check_deposit_amounts_def check_eq_def result_simps)

lemma provider_errors:
  assumes "crosscheck_errors p"
  shows "fetch_finality_block p tag t = (Inl e, t') \<Longrightarrow> \<exists>m. e = CrossCheck m"
    and "fetch_successful_receipt p tx t = (Inl e, t') \<Longrightarrow> \<exists>m. e = CrossCheck m"
    and "check_finality_snapshot p tag head t = (Inl e, t') \<Longrightarrow> \<exists>m. e = CrossCheck m"
  by (auto simp: fetch_finality_block_def fetch_successful_receipt_def check_finality_snapshot_def
    rpc_simps dest: crosscheck_errorsD [OF assms] split: if_splits)

lemma check_finality_inclusion_Inl:
  assumes "crosscheck_errors p" "check_finality_inclusion p tag head receipt t = (Inl e, t')"
  shows "(\<exists>m. e = CrossCheck m) \<or>
    t' = t \<and> tag \<noteq> Latest \<and> blk_number head < rc_block_number receipt \<and>
    e = EvmFinalityPending (rc_block_number receipt) tag (blk_number head)"
  using assms(2) by (cases tag) (auto simp: check_finality_inclusion_def rpc_simps
    dest: crosscheck_errorsD [OF assms(1)] split: if_splits)

lemma verify_funds_in_event_Inl:
  assumes "crosscheck_errors p"
    and "verify_funds_in_event keccak p contract tag tx ident gross commission t = (Inl e, t')"
  shows "(\<exists>m. e = CrossCheck m) \<or>
    (\<exists>head receipt log r t1. length ident = 32 \<and> get_block_by_tag p tag t = (Inr (Some head), t1) \<and>
       get_transaction_receipt p tx t1 = (Inr (Some receipt), t') \<and> status_success receipt \<and>
       only_log (deposit_log keccak contract ident) receipt log \<and> decode_bridge_funds_in log = Inr r \<and>
       check_deposit_amounts r ident gross commission = Inr () \<and> tag \<noteq> Latest \<and>
       blk_number head < rc_block_number receipt \<and>
       e = EvmFinalityPending (rc_block_number receipt) tag (blk_number head))"
  using assms(2) unfolding verify_funds_in_event_def rpc_then_Inl rpc_lift_apply prod.inject
    fetch_finality_block_Inr fetch_successful_receipt_Inr
    select_unique_log_Inr only_log_def deposit_log_def BFI_OPERATION_ID_TOPIC_def require_Inl require_Inr
  by (elim disjE exE conjE)
    (auto dest: decode_bridge_funds_in_Inl select_unique_log_Inl check_deposit_amounts_Inl provider_errors [OF assms(1)]
      check_finality_inclusion_Inl [OF assms(1)])

subsection \<open>Properties\<close>


subsection \<open>A node for the witnesses\<close>

lemma abi_words_at:
  assumes "i < length ws" "off = 32 * i"
  shows "abi_at (concat (map abi_word ws) @ rest) off (ws ! i)"
proof -
  have len: "length (concat (map abi_word vs)) = 32 * length vs" for vs
    by (induction vs) simp_all
  have split: "concat (map abi_word ws) = concat (map abi_word (take i ws)) @ abi_word (ws ! i) @
      concat (map abi_word (drop (Suc i) ws))"
    using id_take_nth_drop [OF assms(1)] by (metis concat.simps(2) concat_append list.simps(9) map_append)
  show ?thesis using assms unfolding abi_at_def sub_slice_def split
    by (simp add: len min_def)
qed

definition demo_keccak :: "bytes \<Rightarrow> bytes" where
  "demo_keccak bs = replicate 32 (of_nat (length bs))"

definition demo_words :: "u64 list" where
  "demo_words = [0, 100, 95, 5, 0, 1, 827166, 288, 288, 0]"

definition demo_deposit :: log_entry where
  "demo_deposit = \<lparr>log_address = replicate 20 1,
     log_topics = [event_topic0 demo_keccak BRIDGE_FUNDS_IN_SIG, replicate 32 224],
     log_data = concat (map abi_word demo_words)\<rparr>"

definition demo_lock :: log_entry where
  "demo_lock = \<lparr>log_address = replicate 20 1,
     log_topics = [event_topic0 demo_keccak FUNDS_IN_SIG, replicate 32 3, replicate 32 4],
     log_data = abi_word 95\<rparr>"

definition demo_receipt :: receipt_data where
  "demo_receipt = \<lparr>status_success = True, rc_block_number = 5, rc_block_hash = [5],
     rc_logs = [demo_lock, demo_deposit]\<rparr>"

definition demo_views :: "nat \<Rightarrow> view" where
  "demo_views t n = (if n = 5 then Some [5] else if n = 9 then Some [9] else None)"

definition demo_node :: "u64 \<Rightarrow> nat evm_provider" where
  "demo_node tip =
    \<lparr>get_transaction_receipt = (\<lambda>tx t. (Inr (Some demo_receipt), t + 1)),
     get_block_by_tag = (\<lambda>tag t. (Inr (map_option (\<lambda>h. \<lparr>blk_number = tip, blk_hash = h\<rparr>) (demo_views t tip)), t + 1)),
     get_block_by_number = (\<lambda>n t. (Inr (map_option (\<lambda>h. \<lparr>blk_number = n, blk_hash = h\<rparr>) (demo_views t n)), t + 1)),
     get_chain_id = (\<lambda>t. (Inr 1, t + 1)), eth_call = call_default\<rparr>"

lemma demo_follows: "follows demo_views (\<lambda>_ _. Some demo_receipt) (demo_node tip)" "no_return demo_views"
  by (auto simp: follows_def answered_def demo_node_def no_return_def demo_views_def)

lemma demo_at: "i < 10 \<Longrightarrow> off = 32 * i \<Longrightarrow> abi_at (log_data demo_deposit) off (demo_words ! i)"
  using abi_words_at [of i demo_words off "[]"] by (simp add: demo_deposit_def demo_words_def)

lemma demo_length: "length (log_data demo_deposit) = 320"
  by (simp add: demo_deposit_def demo_words_def)

lemma demo_decodes:
  "decode_bridge_funds_in demo_deposit = Inr \<lparr>bfi_operation_id = replicate 32 224, bfi_gross = 100, bfi_net = 95,
     bfi_commission = 5, bfi_dest_chain_id = 827166, bfi_destination_address = []\<rparr>"
proof -
  have "extract_uint256_as_u64 (log_data demo_deposit) 32 = Inr 100"
    "extract_uint256_as_u64 (log_data demo_deposit) 64 = Inr 95"
    "extract_uint256_as_u64 (log_data demo_deposit) 96 = Inr 5"
    "extract_uint256_as_u64 (log_data demo_deposit) 192 = Inr 827166"
    "extract_uint256_as_u64 (log_data demo_deposit) 224 = Inr 288"
    "extract_uint256_as_u64 (log_data demo_deposit) 288 = Inr 0"
    using demo_at [of 1] demo_at [of 2] demo_at [of 3] demo_at [of 6] demo_at [of 7] demo_at [of 9]
    unfolding extract_abi_at by (simp_all add: demo_words_def)
  moreover have "nth_topic demo_deposit 1 = Some (replicate 32 224)"
    by (simp add: nth_topic_def demo_deposit_def)
  ultimately show ?thesis
    by (simp add: decode_bridge_funds_in_def decode_u64_word_def decode_abi_string_def bfi_consts demo_length Let_def
      checked_add_def from_utf8_def sub_slice_def)
qed

lemma demo_logs:
  "only_log (deposit_log demo_keccak (replicate 20 1) (replicate 32 224)) demo_receipt demo_deposit"
  "only_log (lock_log demo_keccak (replicate 20 1) (replicate 32 4) 95) demo_receipt demo_lock"
  by (simp_all add: only_log_def deposit_log_def lock_log_def log_matches_def demo_receipt_def nth_topic_def
    demo_deposit_def demo_lock_def event_topic0_def demo_keccak_def BRIDGE_FUNDS_IN_SIG_def FUNDS_IN_SIG_def)

lemma demo_verified:
  "verify_funds_in_event demo_keccak (demo_node 9) (replicate 20 1) Finalized tx (replicate 32 224) 100 5 t = (Inr [], t + 4)"
  unfolding verify_funds_in_event_Inr
  by (intro exI [of _ "\<lparr>blk_number = 9, blk_hash = [9]\<rparr>"] exI [of _ demo_receipt] exI [of _ demo_deposit]
      exI [of _ "\<lparr>bfi_operation_id = replicate 32 224, bfi_gross = 100, bfi_net = 95,
     bfi_commission = 5, bfi_dest_chain_id = 827166, bfi_destination_address = []\<rparr>"]
      exI [of _ "t + 1"] exI [of _ "t + 2"] exI [of _ "t + 3"] conjI demo_decodes demo_logs)
    (simp_all add: demo_node_def demo_views_def demo_receipt_def check_deposit_amounts_def check_eq_def checked_sub_def
      check_finality_inclusion_Inr check_finality_snapshot_Inr)


text \<open>C39: the error of a refused deposit says whether to retry. The pending error, wire code 8, is
  returned exactly when the tag is \<open>safe\<close> or \<open>finalized\<close>, the receipt succeeded, holds the one
  matching log with the requested amounts, and only its block is still above the tagged head; every
  other refusal has wire code 3.\<close>

theorem pending_error_exact:
  assumes "crosscheck_errors p"
  shows "(verify_funds_in_event keccak p contract tag tx ident gross commission t =
      (Inl (EvmFinalityPending rb tag' fb), t') \<longleftrightarrow>
    tag' = tag \<and> tag \<noteq> Latest \<and> fb < rb \<and> length ident = 32 \<and>
    (\<exists>head receipt log r t1. get_block_by_tag p tag t = (Inr (Some head), t1) \<and> blk_number head = fb \<and>
       get_transaction_receipt p tx t1 = (Inr (Some receipt), t') \<and> rc_block_number receipt = rb \<and>
       status_success receipt \<and> only_log (deposit_log keccak contract ident) receipt log \<and>
       decode_bridge_funds_in log = Inr r \<and> check_deposit_amounts r ident gross commission = Inr ())) \<and>
    (\<forall>e. fst (verify_funds_in_event keccak p contract tag tx ident gross commission t) = Inl e \<longrightarrow>
       error_code e = (if \<exists>rb fb. e = EvmFinalityPending rb tag fb then 8 else 3))"
    (is "(?v = ?pending \<longleftrightarrow> ?rhs) \<and> ?codes")
proof
  have "error_code e = (if \<exists>rb fb. e = EvmFinalityPending rb tag fb then 8 else 3)"
    if "fst ?v = Inl e" for e
    using verify_funds_in_event_Inl [OF assms, of keccak contract tag tx ident gross commission t e "snd ?v"] that
    by (cases ?v) auto
  then show ?codes by blast
  show "?v = ?pending \<longleftrightarrow> ?rhs"
  proof
    show "?v = ?pending \<Longrightarrow> ?rhs" by (drule verify_funds_in_event_Inl [OF assms]) fastforce
  next
    assume ?rhs
    then obtain head receipt log r t1 where *: "tag' = tag" "tag \<noteq> Latest" "fb < rb" "length ident = 32"
      "get_block_by_tag p tag t = (Inr (Some head), t1)" "blk_number head = fb"
      "get_transaction_receipt p tx t1 = (Inr (Some receipt), t')" "rc_block_number receipt = rb"
      "status_success receipt" "only_log (deposit_log keccak contract ident) receipt log"
      "decode_bridge_funds_in log = Inr r" "check_deposit_amounts r ident gross commission = Inr ()" by blast
    have "fetch_finality_block p tag t = (Inr head, t1)" using *(5) by (simp add: fetch_finality_block_Inr)
    moreover have "fetch_successful_receipt p tx t1 = (Inr receipt, t')"
      using *(7,9) by (simp add: fetch_successful_receipt_Inr)
    moreover have "select_unique_log receipt contract (event_topic0 keccak BRIDGE_FUNDS_IN_SIG)
        BFI_OPERATION_ID_TOPIC ident None = Inr log"
      using *(10) by (simp add: select_unique_log_Inr only_log_def deposit_log_def BFI_OPERATION_ID_TOPIC_def)
    moreover have "check_finality_inclusion p tag head receipt t' = (Inl (EvmFinalityPending rb tag fb), t')"
      using * by (cases tag) (simp_all add: check_finality_inclusion_def)
    ultimately show "?v = ?pending"
      using * by (simp add: verify_funds_in_event_def)
  qed
qed

definition demo_low_node :: "nat evm_provider" where
  "demo_low_node = demo_node 4\<lparr>get_block_by_tag := (\<lambda>_ t. (Inr (Some \<lparr>blk_number = 4, blk_hash = [4]\<rparr>), t))\<rparr>"

theorem pending_error_exact_witness:
  "verify_funds_in_event demo_keccak demo_low_node (replicate 20 1) Safe [7] (replicate 32 224) 100 5 0 =
     (Inl (EvmFinalityPending 5 Safe 4), 1)"
proof -
  have "crosscheck_errors demo_low_node" by (auto simp: crosscheck_errors_def demo_node_def demo_low_node_def)
  then show ?thesis
    by (rule pending_error_exact [THEN conjunct1, THEN iffD2],
      intro conjI exI [of _ "\<lparr>blk_number = 4, blk_hash = [4]\<rparr>"] exI [of _ demo_receipt] exI [of _ demo_deposit]
        exI [of _ "\<lparr>bfi_operation_id = replicate 32 224, bfi_gross = 100, bfi_net = 95,
          bfi_commission = 5, bfi_dest_chain_id = 827166, bfi_destination_address = []\<rparr>"] exI [of _ 0]
        demo_decodes demo_logs)
      (simp_all add: demo_node_def demo_low_node_def demo_receipt_def check_deposit_amounts_Inr)
qed

subsection \<open>The deposit of a mint\<close>

lemma decode_funds_in_Inr:
  "decode_funds_in keccak log lock_id = Inr v \<Longrightarrow> log_data log = abi_word w \<Longrightarrow> v = w"
  by (auto simp: decode_funds_in_def result_simps Let_def extract_abi_at abi_at_def sub_slice_def)

lemma verify_rgb_funds_in_Inr:
  assumes "verify_rgb_funds_in keccak p contract tag tx lock_id operation_id minted before_block t = (Inr paid, t')"
  obtains head receipt log dlog t1 t2 t3 where "get_block_by_tag p tag t = (Inr (Some head), t1)"
    "get_transaction_receipt p tx t1 = (Inr (Some receipt), t2)" "status_success receipt"
    "only_log (lock_log keccak contract lock_id minted) receipt log"
    "only_log (deposit_log keccak contract operation_id) receipt dlog"
    "abi_at (log_data dlog) 64 (vl_net_amount paid)" "abi_at (log_data dlog) 192 RGB_CHAIN_ID"
    "rc_block_number receipt < before_block"
    "check_finality_inclusion p tag head receipt t2 = (Inr (), t3)"
    "check_finality_snapshot p tag head t3 = (Inr (), t')"
proof -
  obtain head receipt log dlog r t1 t2 t3 where *: "get_block_by_tag p tag t = (Inr (Some head), t1)"
    "get_transaction_receipt p tx t1 = (Inr (Some receipt), t2)" "status_success receipt"
    "only_log (lock_log keccak contract lock_id minted) receipt log"
    "only_log (deposit_log keccak contract operation_id) receipt dlog"
    "decode_bridge_funds_in dlog = Inr r" "bfi_dest_chain_id r = RGB_CHAIN_ID" "vl_net_amount paid = bfi_net r"
    "rc_block_number receipt < before_block"
    "check_finality_inclusion p tag head receipt t2 = (Inr (), t3)"
    "check_finality_snapshot p tag head t3 = (Inr (), t')"
    using assms unfolding verify_rgb_funds_in_def rpc_simps fetch_finality_block_Inr fetch_successful_receipt_Inr
      prod.inject select_unique_log_Inr only_log_def deposit_log_def lock_log_def bfi_consts require_Inr
    by (elim exE conjE) auto
  show ?thesis using that [OF *(1-5) _ _ *(9-11)] decode_bridge_funds_in_Inr(3,5) [OF *(6)] *(7,8) by simp
qed

definition deposit_preimage :: "(bytes \<Rightarrow> bytes) \<Rightarrow> bridge_config \<Rightarrow> bytes \<Rightarrow> u64 \<Rightarrow> bytes" where
  "deposit_preimage keccak cfg lock_id minted =
     keccak (as_str_bytes RGB_MINT_DEPOSIT_TYPEHASH_STR) @ abi_address (funds_in_contract cfg) @
     abi_word (chain_id cfg) @ abi_address (token_contract cfg) @ abi_word RGB_CHAIN_ID @ lock_id @ abi_word minted"

lemma rgb_mint_deposit_id_Inr:
  "rgb_mint_deposit_id keccak cfg lock_id minted = Inr ident \<longleftrightarrow>
     token_contract cfg \<noteq> replicate 20 0 \<and> chain_id cfg \<noteq> 0 \<and> minted \<noteq> 0 \<and>
     ident = keccak (deposit_preimage keccak cfg lock_id minted)"
  by (auto simp: rgb_mint_deposit_id_def deposit_preimage_def result_simps)

lemma deposit_preimage_inject:
  "deposit_preimage keccak cfg l m = deposit_preimage keccak cfg l' m' \<longleftrightarrow> l = l' \<and> m = m'"
  unfolding deposit_preimage_def same_append_eq by (auto simp: append_eq_append_conv)


definition demo_mint_config :: bridge_config where
  "demo_mint_config = bridge_config_default\<lparr>chain_id := 1, rgb_asset_id := ''asset'', token_contract := replicate 20 2,
     funds_in_contract := replicate 20 1\<rparr>"

definition demo_mint :: "bytes \<Rightarrow> mint_facts" where
  "demo_mint opid = \<lparr>mf_opid = opid, mf_lock_id = replicate 32 4, mf_issued = 95, mf_before_block = 6\<rparr>"

lemma demo_lock_decodes: "decode_funds_in demo_keccak demo_lock (replicate 32 4) = Inr 95"
proof -
  have "extract_uint256_as_u64 (log_data demo_lock) 0 = Inr 95"
    by (simp add: extract_abi_at abi_at_def sub_slice_def demo_lock_def)
  then show ?thesis
    by (simp add: decode_funds_in_def demo_lock_def nth_topic_def bfi_consts numeral_2_eq_2)
qed

lemma demo_bound:
  "bind_mint_deposit demo_keccak demo_mint_config (Some (Some (demo_node 9))) tx (replicate 32 224) (demo_mint opid) t =
    (Inr (), t + 5)"
proof -
  have len: "length (deposit_preimage demo_keccak demo_mint_config (replicate 32 4) 95) = 224"
    by (simp add: deposit_preimage_def demo_keccak_def abi_address_def demo_mint_config_def)
  have d: "derived_lock demo_keccak demo_mint_config (replicate 32 4) 95 = Inr \<lparr>vl_lock_id = replicate 32 4,
      vl_minted = 95, vl_operation_id = replicate 32 224, vl_net_amount = 95\<rparr>"
  proof -
    have "rgb_mint_deposit_id demo_keccak demo_mint_config (replicate 32 4) 95 = Inr (replicate 32 224)"
      unfolding rgb_mint_deposit_id_Inr using len by (simp add: demo_keccak_def demo_mint_config_def)
    then show ?thesis by (simp add: derived_lock_def)
  qed
  have sel: "select_unique_log demo_receipt (replicate 20 1) (event_topic0 demo_keccak FUNDS_IN_SIG)
      FUNDS_IN_LOCK_ID_TOPIC (replicate 32 4) (Some (abi_word 95)) = Inr demo_lock"
    "select_unique_log demo_receipt (replicate 20 1) (event_topic0 demo_keccak BRIDGE_FUNDS_IN_SIG)
      BFI_OPERATION_ID_TOPIC (replicate 32 224) None = Inr demo_deposit"
    using demo_logs by (simp_all add: select_unique_log_Inr only_log_def deposit_log_def lock_log_def bfi_consts)
  have fin: "check_finality_inclusion (demo_node 9) Finalized \<lparr>blk_number = 9, blk_hash = [9]\<rparr> demo_receipt (t + 3) = (Inr (), t + 4)"
    "check_finality_snapshot (demo_node 9) Finalized \<lparr>blk_number = 9, blk_hash = [9]\<rparr> (t + 4) = (Inr (), t + 5)"
    "fetch_finality_block (demo_node 9) Finalized (t + 1) = (Inr \<lparr>blk_number = 9, blk_hash = [9]\<rparr>, t + 2)"
    "fetch_successful_receipt (demo_node 9) tx (t + 2) = (Inr demo_receipt, t + 3)"
    "check_node_chain_id (demo_node 9) 1 t = (Inr 1, t + 1)"
    by (simp_all add: check_finality_inclusion_Inr check_finality_snapshot_Inr fetch_finality_block_Inr
      fetch_successful_receipt_Inr check_node_chain_id_def rpc_then_def demo_node_def demo_views_def demo_receipt_def)
  have "verify_rgb_funds_in demo_keccak (demo_node 9) (replicate 20 1) Finalized tx (replicate 32 4) (replicate 32 224)
      95 6 (t + 1) = (Inr \<lparr>vl_lock_id = replicate 32 4, vl_minted = 95, vl_operation_id = replicate 32 224,
        vl_net_amount = 95\<rparr>, t + 5)"
    using fin by (simp add: verify_rgb_funds_in_def sel demo_lock_decodes demo_decodes RGB_CHAIN_ID_def)
      (simp add: demo_receipt_def)
  moreover have "chain_id demo_mint_config = 1" "funds_in_contract demo_mint_config = replicate 20 1"
    "cfg_evm_finality_tag demo_mint_config = Finalized"
    by (simp_all add: demo_mint_config_def bridge_config_default_def)
  ultimately show ?thesis using fin d by (simp add: bind_mint_deposit_def demo_mint_def bind_request_deposit_def)
qed


end
