(* ===== verification/Sign_Request.thy ===== *)
theory Sign_Request
  imports Spv_Crosscheck
begin

text \<open>
  The messages of a signing request (\<open>enclave-proto/src/enclave.rs\<close>) and the route-neutral proof
  that the validators exchange (\<open>enclave/src/networks/route.rs\<close>).
\<close>

text \<open>The features and flags of a build that the signing path depends on.\<close>

record signer_build =
  b_evm_to_rgb :: bool
  b_rgb_to_evm :: bool
  b_rgb_validation :: bool
  b_spv :: bool
  b_bfa_mint :: bool
  b_evm_rpc :: bool
  b_ccd :: bool
  b_debug_assertions :: bool

record lz_release_params =
  lzr_dst_eid :: u32
  lzr_min_amount_ld :: u64
  lzr_recipient :: bytes

record burn_destination =
  bd_version :: u32
  bd_destination_chain_id :: u64
  bd_dst_eid :: u32
  bd_recipient :: bytes

record evm_destination =
  call_data :: bytes
  ed_nonce :: u64
  ed_deadline :: u64
  ed_chain_id :: u64
  proxy_contract :: bytes
  calldata_amount :: u64
  calldata_commission :: u64
  lz_release :: "lz_release_params option"
  ed_burn_destination :: "burn_destination option"

record rgb_destination =
  operation_idx :: u64
  psbt_bytes :: bytes
  psbt_output_amount :: u64
  rd_asset_id :: string
  rd_consignment :: bytes
  rd_consignment_hash :: bytes
  fascia :: bytes
  parent_fascia :: bytes

record evm_source =
  es_tx_hash :: bytes
  event_valid :: bool
  event_finalized :: bool
  es_token :: bytes
  es_recipient :: bytes
  es_commission :: u64
  funds_in_operation_id :: bytes

record rgb_source =
  consignment_valid :: bool
  rs_asset_id :: string
  rs_consignment :: bytes
  rs_consignment_hash :: bytes
  merkle_proofs :: "merkle_proof_entry list"
  rs_commission :: u64

record ccd_source =
  cs_tx_hash :: bytes
  cs_commission :: u64

datatype source_network = EvmSource evm_source | RgbSource rgb_source | CcdSource ccd_source

datatype destination_network = EvmDestination evm_destination | RgbDestination rgb_destination

record sign_request =
  sr_amount :: u64
  source_network :: "source_network option"
  destination_network :: "destination_network option"

record route_proof =
  rp_amount :: u64
  rp_operation_id :: "string option"

end
