(* ===== verification/Evm_Release.thy ===== *)
theory Evm_Release
  imports Evm_Events Sign_Request
begin

text \<open>
  The EVM side of a release: the calldata and its checks
  (\<open>enclave/src/networks/evm/validation.rs\<close>, \<open>lz_options.rs\<close>), the destination that a burn
  commits to (\<open>burn_destination.rs\<close>) and the EIP-712 digests that the enclave signs
  (\<open>signing.rs\<close>). Keccak-256 and the ABI codec of \<open>alloy\<close> are parameters.
\<close>

subsection \<open>Calldata\<close>

record funds_out_params =
  fo_recipient :: bytes
  fo_amount :: u256
  fo_burn_id :: u256
  fo_source_chain_id :: u256
  fo_destination_chain_id :: u256
  fo_source_address :: string
  fo_proof :: bytes
  fo_settlement_data :: bytes
  fo_source_burn_tx_id :: bytes

record lz_funds_out_call =
  lz_amount :: u256
  lz_burn_id :: u256
  lz_source_chain_id :: u256
  lz_destination_chain_id :: u256
  lz_source_address :: string
  lz_proof :: bytes
  lz_settlement_data :: bytes
  lz_dst_eid :: u32
  lz_recipient :: bytes
  lz_min_amount_ld :: u256
  lz_extra_options :: bytes
  lz_source_burn_tx_id :: bytes

text \<open>What the code calls of \<open>alloy_sol_types\<close>: the codecs of the two calls and of the list of
  operation ids, and the EIP-712 struct hash of a burn destination.\<close>

record alloy_lib =
  abi_decode_funds_out :: "bytes \<Rightarrow> funds_out_params option"
  abi_encode_funds_out :: "funds_out_params \<Rightarrow> bytes"
  abi_decode_lz_funds_out :: "bytes \<Rightarrow> lz_funds_out_call option"
  abi_encode_lz_funds_out :: "lz_funds_out_call \<Rightarrow> bytes"
  abi_decode_settlement :: "bytes \<Rightarrow> bytes list option"
  abi_encode_settlement :: "bytes list \<Rightarrow> bytes"
  eip712_hash_struct :: "u64 \<Rightarrow> u32 \<Rightarrow> bytes \<Rightarrow> bytes"

definition ADDRESS_LEN :: nat where "ADDRESS_LEN = 20"
definition HASH_LEN :: nat where "HASH_LEN = 32"

definition FUNDS_OUT_SELECTOR_POOLS :: bytes where
  "FUNDS_OUT_SELECTOR_POOLS = [0x34, 0x02, 0x76, 0xaa]"

definition LZ_FUNDS_OUT_SELECTOR :: "(bytes \<Rightarrow> bytes) \<Rightarrow> bytes" where
  "LZ_FUNDS_OUT_SELECTOR keccak = take 4 (keccak (as_str_bytes
    ''lzFundsOut(uint256,uint256,uint256,uint256,string,bytes,bytes,uint32,bytes32,uint256,bytes,bytes32)''))"

definition ALLOWED_SELECTORS :: "(bytes \<Rightarrow> bytes) \<Rightarrow> bytes list" where
  "ALLOWED_SELECTORS keccak = [FUNDS_OUT_SELECTOR_POOLS, LZ_FUNDS_OUT_SELECTOR keccak]"

definition MAX_FUNDS_OUT_CALL_DATA_LEN :: nat where "MAX_FUNDS_OUT_CALL_DATA_LEN = 96 * 1024"
definition MAX_TEE_DEADLINE_SECS :: u64 where "MAX_TEE_DEADLINE_SECS = 24 * 60 * 60"

definition evm_validate_source :: "u64 \<Rightarrow> evm_source \<Rightarrow> route_proof enclave_result" where
  "evm_validate_source amount source =
    (if length (es_tx_hash source) \<noteq> HASH_LEN then Inl (CrossCheck ''evm_tx_hash must be 32 bytes'')
     else Inr \<lparr>rp_amount = amount, rp_operation_id = None\<rparr>)"

record release_identity =
  ri_burn_id :: u256
  ri_amount :: u256
  ri_source_chain_id :: u256
  ri_source_address :: string
  ri_settlement_data :: bytes
  ri_source_burn_tx_id :: bytes
  ri_recipient :: bytes
  ri_destination_chain_id :: u256
  ri_dst_eid :: "u32 option"
  ri_proof :: bytes

definition from_funds_out :: "funds_out_params \<Rightarrow> release_identity" where
  "from_funds_out params =
    \<lparr>ri_burn_id = fo_burn_id params, ri_amount = fo_amount params,
     ri_source_chain_id = fo_source_chain_id params, ri_source_address = fo_source_address params,
     ri_settlement_data = fo_settlement_data params, ri_source_burn_tx_id = fo_source_burn_tx_id params,
     ri_recipient = replicate 12 0 @ fo_recipient params,
     ri_destination_chain_id = fo_destination_chain_id params, ri_dst_eid = None, ri_proof = fo_proof params\<rparr>"

definition from_lz_funds_out :: "lz_funds_out_call \<Rightarrow> release_identity" where
  "from_lz_funds_out call =
    \<lparr>ri_burn_id = lz_burn_id call, ri_amount = lz_amount call,
     ri_source_chain_id = lz_source_chain_id call, ri_source_address = lz_source_address call,
     ri_settlement_data = lz_settlement_data call, ri_source_burn_tx_id = lz_source_burn_tx_id call,
     ri_recipient = lz_recipient call, ri_destination_chain_id = lz_destination_chain_id call,
     ri_dst_eid = Some (lz_dst_eid call), ri_proof = lz_proof call\<rparr>"

definition BURN_TYPEHASH_STR :: string where
  "BURN_TYPEHASH_STR = ''UtexoBurnId(address bridge,uint256 chainId,address token,uint256 amount,uint256 sourceChainId,bytes32 sourceAddressHash,bytes32 sourceBurnTxId)''"

text \<open>\<open>U256::from\<close> of a \<open>u64\<close> is \<^const>\<open>ucast\<close>.\<close>

definition expected_burn_id :: "(bytes \<Rightarrow> bytes) \<Rightarrow> bridge_config \<Rightarrow> release_identity \<Rightarrow> u256" where
  "expected_burn_id keccak cfg release =
    of_nat (be_nat (keccak (keccak (as_str_bytes BURN_TYPEHASH_STR) @
      replicate 12 0 @ funds_in_contract cfg @ word_be (ucast (chain_id cfg) :: u256) @
      replicate 12 0 @ token_contract cfg @ word_be (ri_amount release) @
      word_be (ri_source_chain_id release) @ keccak (as_str_bytes (ri_source_address release)) @
      ri_source_burn_tx_id release)))"

definition validate_burn_id :: "(bytes \<Rightarrow> bytes) \<Rightarrow> bridge_config \<Rightarrow> release_identity \<Rightarrow> unit enclave_result" where
  "validate_burn_id keccak cfg release =
    (if token_contract cfg = replicate ADDRESS_LEN 0 then Inr ()
     else if ri_burn_id release \<noteq> expected_burn_id keccak cfg release then
       Inl (CrossCheck ''calldata burnId is not the one the Bridge derives'')
     else Inr ())"

definition validate_rgb_source_identity :: "release_identity \<Rightarrow> unit enclave_result" where
  "validate_rgb_source_identity release =
    (if ri_source_chain_id release \<noteq> ucast RGB_CHAIN_ID then
       Inl (CrossCheck ''calldata sourceChainId is not the RGB network id'')
     else if ri_source_address release \<noteq> [] then
       Inl (CrossCheck ''calldata sourceAddress must be empty on an RGB route'')
     else Inr ())"

definition decode_funds_out_params :: "alloy_lib \<Rightarrow> bytes \<Rightarrow> funds_out_params enclave_result" where
  "decode_funds_out_params abi data =
    and_then (ok_or (abi_decode_funds_out abi data) (CrossCheck ''invalid fundsOut calldata'')) (\<lambda>decoded.
    if abi_encode_funds_out abi decoded \<noteq> data then
      Inl (CrossCheck ''non-canonical fundsOut calldata encoding'')
    else Inr decoded)"

definition decode_lz_funds_out_params :: "alloy_lib \<Rightarrow> bytes \<Rightarrow> lz_funds_out_call enclave_result" where
  "decode_lz_funds_out_params abi data =
    and_then (ok_or (abi_decode_lz_funds_out abi data) (CrossCheck ''invalid lzFundsOut calldata'')) (\<lambda>decoded.
    if abi_encode_lz_funds_out abi decoded \<noteq> data then
      Inl (CrossCheck ''non-canonical lzFundsOut calldata encoding'')
    else Inr decoded)"

definition u64_try_from :: "u256 \<Rightarrow> string \<Rightarrow> u64 enclave_result" where
  "u64_try_from v e = (if unat v < 2 ^ 64 then Inr (ucast v) else Inl (CrossCheck e))"

definition route_proof_from_params :: "funds_out_params \<Rightarrow> route_proof enclave_result" where
  "route_proof_from_params params =
    and_then (u64_try_from (fo_amount params) ''fundsOut amount exceeds u64 range'') (\<lambda>amount.
    Inr \<lparr>rp_amount = amount, rp_operation_id = None\<rparr>)"

definition lz_route_proof_from_params :: "lz_funds_out_call \<Rightarrow> route_proof enclave_result" where
  "lz_route_proof_from_params decoded =
    and_then (u64_try_from (lz_amount decoded) ''lzFundsOut amount exceeds u64 range'') (\<lambda>amount.
    Inr \<lparr>rp_amount = amount, rp_operation_id = None\<rparr>)"

definition validate_min_amount_ld :: "lz_funds_out_call \<Rightarrow> unit enclave_result" where
  "validate_min_amount_ld decoded =
    (if lz_min_amount_ld decoded = 0 then Inl (CrossCheck ''lzFundsOut minAmountLD must be > 0'')
     else if lz_amount decoded < lz_min_amount_ld decoded then
       Inl (CrossCheck ''lzFundsOut minAmountLD exceeds amount'')
     else Inr ())"

subsection \<open>LayerZero options\<close>

definition MAX_LZ_RECEIVE_GAS :: nat where "MAX_LZ_RECEIVE_GAS = 1000000"
definition OPTIONS_TYPE_3 :: nat where "OPTIONS_TYPE_3 = 3"
definition EXECUTOR_WORKER_ID :: u8 where "EXECUTOR_WORKER_ID = 1"
definition OPTION_TYPE_LZRECEIVE :: u8 where "OPTION_TYPE_LZRECEIVE = 1"
definition LZRECEIVE_GAS_LEN :: nat where "LZRECEIVE_GAS_LEN = 16"

definition split_first_chunk :: "nat \<Rightarrow> bytes \<Rightarrow> (bytes \<times> bytes) option" where
  "split_first_chunk n xs = (if length xs < n then None else Some (take n xs, drop n xs))"

definition split_first :: "bytes \<Rightarrow> (u8 \<times> bytes) option" where
  "split_first xs = (case xs of [] \<Rightarrow> None | x # rest \<Rightarrow> Some (x, rest))"

definition validate_extra_options :: "bytes \<Rightarrow> unit enclave_result" where
  "validate_extra_options options =
    (let reject = (\<lambda>msg. CrossCheck (''lzFundsOut extraOptions: '' @ msg)) in
     if options = [] then Inr ()
     else
       and_then (ok_or (split_first_chunk 2 options) (reject ''too short'')) (\<lambda>(type_bytes, rest).
       and_then (require (be_nat type_bytes = OPTIONS_TYPE_3) (reject ''not type 3'')) (\<lambda>_.
       and_then (ok_or (split_first rest) (reject ''no option after the type'')) (\<lambda>(worker_id, rest).
       and_then (require (worker_id = EXECUTOR_WORKER_ID) (reject ''worker id is not the executor'')) (\<lambda>_.
       and_then (ok_or (split_first_chunk 2 rest) (reject ''option size is truncated'')) (\<lambda>(size_bytes, rest).
       and_then (require (be_nat size_bytes = length rest) (reject ''option size'')) (\<lambda>_.
       and_then (ok_or (split_first rest) (reject ''empty option'')) (\<lambda>(option_type, body).
       and_then (require (option_type = OPTION_TYPE_LZRECEIVE) (reject ''not lzReceive'')) (\<lambda>_.
       and_then (require (length body = LZRECEIVE_GAS_LEN) (reject ''option body'')) (\<lambda>_.
       require (be_nat body \<le> MAX_LZ_RECEIVE_GAS) (reject ''lzReceive gas'')))))))))))"

subsection \<open>The destination of a release\<close>

definition check_domain_pins :: "signer_build \<Rightarrow> bridge_config \<Rightarrow> unit enclave_result" where
  "check_domain_pins b cfg =
    (if b_rgb_validation b then require (is_configured cfg) (CrossCheck ''bridge config unconfigured'')
     else if \<not> b_debug_assertions b then
       require (\<not> (chain_id cfg = 0 \<or> bridge_contract cfg = replicate ADDRESS_LEN 0))
         (CrossCheck ''EVM domain unpinned'')
     else Inr ())"

definition check_destination_chain :: "bool \<Rightarrow> u256 \<Rightarrow> bridge_config \<Rightarrow> unit enclave_result" where
  "check_destination_chain is_entrypoint_route dest cfg =
    (if is_entrypoint_route then
       (if dest = 0 then Inl (CrossCheck ''calldata destinationChainId must be > 0'')
        else if chain_id cfg \<noteq> 0 \<and> dest = ucast (chain_id cfg) then
          Inl (CrossCheck ''calldata destinationChainId equals the pinned execution chain'')
        else Inr ())
     else if chain_id cfg \<noteq> 0 \<and> dest \<noteq> ucast (chain_id cfg) then
       Inl (CrossCheck ''calldata destinationChainId mismatch'')
     else Inr ())"

definition check_deadline :: "u64 \<Rightarrow> system_time \<Rightarrow> unit enclave_result" where
  "check_deadline deadline clock =
    and_then (ok_or (unix_secs clock) (Internal ''system time error'')) (\<lambda>now.
    if deadline \<le> now then Inl (CrossCheck ''request deadline expired'')
    else if saturating_add now MAX_TEE_DEADLINE_SECS < deadline then
      Inl (CrossCheck ''request deadline too far'')
    else Inr ())"

definition decode_release ::
  "alloy_lib \<Rightarrow> bool \<Rightarrow> bytes \<Rightarrow> (route_proof \<times> funds_out_params option \<times> u256 \<times> release_identity) enclave_result" where
  "decode_release abi is_entrypoint_route data =
    (if is_entrypoint_route then
       and_then (decode_lz_funds_out_params abi data) (\<lambda>decoded.
       and_then (validate_min_amount_ld decoded) (\<lambda>_.
       and_then (validate_extra_options (lz_extra_options decoded)) (\<lambda>_.
       and_then (lz_route_proof_from_params decoded) (\<lambda>proof.
       Inr (proof, None, lz_destination_chain_id decoded, from_lz_funds_out decoded)))))
     else
       and_then (decode_funds_out_params abi data) (\<lambda>params.
       and_then (route_proof_from_params params) (\<lambda>proof.
       Inr (proof, Some params, fo_destination_chain_id params, from_funds_out params))))"

definition evm_validate_destination ::
  "(bytes \<Rightarrow> bytes) \<Rightarrow> alloy_lib \<Rightarrow> signer_build \<Rightarrow> bridge_config \<Rightarrow> system_time \<Rightarrow> evm_destination \<Rightarrow>
   (route_proof \<times> funds_out_params option \<times> release_identity) enclave_result" where
  "evm_validate_destination keccak abi b cfg clock destination =
    and_then (require (4 \<le> length (call_data destination)) (CrossCheck ''call_data too short'')) (\<lambda>_.
    and_then (require (length (call_data destination) \<le> MAX_FUNDS_OUT_CALL_DATA_LEN)
      (CrossCheck ''call_data too large'')) (\<lambda>_.
    let selector = take 4 (call_data destination) in
    and_then (require (selector \<in> set (ALLOWED_SELECTORS keccak))
      (CrossCheck ''unexpected calldata selector'')) (\<lambda>_.
    let is_entrypoint_route = (selector = LZ_FUNDS_OUT_SELECTOR keccak) in
    and_then (require (\<not> (is_entrypoint_route \<and> lz_release destination = None))
      (CrossCheck ''lzFundsOut calldata requires lz_release'')) (\<lambda>_.
    and_then (require (\<not> (\<not> is_entrypoint_route \<and> lz_release destination \<noteq> None))
      (CrossCheck ''lz_release is only valid with lzFundsOut calldata'')) (\<lambda>_.
    and_then (decode_release abi is_entrypoint_route (call_data destination)) (\<lambda>(proof, params, dest_chain, release).
    and_then (require (rp_amount proof = calldata_amount destination) (CrossCheck ''calldata amount mismatch'')) (\<lambda>_.
    and_then (require (ed_chain_id destination \<noteq> 0) (CrossCheck ''chain_id must be > 0'')) (\<lambda>_.
    and_then (require (length (proxy_contract destination) = ADDRESS_LEN)
      (CrossCheck ''proxy_contract must be 20 bytes'')) (\<lambda>_.
    and_then (check_domain_pins b cfg) (\<lambda>_.
    and_then (require (\<not> (chain_id cfg \<noteq> 0 \<and> ed_chain_id destination \<noteq> chain_id cfg))
      (CrossCheck ''chain_id mismatch'')) (\<lambda>_.
    and_then (check_destination_chain is_entrypoint_route dest_chain cfg) (\<lambda>_.
    and_then (require (\<not> (bridge_contract cfg \<noteq> replicate ADDRESS_LEN 0 \<and> proxy_contract destination \<noteq> bridge_contract cfg))
      (CrossCheck ''proxy_contract mismatch'')) (\<lambda>_.
    and_then (check_deadline (ed_deadline destination) clock) (\<lambda>_.
    Inr (proof, params, release)))))))))))))))"

subsection \<open>The destination a burn commits to\<close>

definition VERSION_V1 :: u32 where "VERSION_V1 = 1"

record burn_destination_record =
  bdr_version :: u32
  bdr_destination_chain_id :: u64
  bdr_dst_eid :: u32
  bdr_recipient :: bytes

definition burn_destination_record_from :: "burn_destination \<Rightarrow> burn_destination_record" where
  "burn_destination_record_from wire =
    \<lparr>bdr_version = bd_version wire, bdr_destination_chain_id = bd_destination_chain_id wire,
     bdr_dst_eid = bd_dst_eid wire, bdr_recipient = bd_recipient wire\<rparr>"

definition hash_v1 :: "alloy_lib \<Rightarrow> burn_destination_record \<Rightarrow> bytes" where
  "hash_v1 abi r = eip712_hash_struct abi (bdr_destination_chain_id r) (bdr_dst_eid r) (bdr_recipient r)"

record burn_target =
  bt_destination_chain_id :: "u64 option"
  bt_dst_eid :: "u32 option"
  bt_recipient :: bytes

definition resolve_v1 :: "alloy_lib \<Rightarrow> bytes \<Rightarrow> burn_destination_record \<Rightarrow> burn_target enclave_result" where
  "resolve_v1 abi reason r =
    (let len = length (bdr_recipient r);
         len_ok = (if bdr_dst_eid r = 0 then len = ADDRESS_LEN else 1 \<le> len \<and> len \<le> HASH_LEN) in
     if bdr_destination_chain_id r = 0 then
       Inl (CrossCheck ''burn_destination destinationChainId must be > 0'')
     else if \<not> len_ok then Inl (CrossCheck ''burn_destination recipient length'')
     else if hash_v1 abi r \<noteq> reason then Inl (CrossCheck ''burn_destination hash is not the burnReason'')
     else Inr \<lparr>bt_destination_chain_id = Some (bdr_destination_chain_id r),
               bt_dst_eid = (if bdr_dst_eid r \<noteq> 0 then Some (bdr_dst_eid r) else None),
               bt_recipient = replicate (HASH_LEN - len) 0 @ bdr_recipient r\<rparr>)"

definition resolve ::
  "alloy_lib \<Rightarrow> bytes \<Rightarrow> burn_destination_record option \<Rightarrow> burn_target enclave_result" where
  "resolve abi reason r =
    (if take (HASH_LEN - ADDRESS_LEN) reason = replicate (HASH_LEN - ADDRESS_LEN) 0 then
       (if r \<noteq> None then Inl (CrossCheck ''burn_destination sent for a legacy (V0) burn'')
        else Inr \<lparr>bt_destination_chain_id = None, bt_dst_eid = None, bt_recipient = reason\<rparr>)
     else
       and_then (ok_or r (CrossCheck ''the request has no burn_destination'')) (\<lambda>r.
       if bdr_version r = VERSION_V1 then resolve_v1 abi reason r
       else Inl (CrossCheck ''unknown burn_destination version'')))"

subsection \<open>EIP-712 digests\<close>

definition abi_encode_u256 :: "u64 \<Rightarrow> bytes" where
  "abi_encode_u256 v = replicate 24 0 @ word_be v"

definition abi_encode_u32 :: "u32 \<Rightarrow> bytes" where
  "abi_encode_u32 v = replicate 28 0 @ word_be v"

definition abi_encode_address :: "bytes \<Rightarrow> bytes" where
  "abi_encode_address addr = replicate 12 0 @ addr"

definition DOMAIN_TYPE_HASH_STR :: string where
  "DOMAIN_TYPE_HASH_STR =
    ''EIP712Domain(string name,string version,uint256 chainId,address verifyingContract)''"

definition TEE_FUNDS_OUT_TYPE_HASH_STR :: string where
  "TEE_FUNDS_OUT_TYPE_HASH_STR = ''TeeFundsOut(address recipient,uint256 amount,uint256 burnId,uint256 sourceChainId,uint256 destinationChainId,string sourceAddress,bytes proof,bytes settlementData,bytes32 sourceBurnTxId,uint256 nonce,uint256 deadline)''"

definition TEE_LZ_FUNDS_OUT_TYPE_HASH_STR :: string where
  "TEE_LZ_FUNDS_OUT_TYPE_HASH_STR = ''TeeLzFundsOut(uint256 amount,uint256 burnId,uint256 sourceChainId,uint256 destinationChainId,string sourceAddress,bytes proof,bytes settlementData,uint32 dstEid,bytes32 recipient,uint256 minAmountLD,bytes extraOptions,bytes32 sourceBurnTxId,uint256 nonce,uint256 deadline)''"

record eip712_domain =
  dom_name :: string
  dom_version :: string
  dom_chain_id :: u64
  verifying_contract :: bytes

text \<open>The bytes that are hashed are named, so that the theorems can speak of them.\<close>

definition separator_preimage :: "(bytes \<Rightarrow> bytes) \<Rightarrow> eip712_domain \<Rightarrow> bytes" where
  "separator_preimage keccak d =
    keccak (as_str_bytes DOMAIN_TYPE_HASH_STR) @ keccak (as_str_bytes (dom_name d)) @
    keccak (as_str_bytes (dom_version d)) @ abi_encode_u256 (dom_chain_id d) @
    abi_encode_address (verifying_contract d)"

definition separator_hash :: "(bytes \<Rightarrow> bytes) \<Rightarrow> eip712_domain \<Rightarrow> bytes" where
  "separator_hash keccak d = keccak (separator_preimage keccak d)"

definition build_evm_domain :: "evm_destination \<Rightarrow> eip712_domain enclave_result" where
  "build_evm_domain req =
    (if ed_chain_id req = 0 then Inl (CrossCheck ''chain_id must be > 0'')
     else if length (proxy_contract req) \<noteq> ADDRESS_LEN then
       Inl (CrossCheck ''proxy_contract must be 20 bytes'')
     else Inr \<lparr>dom_name = ''MultisigProxy'', dom_version = ''1'', dom_chain_id = ed_chain_id req,
               verifying_contract = proxy_contract req\<rparr>)"

definition digest_preimage :: "(bytes \<Rightarrow> bytes) \<Rightarrow> eip712_domain \<Rightarrow> bytes \<Rightarrow> bytes" where
  "digest_preimage keccak d struct_hash = [0x19, 0x01] @ separator_hash keccak d @ struct_hash"

definition eip712_digest :: "(bytes \<Rightarrow> bytes) \<Rightarrow> eip712_domain \<Rightarrow> bytes \<Rightarrow> bytes" where
  "eip712_digest keccak d struct_hash = keccak (digest_preimage keccak d struct_hash)"

definition funds_out_struct :: "(bytes \<Rightarrow> bytes) \<Rightarrow> funds_out_params \<Rightarrow> u64 \<Rightarrow> u64 \<Rightarrow> bytes" where
  "funds_out_struct keccak params nonce deadline =
    keccak (as_str_bytes TEE_FUNDS_OUT_TYPE_HASH_STR) @ abi_encode_address (fo_recipient params) @
    word_be (fo_amount params) @ word_be (fo_burn_id params) @ word_be (fo_source_chain_id params) @
    word_be (fo_destination_chain_id params) @ keccak (as_str_bytes (fo_source_address params)) @
    keccak (fo_proof params) @ keccak (fo_settlement_data params) @ fo_source_burn_tx_id params @
    abi_encode_u256 nonce @ abi_encode_u256 deadline"

definition funds_out_digest ::
  "(bytes \<Rightarrow> bytes) \<Rightarrow> eip712_domain \<Rightarrow> funds_out_params \<Rightarrow> u64 \<Rightarrow> u64 \<Rightarrow> bytes enclave_result" where
  "funds_out_digest keccak d params nonce deadline =
    Inr (eip712_digest keccak d (keccak (funds_out_struct keccak params nonce deadline)))"

definition lz_funds_out_struct :: "(bytes \<Rightarrow> bytes) \<Rightarrow> lz_funds_out_call \<Rightarrow> u64 \<Rightarrow> u64 \<Rightarrow> bytes" where
  "lz_funds_out_struct keccak params nonce deadline =
    keccak (as_str_bytes TEE_LZ_FUNDS_OUT_TYPE_HASH_STR) @ word_be (lz_amount params) @
    word_be (lz_burn_id params) @ word_be (lz_source_chain_id params) @
    word_be (lz_destination_chain_id params) @ keccak (as_str_bytes (lz_source_address params)) @
    keccak (lz_proof params) @ keccak (lz_settlement_data params) @ abi_encode_u32 (lz_dst_eid params) @
    lz_recipient params @ word_be (lz_min_amount_ld params) @ keccak (lz_extra_options params) @
    lz_source_burn_tx_id params @ abi_encode_u256 nonce @ abi_encode_u256 deadline"

definition lz_funds_out_digest ::
  "(bytes \<Rightarrow> bytes) \<Rightarrow> alloy_lib \<Rightarrow> eip712_domain \<Rightarrow> bytes \<Rightarrow> lz_release_params \<Rightarrow> u64 \<Rightarrow> u64
    \<Rightarrow> bytes enclave_result" where
  "lz_funds_out_digest keccak abi d data lz nonce deadline =
    and_then (require (4 \<le> length data) (CrossCheck ''lzFundsOut call_data must be at least 4 bytes'')) (\<lambda>_.
    and_then (decode_lz_funds_out_params abi data) (\<lambda>params.
    and_then (require (lzr_dst_eid lz = lz_dst_eid params) (CrossCheck ''lz_release.dst_eid mismatch'')) (\<lambda>_.
    and_then (require (lzr_recipient lz = lz_recipient params)
      (CrossCheck ''lz_release.recipient does not match calldata recipient'')) (\<lambda>_.
    and_then (u64_try_from (lz_min_amount_ld params) ''lzFundsOut minAmountLD exceeds u64 range'') (\<lambda>min_amount_ld.
    and_then (require (lzr_min_amount_ld lz = min_amount_ld)
      (CrossCheck ''lz_release.min_amount_ld mismatch'')) (\<lambda>_.
    Inr (eip712_digest keccak d (keccak (lz_funds_out_struct keccak params nonce deadline)))))))))"

text \<open>The digest that \<open>handle_sign_evm\<close> (\<open>server/signers.rs\<close>) hands to the key.\<close>

definition release_digest ::
  "(bytes \<Rightarrow> bytes) \<Rightarrow> alloy_lib \<Rightarrow> evm_destination \<Rightarrow> funds_out_params option \<Rightarrow> bytes enclave_result" where
  "release_digest keccak abi req params =
    and_then (build_evm_domain req) (\<lambda>dom.
    case (params, lz_release req) of
      (Some params, None) \<Rightarrow> funds_out_digest keccak dom params (ed_nonce req) (ed_deadline req)
    | (None, Some lz) \<Rightarrow> lz_funds_out_digest keccak abi dom (call_data req) lz (ed_nonce req) (ed_deadline req)
    | _ \<Rightarrow> Inl (CrossCheck ''EVM route mismatch''))"

end
