(* ===== verification/Funds_Out_Crosscheck.thy ===== *)
theory Funds_Out_Crosscheck
  imports Evm_Release "HOL-Library.List_Lexorder"
begin

text \<open>
  The binding of a release to the burn it settles: the data of a validated consignment
  (\<open>enclave/src/networks/rgb/validation/types.rs\<close>), the amount rules
  (\<open>networks/rgb/flow.rs\<close>), the cross-checks (\<open>networks/evm/crosscheck.rs\<close>) and their order in
  \<open>apply_funds_out_binding\<close> (\<open>server/sign.rs\<close>).

  Parameters: the type number of a burn (\<open>schemata::TS_BURN\<close>), Keccak-256, the double SHA-256 and
  the header serialisation of the \<open>bitcoin\<close> crate.
\<close>

subsection \<open>A validated consignment\<close>

type_synonym u16 = "16 word"
type_synonym outpoint = "bytes \<times> u32"

datatype output_seal = Revealed "bytes option" u32 | Confidential string

record transition_output =
  to_assignment_type :: u16
  to_amount :: u64
  to_seal :: output_seal

record transition_summary =
  op_id :: string
  transition_type :: u16
  total_output_amount :: u64
  asset_output_amount :: u64
  ts_outputs :: "transition_output list"
  burned_asset_amount :: "u64 option"
  burn_reason :: "bytes option"

record validated_consignment =
  vc_contract_id :: string
  vc_chain_net :: string
  vc_witness_txids :: "bytes list"
  last_transition :: "transition_summary option"
  last_witness_txid :: "bytes option"
  last_transfer_witness_prevouts :: "outpoint list"
  last_closed_seals :: "outpoint list"
  last_bundle_fully_disclosed :: bool
  last_mint_rights :: "output_seal list"
  last_transfer_op_id :: "bytes option"
  non_mined_witness_txids :: "bytes list"
  transitions_by_witness :: "(bytes \<times> transition_summary list) list"
  mint_locks :: "verified_lock list"

definition transitions_committed_by :: "validated_consignment \<Rightarrow> bytes \<Rightarrow> transition_summary list" where
  "transitions_committed_by v txid =
    concat (map snd (filter (\<lambda>(witness_txid, _). witness_txid = txid) (transitions_by_witness v)))"

subsection \<open>Amount rules of the mint and burn flow\<close>

definition assert_group_amount :: "u64 \<Rightarrow> u64 \<Rightarrow> u64 \<Rightarrow> unit enclave_result" where
  "assert_group_amount minted source_amount source_commission =
    (let net_credited = saturating_sub source_amount source_commission in
     if minted \<noteq> net_credited then Inl (CrossCheck ''mint-RGB amount mismatch'') else Inr ())"

definition funds_out_source_amount :: "u16 \<Rightarrow> transition_summary \<Rightarrow> u64 enclave_result" where
  "funds_out_source_amount TS_BURN t =
    (if transition_type t \<noteq> TS_BURN then Inl (CrossCheck ''fundsOut requires a burn transition'')
     else ok_or (burned_asset_amount t) (CrossCheck ''burn transition carries no burnedAsset global''))"

definition assert_funds_out_amount :: "u64 \<Rightarrow> u64 \<Rightarrow> unit enclave_result" where
  "assert_funds_out_amount source_amount amount =
    (if source_amount \<noteq> amount then Inl (CrossCheck ''fundsOut amount mismatch'') else Inr ())"

subsection \<open>Cross-checks on the consignment\<close>

definition assert_witnesses_confirmed :: "validated_consignment \<Rightarrow> unit enclave_result" where
  "assert_witnesses_confirmed v =
    (if non_mined_witness_txids v \<noteq> [] then
       Inl (CrossCheck ''fundsOut requires every consignment witness tx to be mined'')
     else Inr ())"

definition validate_funds_out_amount ::
  "u16 \<Rightarrow> release_identity \<Rightarrow> validated_consignment \<Rightarrow> unit enclave_result" where
  "validate_funds_out_amount TS_BURN release v =
    and_then (ok_or (last_transition v)
      (CrossCheck ''fundsOut requires a consignment with at least one transition'')) (\<lambda>t.
    and_then (funds_out_source_amount TS_BURN t) (\<lambda>source_amount.
    and_then (u64_try_from (ri_amount release) ''fundsOut amount exceeds u64 range'') (\<lambda>amount.
    assert_funds_out_amount source_amount amount)))"

definition validate_funds_out_burn_recipient ::
  "alloy_lib \<Rightarrow> release_identity \<Rightarrow> validated_consignment \<Rightarrow> burn_destination_record option
    \<Rightarrow> unit enclave_result" where
  "validate_funds_out_burn_recipient abi release v r =
    and_then (ok_or (last_transition v)
      (CrossCheck ''burn fundsOut requires a consignment with at least one transition'')) (\<lambda>t.
    and_then (ok_or (burn_reason t) (CrossCheck ''burn transition carries no burnReason global'')) (\<lambda>reason.
    and_then (resolve abi reason r) (\<lambda>target.
    and_then (require (bt_dst_eid target = ri_dst_eid release) (CrossCheck ''dstEid mismatch'')) (\<lambda>_.
    and_then (case bt_destination_chain_id target of
        None \<Rightarrow> Inr ()
      | Some chain \<Rightarrow> require (ri_destination_chain_id release = ucast chain)
          (CrossCheck ''destinationChainId mismatch'')) (\<lambda>_.
    require (bt_recipient target = ri_recipient release) (CrossCheck ''recipient mismatch''))))))"

definition validate_funds_out_source_burn_tx_id ::
  "release_identity \<Rightarrow> validated_consignment \<Rightarrow> unit enclave_result" where
  "validate_funds_out_source_burn_tx_id release v =
    and_then (require (last_transition v \<noteq> None)
      (CrossCheck ''fundsOut requires a consignment with at least one transition'')) (\<lambda>_.
    and_then (ok_or (last_transfer_op_id v)
      (CrossCheck ''fundsOut requires the validated OpId of the settling burn'')) (\<lambda>expected.
    let cited = ri_source_burn_tx_id release in
    if cited = replicate 32 0 then Inl (CrossCheck ''fundsOut sourceBurnTxId is zero'')
    else if cited \<noteq> expected then Inl (CrossCheck ''fundsOut sourceBurnTxId mismatch'')
    else Inr ()))"

text \<open>\<open>ids.windows(2)\<close> compares each id with the next, byte arrays in lexicographic order;
  \<open>dedup\<close> after \<open>sort\<close> removes the repetitions.\<close>

definition validate_funds_out_settlement ::
  "alloy_lib \<Rightarrow> release_identity \<Rightarrow> verified_lock list \<Rightarrow> unit enclave_result" where
  "validate_funds_out_settlement abi release locks =
    and_then (require (locks \<noteq> []) (CrossCheck ''fundsOut settles no verified deposit'')) (\<lambda>_.
    and_then (ok_or (abi_decode_settlement abi (ri_settlement_data release))
      (CrossCheck ''fundsOut settlementData does not decode'')) (\<lambda>ids.
    and_then (require (abi_encode_settlement abi ids = ri_settlement_data release)
      (CrossCheck ''fundsOut settlementData is not canonically encoded'')) (\<lambda>_.
    and_then (require (successively (<) ids)
      (CrossCheck ''fundsOut settlementData operationIds are not strictly ascending'')) (\<lambda>_.
    let expected = remdups_adj (sort (map vl_operation_id locks)) in
    require (ids = expected) (CrossCheck ''fundsOut settlementData mismatch'')))))"

subsection \<open>Agreement with the BTC relay\<close>

record proof_block =
  pb_height :: u32
  pb_commitment :: bytes

definition FUNDS_OUT_PROOF_LEN :: nat where "FUNDS_OUT_PROOF_LEN = 4 * 32"
definition MAX_RELAY_TIP_LAG_BLOCKS :: u32 where "MAX_RELAY_TIP_LAG_BLOCKS = MAX_REORG_DEPTH"

definition proof_height :: "bytes \<Rightarrow> string \<Rightarrow> u32 enclave_result" where
  "proof_height w field =
    (if \<exists>b\<in>set (take 28 w). b \<noteq> 0 then Inl (CrossCheck (''fundsOut proof '' @ field @ '' exceeds u32 range''))
     else Inr (of_nat (be_nat (sub_slice w 28 32))))"

definition decode_funds_out_proof :: "release_identity \<Rightarrow> (proof_block \<times> proof_block) enclave_result" where
  "decode_funds_out_proof release =
    (let p = ri_proof release in
     if p = [] then Inl (CrossCheck ''fundsOut proof is empty'')
     else if length p \<noteq> FUNDS_OUT_PROOF_LEN then Inl (CrossCheck ''fundsOut proof must be 128 bytes'')
     else
       and_then (proof_height (sub_slice p 0 32) ''sourceHeight'') (\<lambda>source_height.
       and_then (proof_height (sub_slice p 64 96) ''latestHeight'') (\<lambda>latest_height.
       Inr (\<lparr>pb_height = source_height, pb_commitment = sub_slice p 32 64\<rparr>,
            \<lparr>pb_height = latest_height, pb_commitment = sub_slice p 96 128\<rparr>))))"

definition display_hash_at :: "btc_lib \<Rightarrow> header_chain \<Rightarrow> u32 \<Rightarrow> bytes option" where
  "display_hash_at lib c height = map_option (\<lambda>h. rev (block_hash lib h)) (header_at c height)"

definition assert_header_present :: "btc_lib \<Rightarrow> header_chain \<Rightarrow> proof_block \<Rightarrow> unit enclave_result" where
  "assert_header_present lib c block =
    and_then (ok_or (display_hash_at lib c (pb_height block))
      (Spv ''fundsOut BtcRelay check: no header at the block height'')) (\<lambda>_. Inr ())"

record consignment_anchor =
  ca_height :: u32
  ca_commitment :: bytes
  ca_txid :: bytes

definition resolve_consignment_anchor ::
  "(bytes \<Rightarrow> bytes) \<Rightarrow> btc_lib \<Rightarrow> validated_consignment \<Rightarrow> merkle_proof_entry list \<Rightarrow> header_chain \<Rightarrow> u32
    \<Rightarrow> consignment_anchor enclave_result" where
  "resolve_consignment_anchor H lib v proofs c min_confirmations =
    and_then (ok_or (last_witness_txid v)
      (CrossCheck ''fundsOut requires a consignment with at least one witness bundle'')) (\<lambda>witness_txid.
    let txid = rev witness_txid in
    and_then (ok_or (find (\<lambda>p. mp_txid p = txid) proofs)
      (Spv ''fundsOut source block: no merkle proof for the last witness tx'')) (\<lambda>proof.
    and_then (ok_or (display_hash_at lib c (mp_block_height proof))
      (Spv ''fundsOut source block: enclave holds no header at height'')) (\<lambda>commitment.
    and_then (validate_spv_proofs H c [txid] [proof] min_confirmations) (\<lambda>_.
    Inr \<lparr>ca_height = mp_block_height proof, ca_commitment = commitment, ca_txid = txid\<rparr>))))"

definition relay_time :: "header_chain \<Rightarrow> u32 \<Rightarrow> u32" where
  "relay_time c h = (case header_at c h of None \<Rightarrow> cp_time (hc_checkpoint c) | Some header \<Rightarrow> hdr_time header)"

definition relay_record ::
  "btc_lib \<Rightarrow> (btc_header \<Rightarrow> bytes) \<Rightarrow> header_chain \<Rightarrow> u32 \<Rightarrow> bytes enclave_result" where
  "relay_record lib serialize_header c height =
    (let cp = hc_checkpoint c in
     and_then (ok_or (header_at c height) (Spv ''fundsOut relay record: no header at height'')) (\<lambda>header.
     and_then (ok_or (cp_chain_work cp)
       (Spv ''fundsOut relay record: the checkpoint has no chainwork'')) (\<lambda>cp_work.
     let epoch_start = height - height mod RETARGET_INTERVAL in
     if height < cp_height cp + 10 \<or> epoch_start < cp_height cp then
       Inl (Spv ''fundsOut relay record needs blocks below the checkpoint'')
     else
       let work = sum_work_from lib (of_nat (be_nat cp_work))
             (List.map_filter (header_at c) (map of_nat [unat (cp_height cp + 1) ..< unat height + 1]))
       in Inr (serialize_header header @ word_be work @ word_be height @ word_be (relay_time c epoch_start) @
            concat (map (\<lambda>h. word_be (relay_time c h)) (height_range (height - 10) height))))))"

definition assert_relay_commitment ::
  "(bytes \<Rightarrow> bytes) \<Rightarrow> btc_lib \<Rightarrow> (btc_header \<Rightarrow> bytes) \<Rightarrow> header_chain \<Rightarrow> proof_block \<Rightarrow> unit enclave_result" where
  "assert_relay_commitment keccak lib serialize_header c block =
    and_then (relay_record lib serialize_header c (pb_height block)) (\<lambda>rec.
    require (pb_commitment block = keccak rec) (CrossCheck ''fundsOut relay commitment mismatch''))"

definition check_relay_mode ::
  "(bytes \<Rightarrow> bytes) \<Rightarrow> btc_lib \<Rightarrow> (btc_header \<Rightarrow> bytes) \<Rightarrow> header_chain \<Rightarrow> btc_relay_mode \<Rightarrow> proof_block
    \<Rightarrow> proof_block \<Rightarrow> unit enclave_result" where
  "check_relay_mode keccak lib serialize_header c mode source latest =
    (case mode of
       Required \<Rightarrow>
         and_then (for_each (\<lambda>b. require (pb_commitment b \<noteq> replicate 32 0)
           (CrossCheck ''fundsOut relay proof carries a zero commitment'')) [source, latest]) (\<lambda>_.
         and_then (assert_relay_commitment keccak lib serialize_header c source) (\<lambda>_.
         assert_relay_commitment keccak lib serialize_header c latest))
     | RelayNone \<Rightarrow>
         for_each (\<lambda>b. require (pb_commitment b = replicate 32 0)
           (CrossCheck ''fundsOut relay proof carries a commitment'')) [source, latest])"

definition verify_btc_relay_agreement ::
  "(bytes \<Rightarrow> bytes) \<Rightarrow> (bytes \<Rightarrow> bytes) \<Rightarrow> btc_lib \<Rightarrow> (btc_header \<Rightarrow> bytes) \<Rightarrow> release_identity \<Rightarrow>
   validated_consignment \<Rightarrow> merkle_proof_entry list \<Rightarrow> header_chain \<Rightarrow> chain_pins \<Rightarrow> btc_relay_mode \<Rightarrow> u32
    \<Rightarrow> chain_pins enclave_result" where
  "verify_btc_relay_agreement H keccak lib serialize_header release v proofs c pins mode min_confirmations =
    and_then (decode_funds_out_proof release) (\<lambda>(source, latest).
    and_then (require (\<not> pb_height latest < pb_height source)
      (Spv ''fundsOut BtcRelay check: latest height is below source height'')) (\<lambda>_.
    and_then (assert_header_present lib c latest) (\<lambda>_.
    and_then (pin_block pins c (pb_height latest) 1) (\<lambda>pins.
    let lag = saturating_sub (tip_height c) (pb_height latest) in
    and_then (require (\<not> MAX_RELAY_TIP_LAG_BLOCKS < lag)
      (Spv ''fundsOut BtcRelay check: latest height is too far below the tip'')) (\<lambda>_.
    and_then (resolve_consignment_anchor H lib v proofs c min_confirmations) (\<lambda>anchor.
    and_then (pin_block pins c (ca_height anchor) min_confirmations) (\<lambda>pins.
    and_then (require (pb_height source = ca_height anchor)
      (CrossCheck ''fundsOut source block mismatch'')) (\<lambda>_.
    and_then (check_relay_mode keccak lib serialize_header c mode source latest) (\<lambda>_.
    Inr pins)))))))))"

subsection \<open>The binding of a release\<close>

definition apply_funds_out_binding ::
  "(bytes \<Rightarrow> bytes) \<Rightarrow> (bytes \<Rightarrow> bytes) \<Rightarrow> btc_lib \<Rightarrow> (btc_header \<Rightarrow> bytes) \<Rightarrow> alloy_lib \<Rightarrow> u16 \<Rightarrow>
   signer_build \<Rightarrow> bridge_config \<Rightarrow> header_chain \<Rightarrow> release_identity \<Rightarrow> validated_consignment option \<Rightarrow>
   merkle_proof_entry list \<Rightarrow> chain_pins \<Rightarrow> burn_destination_record option \<Rightarrow> chain_pins enclave_result" where
  "apply_funds_out_binding H keccak lib serialize_header abi TS_BURN b cfg c release validated proofs pins r =
    and_then (ok_or validated
      (CrossCheck ''fundsOut signing requires a validated RGB source consignment'')) (\<lambda>v.
    and_then (assert_witnesses_confirmed v) (\<lambda>_.
    and_then
      (if b_spv b then
         verify_btc_relay_agreement H keccak lib serialize_header release v proofs c pins
           (cfg_btc_relay_mode cfg) (spv_min_confirmations cfg)
       else
         and_then (require (proofs = [])
           (CrossCheck ''fundsOut signing without SPV requires empty RGB merkle_proofs'')) (\<lambda>_.
         and_then (require (ri_proof release = [])
           (CrossCheck ''fundsOut signing without SPV requires an empty release proof'')) (\<lambda>_.
         Inr pins))) (\<lambda>pins.
    and_then (validate_funds_out_amount TS_BURN release v) (\<lambda>_.
    and_then (validate_funds_out_source_burn_tx_id release v) (\<lambda>_.
    and_then (validate_funds_out_burn_recipient abi release v r) (\<lambda>_.
    and_then (if b_bfa_mint b then validate_funds_out_settlement abi release (mint_locks v) else Inr ()) (\<lambda>_.
    Inr pins)))))))"

end
