(* ===== verification/Reject_List.thy ===== *)
theory Reject_List
  imports Funds_Out_Crosscheck
begin

text \<open>
  The reject list of an asset: its decisions (\<open>enclave/src/networks/rgb/validation/reject_list.rs\<close>),
  the genesis field that names it (\<open>validation/schema.rs\<close>), the paged read of the contract
  (\<open>networks/evm/reject_list.rs\<close>) and the handler's reader (\<open>server/reject_list.rs\<close>).

  Parameters: the ABI codec of the two contract calls, and the monotonic clock as a function of the
  state of the node.
\<close>

subsection \<open>Entries and decisions\<close>

record opout_key =
  ok_op :: bytes
  ok_ty :: u16
  ok_no :: u16

record reject_list_contract =
  rlc_chain_id :: u64
  rlc_address :: bytes

record reject_list_entry =
  rle_opout :: opout_key
  rle_reject :: bool

record decision_sets =
  dec_reject :: "opout_key set"
  dec_allow :: "opout_key set"

text \<open>The finalized entries collect into a map, in which a later entry replaces an earlier one.\<close>

definition latest_entries :: "reject_list_entry list \<Rightarrow> (opout_key \<times> bool) list" where
  "latest_entries es = fold (\<lambda>e. AList.update (rle_opout e) (rle_reject e)) es []"

definition decide_one :: "opout_key \<times> bool \<Rightarrow> decision_sets \<Rightarrow> decision_sets" where
  "decide_one = (\<lambda>(opout, rejected) out.
    if rejected then out\<lparr>dec_reject := insert opout (dec_reject out)\<rparr>
    else if opout \<notin> dec_reject out then out\<lparr>dec_allow := insert opout (dec_allow out)\<rparr>
    else out)"

definition decisions :: "reject_list_entry list \<Rightarrow> nat \<Rightarrow> decision_sets" where
  "decisions entries finalized =
    (let n = min finalized (length entries);
         pending = drop n entries
     in fold decide_one (latest_entries (take n entries))
          \<lparr>dec_reject = set (map rle_opout (filter rle_reject pending)), dec_allow = {}\<rparr>)"

subsection \<open>The list that a genesis names\<close>

definition EVM_LOCATION_LEN :: nat where "EVM_LOCATION_LEN = 1 + 8 + 20"
definition EVM_LOCATION_TAG :: u8 where "EVM_LOCATION_TAG = 1"

text \<open>\<open>values\<close> is the global \<open>GS_REJECT_LIST\<close> of the genesis, if there is one.\<close>

definition reject_list :: "bytes list option \<Rightarrow> reject_list_contract option enclave_result" where
  "reject_list values =
    (case values of
       None \<Rightarrow> Inr None
     | Some vs \<Rightarrow>
         (case vs of
            [bs] \<Rightarrow>
              (if length bs \<noteq> EVM_LOCATION_LEN \<or> hd bs \<noteq> EVM_LOCATION_TAG then
                 Inl (CrossCheck ''BFA genesis names a reject list that is not an EVM contract'')
               else Inr (Some \<lparr>rlc_chain_id = of_nat (le_nat (sub_slice bs 1 9)),
                               rlc_address = sub_slice bs 9 (length bs)\<rparr>))
          | _ \<Rightarrow> Inl (CrossCheck ''BFA genesis carries several reject lists'')))"

subsection \<open>Reading the contract\<close>

record sol_entry =
  se_op_id :: bytes
  se_assignment_type :: u16
  se_no :: u16
  se_reject :: bool

record list_abi =
  length_call :: bytes
  decode_length :: "bytes \<Rightarrow> u256 option"
  entries_call :: "u256 \<Rightarrow> u256 \<Rightarrow> bytes"
  decode_entries :: "bytes \<Rightarrow> sol_entry list option"

definition PAGE_SIZE :: nat where "PAGE_SIZE = 1000"
definition MAX_ENTRIES :: u64 where "MAX_ENTRIES = 20000"
definition RESPONSE_MARGIN :: duration where "RESPONSE_MARGIN = from_secs 2"

record reject_list_log =
  rll_entries :: "reject_list_entry list"
  rll_finalized :: nat

definition list_error :: "string \<Rightarrow> enclave_error" where
  "list_error detail = CrossCheck (''reject list '' @ detail)"

definition entry :: "sol_entry \<Rightarrow> reject_list_entry" where
  "entry e = \<lparr>rle_opout = \<lparr>ok_op = se_op_id e, ok_ty = se_assignment_type e, ok_no = se_no e\<rparr>,
    rle_reject = se_reject e\<rparr>"

text \<open>The state of a budgeted call is the node and the slowest call so far.\<close>

definition budget_run ::
  "('n \<Rightarrow> instant) \<Rightarrow> instant \<Rightarrow> ('n, 'a) rpc \<Rightarrow> ('n \<times> duration, 'a) rpc" where
  "budget_run clock deadline call = (\<lambda>(n, slowest).
    let started = clock n in
    if deadline < started + slowest + RESPONSE_MARGIN then
      (Inl (list_error ''read exceeded the request budget''), (n, slowest))
    else case call n of (out, n') \<Rightarrow> (out, (n', max slowest (clock n' - started))))"

definition block_number ::
  "('n \<Rightarrow> instant) \<Rightarrow> instant \<Rightarrow> 'n evm_provider \<Rightarrow> evm_finality_tag \<Rightarrow> ('n \<times> duration, u64) rpc" where
  "block_number clock deadline p tag =
    rpc_then (budget_run clock deadline (get_block_by_tag p tag)) (\<lambda>blk.
    rpc_lift (ok_or (map_option blk_number blk) (CrossCheck ''evm-rpc: the node reports no block'')))"

definition length_at ::
  "list_abi \<Rightarrow> ('n \<Rightarrow> instant) \<Rightarrow> instant \<Rightarrow> 'n evm_provider \<Rightarrow> bytes \<Rightarrow> u64 \<Rightarrow> ('n \<times> duration, u64 option) rpc" where
  "length_at abi clock deadline p contract block =
    rpc_then (budget_run clock deadline (eth_call p contract (length_call abi) block)) (\<lambda>raw.
    if raw = [] then rpc_lift (Inr None)
    else rpc_then (rpc_lift (ok_or (decode_length abi raw) (list_error ''returned a bad length''))) (\<lambda>len.
      rpc_lift (if unat len < 2 ^ 64 then Inr (Some (ucast len)) else Inl (list_error ''length does not fit u64''))))"

text \<open>The length is at most \<^const>\<open>MAX_ENTRIES\<close> when this loop runs, so its counters do not wrap.\<close>

function read_entries ::
  "list_abi \<Rightarrow> ('n \<Rightarrow> instant) \<Rightarrow> instant \<Rightarrow> 'n evm_provider \<Rightarrow> bytes \<Rightarrow> u64 \<Rightarrow> nat \<Rightarrow> nat
    \<Rightarrow> reject_list_entry list \<Rightarrow> ('n \<times> duration, reject_list_entry list) rpc" where
  "read_entries abi clock deadline p contract block len start out =
    (if start < len then
       (let fin = min (start + PAGE_SIZE) len in
        rpc_then (budget_run clock deadline
          (eth_call p contract (entries_call abi (of_nat start) (of_nat fin)) block)) (\<lambda>raw.
        rpc_then (rpc_lift (ok_or (decode_entries abi raw) (list_error ''returned a bad entries page''))) (\<lambda>page.
        if length page \<noteq> fin - start then rpc_lift (Inl (list_error ''returned a short page''))
        else read_entries abi clock deadline p contract block len fin (out @ map entry page))))
     else rpc_lift (Inr out))"
  by pat_completeness auto

termination read_entries
  by (relation "measure (\<lambda>(abi, clock, deadline, p, contract, block, len, start, out). len - start)")
    (auto simp: PAGE_SIZE_def)

definition read_list_log ::
  "list_abi \<Rightarrow> ('n \<Rightarrow> instant) \<Rightarrow> instant \<Rightarrow> 'n evm_provider \<Rightarrow> bytes \<Rightarrow> ('n \<times> duration, reject_list_log) rpc" where
  "read_list_log abi clock deadline p contract =
    rpc_then (block_number clock deadline p Latest) (\<lambda>latest.
    rpc_then (block_number clock deadline p Finalized) (\<lambda>f.
    rpc_then (length_at abi clock deadline p contract (min f latest)) (\<lambda>flen.
    rpc_then (length_at abi clock deadline p contract latest) (\<lambda>llen.
    rpc_then (rpc_lift (ok_or llen (list_error ''has no contract code at the latest block''))) (\<lambda>len.
    if len < unwrap_or flen 0 then rpc_lift (Inl (list_error ''is shorter at the latest block''))
    else if MAX_ENTRIES < len then rpc_lift (Inl (list_error ''holds too many entries''))
    else rpc_then (read_entries abi clock deadline p contract latest (unat len) 0 []) (\<lambda>es.
      rpc_lift (Inr \<lparr>rll_entries = es, rll_finalized = unat (unwrap_or flen 0)\<rparr>)))))))"

definition read_reject_list ::
  "list_abi \<Rightarrow> ('n \<Rightarrow> instant) \<Rightarrow> 'n evm_provider \<Rightarrow> bytes \<Rightarrow> instant \<Rightarrow> ('n, reject_list_log) rpc" where
  "read_reject_list abi clock p contract deadline = (\<lambda>n.
    case read_list_log abi clock deadline p contract (n, 0) of (r, (n', _)) \<Rightarrow> (r, n'))"

definition read_decisions ::
  "list_abi \<Rightarrow> ('n \<Rightarrow> instant) \<Rightarrow> bridge_config \<Rightarrow> 'n evm_provider option option \<Rightarrow> reject_list_contract
    \<Rightarrow> instant \<Rightarrow> ('n, decision_sets) rpc" where
  "read_decisions abi clock cfg launch l deadline =
    rpc_then (rpc_lift (require (rlc_chain_id l = chain_id cfg)
      (CrossCheck ''reject list is on another chain''))) (\<lambda>_.
    rpc_then (rpc_lift (ok_or launch (NotReady ''endpoints-unset''))) (\<lambda>client.
    rpc_then (rpc_lift (ok_or client (CrossCheck ''the EVM RPC client is unavailable''))) (\<lambda>p.
    rpc_then (check_node_chain_id p (chain_id cfg)) (\<lambda>_.
    rpc_then (read_reject_list abi clock p (rlc_address l) deadline) (\<lambda>log.
    rpc_lift (Inr (decisions (rll_entries log) (rll_finalized log))))))))"

declare read_entries.simps [simp del]

subsection \<open>What the decisions are\<close>

text \<open>The specification: the last finalized entry of an opout decides it, and a pending entry can
  only reject.\<close>

definition last_entry :: "reject_list_entry list \<Rightarrow> opout_key \<Rightarrow> bool option" where
  "last_entry es k = map_option rle_reject (find (\<lambda>e. rle_opout e = k) (rev es))"

definition pending_reject :: "reject_list_entry list \<Rightarrow> opout_key \<Rightarrow> bool" where
  "pending_reject es k \<longleftrightarrow> (\<exists>e\<in>set es. rle_opout e = k \<and> rle_reject e)"

lemma latest_entries_snoc:
  "latest_entries (es @ [e]) = AList.update (rle_opout e) (rle_reject e) (latest_entries es)"
  by (simp add: latest_entries_def)

lemma latest_entries_props:
  "distinct (map fst (latest_entries es)) \<and> map_of (latest_entries es) k = last_entry es k"
proof (induction es rule: rev_induct)
  case (snoc e es)
  then show ?case
    by (simp add: latest_entries_snoc distinct_update update_conv' last_entry_def)
qed (simp add: latest_entries_def last_entry_def)

lemma fold_decide_one:
  "distinct (map fst xs) \<Longrightarrow>
    dec_reject (fold decide_one xs d) = dec_reject d \<union> {k. (k, True) \<in> set xs} \<and>
    dec_allow (fold decide_one xs d) = dec_allow d \<union> {k. (k, False) \<in> set xs \<and> k \<notin> dec_reject d}"
proof (induction xs arbitrary: d)
  case (Cons x xs)
  obtain k r where x: "x = (k, r)" by fastforce
  have fresh: "(k, b) \<notin> set xs" for b using Cons.prems x by force
  show ?case
    using Cons.IH [of "decide_one x d"] Cons.prems fresh
    by (cases r) (auto simp: x decide_one_def)
qed simp

lemma decisions_exact:
  fixes entries finalized
  defines "n \<equiv> min finalized (length entries)"
  shows "k \<in> dec_reject (decisions entries finalized) \<longleftrightarrow>
      pending_reject (drop n entries) k \<or> last_entry (take n entries) k = Some True"
    and "k \<in> dec_allow (decisions entries finalized) \<longleftrightarrow>
      \<not> pending_reject (drop n entries) k \<and> last_entry (take n entries) k = Some False"
proof -
  let ?m = "latest_entries (take n entries)"
  have m: "distinct (map fst ?m)" "(k, b) \<in> set ?m \<longleftrightarrow> last_entry (take n entries) k = Some b" for b
    using latest_entries_props [of "take n entries"] map_of_eq_Some_iff [of ?m k b] by auto
  show "k \<in> dec_reject (decisions entries finalized) \<longleftrightarrow>
      pending_reject (drop n entries) k \<or> last_entry (take n entries) k = Some True"
    "k \<in> dec_allow (decisions entries finalized) \<longleftrightarrow>
      \<not> pending_reject (drop n entries) k \<and> last_entry (take n entries) k = Some False"
    unfolding decisions_def Let_def n_def [symmetric] using fold_decide_one [OF m(1)] m(2)
    by (auto simp: pending_reject_def)
qed

subsection \<open>The read\<close>

text \<open>A node whose list at a block does not change: \<open>at b\<close> is the list of the contract at block
  \<open>b\<close>, \<^const>\<open>None\<close> where there is no code.\<close>

definition serves_list ::
  "list_abi \<Rightarrow> 'n evm_provider \<Rightarrow> bytes \<Rightarrow> (u64 \<Rightarrow> sol_entry list option) \<Rightarrow> bool" where
  "serves_list abi p contract at \<longleftrightarrow>
    (\<forall>b n raw n'. eth_call p contract (length_call abi) b n = (Inr raw, n') \<longrightarrow>
       (case at b of None \<Rightarrow> raw = []
        | Some es \<Rightarrow> raw \<noteq> [] \<and> map_option unat (decode_length abi raw) = Some (length es))) \<and>
    (\<forall>b n raw n' i j es. eth_call p contract (entries_call abi (of_nat i) (of_nat j)) b n = (Inr raw, n') \<longrightarrow>
       at b = Some es \<longrightarrow> i < j \<longrightarrow> j \<le> length es \<longrightarrow>
       decode_entries abi raw = Some (sub_slice es i j))"

lemma rpc_then_InrE:
  assumes "rpc_then m f n = (Inr y, n'')"
  obtains x n' where "m n = (Inr x, n')" "f x n' = (Inr y, n'')"
  using assms unfolding rpc_then_Inr by blast

lemma budget_run_Inr:
  "budget_run clock deadline call ns = (Inr x, ns') \<Longrightarrow> call (fst ns) = (Inr x, fst ns')"
  by (cases ns) (auto simp: budget_run_def Let_def split: if_splits prod.splits)

lemma read_entries_whole:
  assumes "serves_list abi p contract at" "at block = Some es"
  shows "start \<le> length es \<Longrightarrow>
    read_entries abi clock deadline p contract block (length es) start (map entry (take start es)) ns = (Inr r, ns') \<Longrightarrow>
    r = map entry es"
proof (induction "length es - start" arbitrary: start ns rule: less_induct)
  case less
  show ?case
  proof (cases "start < length es")
    case False
    with less.prems show ?thesis by (subst (asm) read_entries.simps) simp
  next
    case True
    define fin where "fin = min (start + PAGE_SIZE) (length es)"
    have fin: "start < fin" "fin \<le> length es" using True by (auto simp: fin_def PAGE_SIZE_def)
    obtain raw ns1 page where raw: "budget_run clock deadline
        (eth_call p contract (entries_call abi (of_nat start) (of_nat fin)) block) ns = (Inr raw, ns1)"
      "decode_entries abi raw = Some page" "length page = fin - start"
      "read_entries abi clock deadline p contract block (length es) fin
         (map entry (take start es) @ map entry page) ns1 = (Inr r, ns')"
      using less.prems(2) True
      by (subst (asm) read_entries.simps)
        (auto simp: Let_def fin_def [symmetric] rpc_then_Inr split: if_splits)
    have "page = sub_slice es start fin"
      using assms fin budget_run_Inr [OF raw(1)] raw(2) unfolding serves_list_def by fastforce
    then have "map entry (take start es) @ map entry page = map entry (take fin es)"
      using fin by (simp add: sub_slice_def take_add [symmetric] flip: map_append)
    with raw(4) show ?thesis
      using less.hyps [of fin ns1] fin by simp
  qed
qed

lemma length_at_served:
  assumes "serves_list abi p contract at"
    and "length_at abi clock deadline p contract b ns = (Inr r, ns')"
  shows "map_option unat r = map_option length (at b)"
proof -
  obtain raw ns1 where raw: "budget_run clock deadline (eth_call p contract (length_call abi) b) ns = (Inr raw, ns1)"
    using assms(2) by (auto simp: length_at_def rpc_then_Inr)
  have "case at b of None \<Rightarrow> raw = []
    | Some es \<Rightarrow> raw \<noteq> [] \<and> map_option unat (decode_length abi raw) = Some (length es)"
    using assms(1) budget_run_Inr [OF raw] unfolding serves_list_def by blast
  then show ?thesis
    using assms(2) raw
    by (auto simp: length_at_def unsigned_ucast_eq take_bit_nat_eq_self rpc_then_Inr split: option.splits if_splits)
qed

text \<open>Number of calls: a counter that one call of the node raises by at most one.\<close>

definition counted :: "('n \<Rightarrow> nat) \<Rightarrow> 'n evm_provider \<Rightarrow> bool" where
  "counted calls p \<longleftrightarrow>
    (\<forall>tag n. calls (snd (get_block_by_tag p tag n)) \<le> Suc (calls n)) \<and>
    (\<forall>to data b n. calls (snd (eth_call p to data b n)) \<le> Suc (calls n))"

definition within :: "('n \<Rightarrow> nat) \<Rightarrow> nat \<Rightarrow> ('n \<times> duration, 'a) rpc \<Rightarrow> bool" where
  "within calls k m \<longleftrightarrow> (\<forall>ns. calls (fst (snd (m ns))) \<le> calls (fst ns) + k)"

lemma within_lift: "within calls k (rpc_lift r)"
  by (simp add: within_def)

lemma within_then:
  assumes "within calls j m" "\<And>x. within calls k (f x)"
  shows "within calls (j + k) (rpc_then m f)"
  unfolding within_def
proof
  fix ns
  obtain r ns1 where m: "m ns = (r, ns1)" by (cases "m ns")
  then have 1: "calls (fst ns1) \<le> calls (fst ns) + j"
    using assms(1) unfolding within_def by (metis snd_conv)
  show "calls (fst (snd (rpc_then m f ns))) \<le> calls (fst ns) + (j + k)"
  proof (cases r)
    case (Inl e)
    then show ?thesis using m 1 by simp
  next
    case (Inr x)
    moreover have "calls (fst (snd (f x ns1))) \<le> calls (fst ns1) + k"
      using assms(2) unfolding within_def by blast
    ultimately show ?thesis using m 1 by simp
  qed
qed

lemma within_mono: "within calls j m \<Longrightarrow> j \<le> k \<Longrightarrow> within calls k m"
  unfolding within_def by (meson add_left_mono order_trans)

lemma within_budget_run:
  "(\<And>n. calls (snd (call n)) \<le> Suc (calls n)) \<Longrightarrow> within calls 1 (budget_run clock deadline call)"
  by (auto simp: within_def budget_run_def Let_def split: prod.split) (metis snd_conv)

lemma within_call:
  assumes "counted calls p"
  shows "within calls 1 (budget_run clock deadline (eth_call p to data b))"
    "within calls 1 (budget_run clock deadline (get_block_by_tag p tag))"
  by (rule within_budget_run, use assms in \<open>simp add: counted_def\<close>)+

lemma within_block_number: "counted calls p \<Longrightarrow> within calls 1 (block_number clock deadline p tag)"
  unfolding block_number_def
  using within_then [OF within_call(2) within_lift, of calls p 0] by simp

lemma within_length_at: "counted calls p \<Longrightarrow> within calls 1 (length_at abi clock deadline p contract b)"
  unfolding length_at_def
  by (rule within_mono [OF within_then [OF within_call(1), where k = 0]])
    (auto intro!: within_lift within_then [where j = 0 and k = 0, simplified])

lemma within_read_entries:
  assumes "counted calls p"
  shows "within calls ((len - start + 999) div 1000)
    (read_entries abi clock deadline p contract block len start out)"
proof (induction "len - start" arbitrary: start out rule: less_induct)
  case less
  show ?case
  proof (cases "start < len")
    case False
    then show ?thesis by (subst read_entries.simps) (simp add: within_lift)
  next
    case True
    define fin where "fin = min (start + PAGE_SIZE) len"
    have fin: "start < fin" "1 + (0 + (len - fin + 999) div 1000) \<le> (len - start + 999) div 1000"
      using True by (auto simp: fin_def PAGE_SIZE_def min_def)
    show ?thesis
      by (subst read_entries.simps, subst if_P [OF True], unfold Let_def fin_def [symmetric],
          rule within_mono [OF within_then [OF within_call(1) [OF assms] within_then [OF within_lift]] fin(2)])
        (use less fin(1) True in \<open>auto intro: within_lift\<close>)
  qed
qed

text \<open>C40: Reading a reject list ends after at most 24 calls to the node, whatever the node answers:
  two blocks, two lengths and at most twenty pages.\<close>

theorem reject_list_read_bounded:
  assumes "counted calls p"
  shows "\<exists>r n'. read_reject_list abi clock p contract deadline n = (r, n') \<and> calls n' \<le> calls n + 24"
proof -
  have pages: "within calls 20 (read_entries abi clock deadline p contract b (unat len) 0 [])"
    if "\<not> MAX_ENTRIES < len" for b len
    using that within_mono [OF within_read_entries [OF assms, of "unat len" 0], of 20]
    by (simp add: MAX_ENTRIES_def word_less_nat_alt)
  note step = within_then [OF within_block_number [OF assms]] within_then [OF within_length_at [OF assms]]
    within_then [OF within_lift [of calls 0]]
  note run = step(1) [OF step(1) [OF step(2) [OF step(2) [OF step(3) [where k = 20]]]]]
  have "within calls (1 + (1 + (1 + (1 + (0 + 20))))) (read_list_log abi clock deadline p contract)"
    unfolding read_list_log_def
    by (rule run) (auto intro: within_lift within_then [OF pages within_lift [of calls 0], simplified])
  then have "calls (fst (snd (read_list_log abi clock deadline p contract (n, 0)))) \<le> calls n + 24"
    by (simp add: within_def)
  then show ?thesis
    by (cases "read_list_log abi clock deadline p contract (n, 0)") (auto simp: read_reject_list_def)
qed


text \<open>An instance: a node that counts its calls and serves a list whose second entry is pending.\<close>

definition demo_entries :: "sol_entry list" where
  "demo_entries =
    [\<lparr>se_op_id = replicate 32 1, se_assignment_type = 4000, se_no = 0, se_reject = True\<rparr>,
     \<lparr>se_op_id = replicate 32 1, se_assignment_type = 4000, se_no = 0, se_reject = False\<rparr>]"

definition demo_at :: "u64 \<Rightarrow> sol_entry list option" where
  "demo_at b = Some (if b \<le> 4 then take 1 demo_entries else demo_entries)"

definition demo_list_abi :: list_abi where
  "demo_list_abi = \<lparr>length_call = [0], decode_length = (\<lambda>raw. Some (ucast (hd raw))),
    entries_call = (\<lambda>i j. [1, ucast i, ucast j]),
    decode_entries = (\<lambda>raw. Some (sub_slice demo_entries (unat (raw ! 0)) (unat (raw ! 1))))\<rparr>"

definition demo_list_node :: "nat evm_provider" where
  "demo_list_node = \<lparr>get_transaction_receipt = (\<lambda>_ n. (Inr None, n)),
    get_block_by_tag = (\<lambda>tag n. (Inr (Some \<lparr>blk_number = (if tag = Latest then 5 else 4), blk_hash = []\<rparr>), Suc n)),
    get_block_by_number = (\<lambda>_ n. (Inr None, n)), get_chain_id = (\<lambda>n. (Inr 1, n)),
    eth_call = (\<lambda>_ data b n. (Inr (if data = [0] then [if b \<le> 4 then 1 else 2] else tl data), Suc n))\<rparr>"

definition demo_list_contract :: reject_list_contract where
  "demo_list_contract = \<lparr>rlc_chain_id = 1, rlc_address = replicate 20 7\<rparr>"

lemma demo_serves: "serves_list demo_list_abi demo_list_node contract demo_at"
proof -
  have small: "unat (ucast (of_nat k :: u256) :: u8) = k" if "k \<le> 2" for k
  proof -
    have "k = 0 \<or> k = 1 \<or> k = 2" using that by auto
    then show ?thesis by auto
  qed
  have slice: "sub_slice (take 1 demo_entries) i j = sub_slice demo_entries i j" if "j \<le> 1" for i j
    using that by (simp add: sub_slice_def drop_take)
  have len: "length demo_entries = 2" by (simp add: demo_entries_def)
  show ?thesis
    unfolding serves_list_def
  proof (intro conjI allI impI)
    fix b n raw n'
    assume "eth_call demo_list_node contract (length_call demo_list_abi) b n = (Inr raw, n')"
    then show "case demo_at b of None \<Rightarrow> raw = []
        | Some es \<Rightarrow> raw \<noteq> [] \<and> map_option unat (decode_length demo_list_abi raw) = Some (length es)"
      by (auto simp: demo_list_node_def demo_list_abi_def demo_at_def len)
  next
    fix b n raw n' i j es
    assume *: "eth_call demo_list_node contract (entries_call demo_list_abi (of_nat i) (of_nat j)) b n = (Inr raw, n')"
      "demo_at b = Some es" "i < j" "j \<le> length es"
    then have "j \<le> 2" "i \<le> 2" by (auto simp: demo_at_def len split: if_splits)
    then have "decode_entries demo_list_abi raw = Some (sub_slice demo_entries i j)"
      using *(1) by (auto simp: demo_list_node_def demo_list_abi_def small)
    then show "decode_entries demo_list_abi raw = Some (sub_slice es i j)"
      using *(2,4) slice by (auto simp: demo_at_def len split: if_splits)
  qed
qed

lemma demo_counted: "counted id demo_list_node"
  by (simp add: counted_def demo_list_node_def)

theorem reject_list_read_bounded_witness:
  "\<exists>r n'. read_reject_list demo_list_abi (\<lambda>_. 0) demo_list_node [] 100 0 = (r, n') \<and> id n' \<le> id 0 + 24"
  by (rule reject_list_read_bounded [OF demo_counted])

lemma demo_reads:
  "read_decisions demo_list_abi (\<lambda>_. 0) (bridge_config_default\<lparr>chain_id := 1\<rparr>) (Some (Some demo_list_node))
     demo_list_contract (from_secs 30) 0 =
   (Inr (decisions (map entry demo_entries) 1), 5)"
  by (simp add: read_decisions_def read_reject_list_def read_list_log_def block_number_def length_at_def budget_run_def
      demo_list_node_def demo_list_abi_def demo_list_contract_def demo_entries_def check_node_chain_id_def
      RESPONSE_MARGIN_def from_secs_def read_entries.simps PAGE_SIZE_def MAX_ENTRIES_def unwrap_or_def
      sub_slice_def rpc_then_def rpc_lift_def)


end
