(* ===== verification/Rgb_Source.thy ===== *)
theory Rgb_Source
  imports Reject_List Enclave_Phase Security_Policy
begin

text \<open>
  The RGB side of a route: the bind of the asset (\<open>enclave/src/networks/rgb/validation/asset_bind.rs\<close>),
  the checks of an RGB source around consensus (\<open>validation/source.rs\<close>), the route proofs
  (\<open>networks/rgb/route.rs\<close>, \<open>networks/ccd.rs\<close>, \<open>networks/route.rs\<close>), the recipient of a deposit
  (\<open>networks/rgb/invoice.rs\<close>) and the replay key of a mint (\<open>networks/rgb/psbt_validation.rs\<close>).

  RGB consensus itself (\<open>rgb-lib\<close>, with the resolvers of \<open>validation/consensus.rs\<close>) is the field
  \<open>rgb_validator\<close> of the launch, a function of the consignment and of the resolvers it is given.
\<close>

subsection \<open>The world of a request\<close>

text \<open>A request runs beside other workers. The header chain and the enclave state are shared, and
  the node and the clocks move: \<open>interfere\<close> is what happens before the handler takes a lock or
  reads a clock.\<close>

record evm_signature_response =
  es_signature :: bytes
  es_call_data :: bytes

record signed_psbt_message =
  signed_psbt :: bytes
  inputs_signed :: u32

record ccd_signature_response =
  ccd_signature :: bytes
  ccd_public_key :: bytes

datatype enclave_response =
  EvmSignature evm_signature_response
| SignedPsbt signed_psbt_message
| RawDigestSig bytes
| CcdSignature ccd_signature_response

record ('n, 'km) world =
  w_node :: 'n
  w_chain :: header_chain
  w_enclave :: "('km, enclave_response) enclave_state"

datatype 'p witness_view = Proven "(bytes \<times> 'p) list" | Indexer_Depth u32

type_synonym ('n, 'p) rgb_consensus =
  "bytes \<Rightarrow> (bfa_bridge \<Rightarrow> mint_anchor list \<Rightarrow> bound_anchors enclave_result) \<Rightarrow> 'p witness_view \<Rightarrow>
   (string \<Rightarrow> unit enclave_result) \<Rightarrow> (reject_list_contract \<Rightarrow> ('n, decision_sets) rpc) \<Rightarrow>
   ('n, validated_consignment) rpc"

record ('n, 'p) launch =
  launch_policy :: security_policy
  rgb_validator :: "('n, 'p) rgb_consensus option"
  evm_rpc_client :: "'n evm_provider option"

text \<open>The functions of other crates that the path calls.\<close>

record ('n, 'km, 'p) signer_libs =
  keccak256 :: "bytes \<Rightarrow> bytes"
  sha256 :: "bytes \<Rightarrow> bytes"
  sha256d :: "bytes \<Rightarrow> bytes"
  btc :: btc_lib
  serialize_header :: "btc_header \<Rightarrow> bytes"
  alloy :: alloy_lib
  reject_abi :: list_abi
  ts_burn :: u16
  chain_net_prefix :: "chain_net \<Rightarrow> string"
  witness_pos :: "u32 \<Rightarrow> u32 \<Rightarrow> 'p option"
  encode_to_vec :: "sign_request \<Rightarrow> bytes"
  invoice_seal :: "string \<Rightarrow> string option option"
  psbt_input_count :: "bytes \<Rightarrow> nat option"
  sign_evm :: "'km \<Rightarrow> bytes \<Rightarrow> bytes enclave_result"
  sign_evm_gas_tx :: "'km \<Rightarrow> bytes \<Rightarrow> bytes enclave_result"
  sign_ccd :: "'km \<Rightarrow> bytes \<Rightarrow> (bytes \<times> bytes) enclave_result"
  sign_psbt_colored :: "'km \<Rightarrow> bytes \<Rightarrow> (bytes \<times> nat) enclave_result"

record ('n, 'km, 'p) signer_env =
  sg_build :: signer_build
  sg_config :: bridge_config
  sg_launch :: "('n, 'p) launch option"
  sg_libs :: "('n, 'km, 'p) signer_libs"
  interfere :: "('n, 'km) world \<Rightarrow> ('n, 'km) world"
  system_now :: "'n \<Rightarrow> system_time"
  instant_now :: "'n \<Rightarrow> instant"

definition observe :: "('n, 'km, 'p) signer_env \<Rightarrow> (('n, 'km) world \<Rightarrow> 'a) \<Rightarrow> (('n, 'km) world, 'a) rpc" where
  "observe env f = (\<lambda>w. let w' = interfere env w in (Inr (f w'), w'))"

definition on_node :: "('n, 'a) rpc \<Rightarrow> (('n, 'km) world, 'a) rpc" where
  "on_node m = (\<lambda>w. case m (w_node w) of (r, n') \<Rightarrow> (r, w\<lparr>w_node := n'\<rparr>))"

definition launched :: "('n, 'km, 'p) signer_env \<Rightarrow> ('n, 'p) launch enclave_result" where
  "launched env = ok_or (sg_launch env) (NotReady ''endpoints-unset'')"

subsection \<open>Binding the asset\<close>

datatype asset_bind_mode = SourceBind | DestinationBind

definition assert_asset_binding ::
  "string \<Rightarrow> string \<Rightarrow> bridge_config \<Rightarrow> asset_bind_mode \<Rightarrow> unit enclave_result" where
  "assert_asset_binding validated declared cfg mode =
    (if validated = [] then Inl (CrossCheck ''validated consignment has empty contract_id'')
     else if validated \<noteq> declared then Inl (CrossCheck ''contract_id mismatch with the declared asset'')
     else
       (case mode of
          SourceBind \<Rightarrow>
            (if \<not> is_configured cfg then Inr ()
             else if rgb_asset_id cfg = [] then Inl (CrossCheck ''RGB_ASSET_ID is empty'')
             else if validated \<noteq> rgb_asset_id cfg then Inl (CrossCheck ''contract_id mismatch with RGB_ASSET_ID'')
             else Inr ())
        | DestinationBind \<Rightarrow>
            (if rgb_asset_id cfg = [] then Inl (CrossCheck ''asset-identity pin missing'')
             else if validated \<noteq> rgb_asset_id cfg then Inl (CrossCheck ''contract_id mismatch with RGB_ASSET_ID'')
             else Inr ())))"

subsection \<open>An RGB source\<close>

definition assert_consignment_size :: "bytes \<Rightarrow> bridge_config \<Rightarrow> unit enclave_result" where
  "assert_consignment_size consignment cfg =
    require (length consignment \<le> max_consignment_bytes cfg) (CrossCheck ''consignment too large'')"

definition validate_source_payload ::
  "(bytes \<Rightarrow> bytes) \<Rightarrow> rgb_source \<Rightarrow> bridge_config \<Rightarrow> unit enclave_result" where
  "validate_source_payload keccak source cfg =
    and_then (require (rs_consignment source \<noteq> []) (CrossCheck ''RGB source requires raw consignment bytes'')) (\<lambda>_.
    and_then (assert_consignment_size (rs_consignment source) cfg) (\<lambda>_.
    and_then (require (length (merkle_proofs source) \<le> max_merkle_proofs cfg)
      (CrossCheck ''RGB source carries too many merkle proofs'')) (\<lambda>_.
    let total_proof_bytes = sum_list (map (\<lambda>p. length (mp_txid p) + sum_list (map length (mp_merkle_path p)))
          (merkle_proofs source)) in
    and_then (require (total_proof_bytes \<le> max_total_proof_bytes cfg)
      (CrossCheck ''RGB source merkle proofs too large in aggregate'')) (\<lambda>_.
    and_then (require (rs_consignment_hash source \<noteq> []) (CrossCheck ''consignment_hash is missing'')) (\<lambda>_.
    and_then (require (keccak (rs_consignment source) = rs_consignment_hash source)
      (CrossCheck ''consignment hash mismatch'')) (\<lambda>_.
    require (rs_asset_id source \<noteq> []) (CrossCheck ''RGB source asset_id is empty'')))))))"

definition source_witnesses ::
  "('n, 'km, 'p) signer_env \<Rightarrow> rgb_source \<Rightarrow> (('n, 'km) world, 'p witness_view) rpc" where
  "source_witnesses env source =
    (if b_spv (sg_build env) then
       rpc_then (observe env w_chain) (\<lambda>c.
       rpc_lift (and_then (proven_witnesses (sha256d (sg_libs env)) (witness_pos (sg_libs env)) c
         (spv_min_confirmations (sg_config env)) 0 (merkle_proofs source) []) (\<lambda>ws. Inr (Proven ws))))
     else rpc_lift (Inr (Indexer_Depth (spv_min_confirmations (sg_config env)))))"

text \<open>The pins are recorded on success only: a request that fails is refused anyway.\<close>

definition rgb_validate_source ::
  "('n, 'km, 'p) signer_env \<Rightarrow> ('n, 'p) launch \<Rightarrow> instant \<Rightarrow> rgb_source \<Rightarrow> chain_pins
    \<Rightarrow> (('n, 'km) world, validated_consignment \<times> chain_pins) rpc" where
  "rgb_validate_source env l deadline source pins =
    (let cfg = sg_config env; libs = sg_libs env;
         bind_asset = (\<lambda>contract. assert_asset_binding contract (rs_asset_id source) cfg SourceBind) in
     rpc_then (rpc_lift (validate_source_payload (keccak256 libs) source cfg)) (\<lambda>_.
     rpc_then (rpc_lift (ok_or (rgb_validator l)
       (CrossCheck ''RGB source validation requires rgb_validator to be configured''))) (\<lambda>validate_consignment.
     rpc_then (source_witnesses env source) (\<lambda>view.
     rpc_then (on_node (validate_consignment (rs_consignment source) (derived_locks (keccak256 libs) cfg) view bind_asset
       (\<lambda>contract. read_decisions (reject_abi libs) (instant_now env) cfg (Some (evm_rpc_client l)) contract deadline))) (\<lambda>v.
     rpc_then (rpc_lift (bind_asset (vc_contract_id v))) (\<lambda>_.
     rpc_then
       (if b_spv (sg_build env) then
          rpc_then (observe env (\<lambda>w. (w_chain w, system_now env (w_node w)))) (\<lambda>(c, now).
          rpc_lift (validate_source_chain (sha256d libs) (chain_net_prefix libs) c
            (Some (vc_chain_net v, vc_witness_txids v)) (merkle_proofs source) now pins (spv_min_confirmations cfg)))
        else rpc_lift (Inr pins)) (\<lambda>pins.
     rpc_lift (Inr (v, pins)))))))))"

definition normalize_rgb_operation_id :: "string \<Rightarrow> string enclave_result" where
  "normalize_rgb_operation_id op =
    (let normalized = unwrap_or (strip_prefix ''0x'' op) op in
     and_then (require (length normalized = 64) (CrossCheck ''RGB operation_id must be 32-byte hex'')) (\<lambda>_.
     and_then (require (list_all (\<lambda>c. is_ascii_digit c \<or> c \<in> set ''abcdefABCDEF'') normalized)
       (CrossCheck ''RGB operation_id is not hex-decodable'')) (\<lambda>_.
     Inr (map to_ascii_lower normalized))))"

definition route_proof_from_validated_consignment ::
  "u16 \<Rightarrow> validated_consignment \<Rightarrow> route_proof enclave_result" where
  "route_proof_from_validated_consignment TS_BURN v =
    and_then (ok_or (last_transition v)
      (CrossCheck ''RGB source requires a consignment with at least one transition'')) (\<lambda>t.
    and_then (funds_out_source_amount TS_BURN t) (\<lambda>amount.
    and_then (normalize_rgb_operation_id (op_id t)) (\<lambda>oid.
    Inr \<lparr>rp_amount = amount, rp_operation_id = Some oid\<rparr>)))"

definition ccd_validate_source :: "u64 \<Rightarrow> ccd_source \<Rightarrow> route_proof enclave_result" where
  "ccd_validate_source amount source =
    and_then (require (length (cs_tx_hash source) = 32) (CrossCheck ''CCD source tx_hash must be 32 bytes'')) (\<lambda>_.
    Inr \<lparr>rp_amount = amount, rp_operation_id = None\<rparr>)"

subsection \<open>The recipient and the key of a mint\<close>

text \<open>\<open>invoice_seal\<close> is \<open>RgbInvoice::from_str\<close> and its beneficiary: \<open>None\<close> where the text does not
  parse, \<open>Some None\<close> for a witness output, \<open>Some (Some seal)\<close> for a blinded seal.\<close>

definition parse_authorized_recipient ::
  "(string \<Rightarrow> string option option) \<Rightarrow> string \<Rightarrow> string enclave_result" where
  "parse_authorized_recipient invoice addr =
    (let trimmed = str_trim addr in
     and_then (require (trimmed \<noteq> []) (CrossCheck ''BridgeFundsIn.destinationAddress is empty'')) (\<lambda>_.
     and_then (require (length trimmed \<le> BFI_MAX_DEST_ADDRESS_LEN)
       (CrossCheck ''BridgeFundsIn.destinationAddress is too long'')) (\<lambda>_.
     and_then (ok_or (invoice trimmed)
       (CrossCheck ''BridgeFundsIn.destinationAddress is not a valid RGB invoice'')) (\<lambda>beneficiary.
     ok_or beneficiary (CrossCheck ''BridgeFundsIn.destinationAddress names a witness-vout beneficiary'')))))"

definition assert_recipient_authorized :: "string list \<Rightarrow> string \<Rightarrow> unit enclave_result" where
  "assert_recipient_authorized seals expected =
    (case seals of
       [only] \<Rightarrow> require (only = expected) (CrossCheck ''send-RGB recipient seal mismatch'')
     | _ \<Rightarrow> Inl (CrossCheck ''send-RGB consignment pays several confidential recipient legs''))"

definition psbt_operation_key ::
  "(bytes \<Rightarrow> bytes) \<Rightarrow> u64 \<Rightarrow> bytes \<Rightarrow> bytes \<Rightarrow> bytes \<Rightarrow> string \<Rightarrow> bytes" where
  "psbt_operation_key keccak chain contract evm_tx_hash operation_id asset =
    keccak (as_str_bytes ''utexo:psbt-op:v1'' @ word_be chain @ contract @
      word_be (of_nat (length evm_tx_hash) :: u64) @ evm_tx_hash @
      word_be (of_nat (length operation_id) :: u64) @ operation_id @
      word_be (of_nat (length asset) :: u64) @ as_str_bytes asset)"

text \<open>\<open>psbt_input_count\<close> is \<open>Psbt::deserialize\<close> and the number of inputs of the unsigned transaction.\<close>

definition validate_psbt_bytes :: "(bytes \<Rightarrow> nat option) \<Rightarrow> bytes \<Rightarrow> unit enclave_result" where
  "validate_psbt_bytes input_count psbt =
    and_then (require (psbt \<noteq> []) (CrossCheck ''psbt_bytes is empty'')) (\<lambda>_.
    and_then (check_psbt_size psbt) (\<lambda>_.
    and_then (ok_or (input_count psbt) (CrossCheck ''psbt_bytes is not a valid PSBT'')) (\<lambda>n.
    require (n \<noteq> 0) (CrossCheck ''psbt has no inputs''))))"

end
