(* ===== verification/Sign_Flow.thy ===== *)
theory Sign_Flow
  imports Rgb_Source
begin

text \<open>
  The signing request: routing of source and destination (\<open>enclave/src/networks/route.rs\<close>), the
  handler (\<open>server/sign.rs\<close>) and the signers it ends in (\<open>server/signers.rs\<close>).

  \<open>destination_anchor\<close> stands for \<open>rgb::validate_destination_anchor\<close>, the checks on the mint PSBT and
  its fascias; it is given the function that binds a mint to its deposit and may call it.
\<close>

subsection \<open>Routing\<close>

record source_proof =
  sp_proof :: route_proof
  rgb_consignment :: "validated_consignment option"

record destination_proof =
  dp_proof :: route_proof
  evm_funds_out :: "funds_out_params option"
  evm_release_identity :: "release_identity option"
  rgb_recipient_seals :: "string list"

text \<open>\<open>l\<close> is the launch of a build with RGB validation, \<^const>\<open>None\<close> in another build.\<close>

definition route_validate_source ::
  "('n, 'km, 'p) signer_env \<Rightarrow> ('n, 'p) launch option \<Rightarrow> instant \<Rightarrow> u64 \<Rightarrow> source_network \<Rightarrow> chain_pins
    \<Rightarrow> (('n, 'km) world, source_proof \<times> chain_pins) rpc" where
  "route_validate_source env l deadline amount source pins =
    (let unsupported = rpc_lift (Inl (InvalidRequest ''source network not supported by this build'')) in
     case source of
       EvmSource s \<Rightarrow>
         (if b_evm_to_rgb (sg_build env) then
            rpc_lift (and_then (evm_validate_source amount s) (\<lambda>proof.
              Inr (\<lparr>sp_proof = proof, rgb_consignment = None\<rparr>, pins)))
          else unsupported)
     | RgbSource s \<Rightarrow>
         (if b_rgb_to_evm (sg_build env) then
            (case l of
               None \<Rightarrow> rpc_lift (Inl (CrossCheck ''RGB source validation requires rgb-validation''))
             | Some l \<Rightarrow>
                 rpc_then (rgb_validate_source env l deadline s pins) (\<lambda>(v, pins).
                 rpc_lift (and_then (route_proof_from_validated_consignment (ts_burn (sg_libs env)) v) (\<lambda>proof.
                   Inr (\<lparr>sp_proof = proof, rgb_consignment = Some v\<rparr>, pins)))))
          else unsupported)
     | CcdSource s \<Rightarrow>
         (if b_ccd (sg_build env) then
            rpc_lift (and_then (ccd_validate_source amount s) (\<lambda>proof.
              Inr (\<lparr>sp_proof = proof, rgb_consignment = None\<rparr>, pins)))
          else unsupported))"

type_synonym ('n, 'km) destination_anchor =
  "rgb_destination \<Rightarrow> u64 \<Rightarrow> u64 \<Rightarrow> (mint_facts \<Rightarrow> (('n, 'km) world, unit) rpc)
    \<Rightarrow> (('n, 'km) world, u64 \<times> string list) rpc"

definition route_validate_destination ::
  "('n, 'km, 'p) signer_env \<Rightarrow> ('n, 'km) destination_anchor \<Rightarrow> (mint_facts \<Rightarrow> (('n, 'km) world, unit) rpc) \<Rightarrow>
   u64 \<Rightarrow> u64 \<Rightarrow> destination_network \<Rightarrow> (('n, 'km) world, destination_proof) rpc" where
  "route_validate_destination env destination_anchor mint_binder amount commission destination =
    (let libs = sg_libs env; b = sg_build env;
         unsigned_here = rpc_lift (Inl (InvalidRequest ''destination network not signed by this signer role'')) in
     case destination of
       EvmDestination d \<Rightarrow>
         (if b_rgb_to_evm b then
            rpc_then (observe env (\<lambda>w. system_now env (w_node w))) (\<lambda>now.
            rpc_lift (and_then (evm_validate_destination (keccak256 libs) (alloy libs) b (sg_config env) now d)
              (\<lambda>(proof, params, release).
              Inr \<lparr>dp_proof = proof, evm_funds_out = params, evm_release_identity = Some release,
                   rgb_recipient_seals = []\<rparr>)))
          else unsigned_here)
     | RgbDestination d \<Rightarrow>
         (if b_evm_to_rgb b then
            rpc_then (rpc_lift (validate_psbt_bytes (psbt_input_count libs) (psbt_bytes d))) (\<lambda>_.
            rpc_then (if b_rgb_validation b then destination_anchor d amount commission mint_binder
                      else rpc_lift (Inr (psbt_output_amount d, []))) (\<lambda>(destination_amount, seals).
            rpc_lift (and_then (ok_or (checked_add destination_amount commission)
                (CrossCheck ''destination amount + source_commission overflow'')) (\<lambda>total.
              Inr \<lparr>dp_proof = \<lparr>rp_amount = total, rp_operation_id = None\<rparr>, evm_funds_out = None,
                   evm_release_identity = None, rgb_recipient_seals = seals\<rparr>))))
          else unsigned_here))"

definition validate_amount_covers_destination :: "u64 \<Rightarrow> u64 \<Rightarrow> unit enclave_result" where
  "validate_amount_covers_destination source_amount destination_amount =
    (if source_amount < destination_amount then Inl (CrossCheck ''amount mismatch'') else Inr ())"

definition validate_route_proofs ::
  "signer_build \<Rightarrow> source_network \<Rightarrow> destination_network \<Rightarrow> route_proof \<Rightarrow> route_proof \<Rightarrow> unit enclave_result" where
  "validate_route_proofs b source destination sp dp =
    (case (source, destination) of
       (EvmSource _, RgbDestination _) \<Rightarrow> validate_amount_covers_destination (rp_amount sp) (rp_amount dp)
     | (RgbSource _, EvmDestination _) \<Rightarrow> validate_amount_covers_destination (rp_amount sp) (rp_amount dp)
     | (CcdSource _, EvmDestination _) \<Rightarrow>
         (if b_ccd b then validate_amount_covers_destination (rp_amount sp) (rp_amount dp)
          else Inl (InvalidRequest ''unsupported source/destination network pair''))
     | _ \<Rightarrow> Inl (InvalidRequest ''unsupported source/destination network pair''))"

subsection \<open>Signers\<close>

text \<open>The check of the pins and the signature happen under the same lock of the header chain.\<close>

definition sign_with_chain_pins_unchanged ::
  "('n, 'km, 'p) signer_env \<Rightarrow> chain_pins \<Rightarrow> ('km \<Rightarrow> 'a enclave_result) \<Rightarrow> (('n, 'km) world, 'a) rpc" where
  "sign_with_chain_pins_unchanged env pins sign = (\<lambda>w.
    let w' = interfere env w;
        signed = with_active (w_enclave w') sign
    in (if pins = [] then signed else and_then (assert_unchanged pins (w_chain w')) (\<lambda>_. signed), w'))"

definition handle_sign_evm ::
  "('n, 'km, 'p) signer_env \<Rightarrow> evm_destination \<Rightarrow> funds_out_params option \<Rightarrow> chain_pins
    \<Rightarrow> (('n, 'km) world, enclave_response) rpc" where
  "handle_sign_evm env req params pins =
    rpc_then (rpc_lift (release_digest (keccak256 (sg_libs env)) (alloy (sg_libs env)) req params)) (\<lambda>digest.
    rpc_then (sign_with_chain_pins_unchanged env pins (\<lambda>km. sign_evm (sg_libs env) km digest)) (\<lambda>signature.
    rpc_lift (Inr (EvmSignature \<lparr>es_signature = signature, es_call_data = call_data req\<rparr>))))"

definition signed_psbt_response :: "bytes \<times> nat \<Rightarrow> enclave_response enclave_result" where
  "signed_psbt_response = (\<lambda>(psbt, n).
    if n = 0 then Inl (Signing ''sign_psbt signed 0 inputs'')
    else Inr (SignedPsbt \<lparr>signed_psbt = psbt, inputs_signed = of_nat n\<rparr>))"

definition handle_sign_psbt ::
  "('n, 'km, 'p) signer_env \<Rightarrow> rgb_destination \<Rightarrow> chain_pins \<Rightarrow> (('n, 'km) world, enclave_response) rpc" where
  "handle_sign_psbt env req pins =
    rpc_then (sign_with_chain_pins_unchanged env pins (\<lambda>km. sign_psbt_colored (sg_libs env) km (psbt_bytes req))) (\<lambda>signed.
    rpc_lift (signed_psbt_response signed))"

subsection \<open>Steps of the handler\<close>

definition wrong_signer_role :: "string \<Rightarrow> enclave_error" where
  "wrong_signer_role what = InvalidRequest (''this enclave does not sign '' @ what)"

definition check_signer_role ::
  "signer_build \<Rightarrow> source_network \<Rightarrow> destination_network \<Rightarrow> unit enclave_result" where
  "check_signer_role b source destination =
    (if \<not> b_evm_to_rgb b \<and> (case (source, destination) of
          (EvmSource _, _) \<Rightarrow> True | (_, RgbDestination _) \<Rightarrow> True | _ \<Rightarrow> False) then
       Inl (wrong_signer_role ''EVM -> RGB bridge PSBTs'')
     else if \<not> b_rgb_to_evm b \<and> (case (source, destination) of
          (RgbSource _, _) \<Rightarrow> True | (_, EvmDestination _) \<Rightarrow> True | _ \<Rightarrow> False) then
       Inl (wrong_signer_role ''RGB -> EVM fundsOut releases'')
     else Inr ())"

definition refuse_unverifiable_funds_in :: "source_network \<Rightarrow> destination_network \<Rightarrow> unit enclave_result" where
  "refuse_unverifiable_funds_in source destination =
    (case (source, destination) of
       (EvmSource _, RgbDestination _) \<Rightarrow> Inl (CrossCheck ''enclave was not built with --features evm-rpc'')
     | _ \<Rightarrow> Inr ())"

definition source_commission :: "signer_build \<Rightarrow> source_network \<Rightarrow> u64 enclave_result" where
  "source_commission b source =
    (case source of
       EvmSource s \<Rightarrow> Inr (es_commission s)
     | RgbSource s \<Rightarrow> Inr (rs_commission s)
     | CcdSource s \<Rightarrow> (if b_ccd b then Inr (cs_commission s) else Inl (InvalidRequest ''not built with ccd'')))"

definition ensure_time_left :: "('n, 'km, 'p) signer_env \<Rightarrow> instant \<Rightarrow> (('n, 'km) world, unit) rpc" where
  "ensure_time_left env deadline =
    rpc_then (observe env (\<lambda>w. instant_now env (w_node w))) (\<lambda>now.
    rpc_lift (if deadline \<le> now then Inl (Io ''request deadline passed'') else Inr ()))"

definition evm_tx_hash :: "evm_source \<Rightarrow> bytes enclave_result" where
  "evm_tx_hash s = (if length (es_tx_hash s) = 32 then Inr (es_tx_hash s)
                    else Inl (CrossCheck ''evm_tx_hash must be 32 bytes''))"

definition bind_mint ::
  "('n, 'km, 'p) signer_env \<Rightarrow> source_network \<Rightarrow> mint_facts \<Rightarrow> (('n, 'km) world, unit) rpc" where
  "bind_mint env source mint =
    (case source of
       EvmSource s \<Rightarrow>
         rpc_then (rpc_lift (evm_tx_hash s)) (\<lambda>tx_hash.
         on_node (bind_mint_deposit (keccak256 (sg_libs env)) (sg_config env)
           (map_option evm_rpc_client (sg_launch env)) tx_hash (funds_in_operation_id s) mint))
     | _ \<Rightarrow> rpc_lift (Inl (CrossCheck ''a mint is bound to an EVM deposit only'')))"

definition verify_funds_in_deposit ::
  "('n, 'km, 'p) signer_env \<Rightarrow> u64 \<Rightarrow> source_network \<Rightarrow> destination_network
    \<Rightarrow> (('n, 'km) world, string option) rpc" where
  "verify_funds_in_deposit env amount source destination =
    (case (source, destination) of
       (EvmSource s, RgbDestination _) \<Rightarrow>
         (if b_evm_rpc (sg_build env) then
            rpc_then (rpc_lift (evm_tx_hash s)) (\<lambda>tx_hash.
            rpc_then (rpc_lift (launched env)) (\<lambda>l.
            rpc_then (rpc_lift (ok_or (evm_rpc_client l)
              (CrossCheck ''evm-rpc build but RPC client unavailable''))) (\<lambda>client.
            rpc_then (on_node (verify_funds_in_event (keccak256 (sg_libs env)) client (funds_in_contract (sg_config env))
              (cfg_evm_finality_tag (sg_config env)) tx_hash (funds_in_operation_id s) amount (es_commission s))) (\<lambda>address.
            if str_trim address = [] then rpc_lift (Inr None)
            else rpc_lift (and_then (parse_authorized_recipient (invoice_seal (sg_libs env)) address)
              (\<lambda>seal. Inr (Some seal)))))))
          else rpc_lift (Inr None))
     | _ \<Rightarrow> rpc_lift (Inr None))"

definition bind_funds_in_recipient :: "string option \<Rightarrow> destination_proof \<Rightarrow> unit enclave_result" where
  "bind_funds_in_recipient authorized dp =
    (case authorized of
       Some seal \<Rightarrow> assert_recipient_authorized (rgb_recipient_seals dp) seal
     | None \<Rightarrow> Inr ())"

definition request_digest :: "('n, 'km, 'p) signer_env \<Rightarrow> sign_request \<Rightarrow> bytes" where
  "request_digest env req = sha256 (sg_libs env) (encode_to_vec (sg_libs env) req)"

definition operation_key ::
  "('n, 'km, 'p) signer_env \<Rightarrow> source_network \<Rightarrow> destination_network \<Rightarrow> bytes option" where
  "operation_key env source destination =
    (case (source, destination) of
       (EvmSource s, RgbDestination d) \<Rightarrow>
         Some (psbt_operation_key (keccak256 (sg_libs env)) (chain_id (sg_config env)) (bridge_contract (sg_config env))
           (es_tx_hash s) (funds_in_operation_id s) (rd_asset_id d))
     | _ \<Rightarrow> None)"

text \<open>An operation on the enclave state is one locked section.\<close>

definition on_enclave ::
  "('n, 'km, 'p) signer_env \<Rightarrow>
   (('km, enclave_response) enclave_state \<Rightarrow> instant \<Rightarrow> 'a enclave_result \<times> ('km, enclave_response) enclave_state)
    \<Rightarrow> (('n, 'km) world, 'a) rpc" where
  "on_enclave env f = (\<lambda>w. let w' = interfere env w in
    case f (w_enclave w') (instant_now env (w_node w')) of (r, st) \<Rightarrow> (r, w'\<lparr>w_enclave := st\<rparr>))"

definition replay_error :: "enclave_error \<Rightarrow> enclave_error" where
  "replay_error e = (if e = NonceReplay then CrossCheck ''duplicate bridge operation'' else e)"

definition precheck_operation ::
  "('n, 'km, 'p) signer_env \<Rightarrow> bytes option \<Rightarrow> (('n, 'km) world, unit) rpc" where
  "precheck_operation env key =
    (case key of
       None \<Rightarrow> rpc_lift (Inr ())
     | Some k \<Rightarrow> on_enclave env (\<lambda>st now. (map_err replay_error (guard_check (op_replay_guard st) k now), st)))"

definition reserve_operation ::
  "('n, 'km, 'p) signer_env \<Rightarrow> bytes option \<Rightarrow> (('n, 'km) world, replay_reservation option) rpc" where
  "reserve_operation env key =
    (case key of
       None \<Rightarrow> rpc_lift (Inr None)
     | Some k \<Rightarrow> on_enclave env (\<lambda>st now.
         case reserve_at (op_replay_guard st) k now of
           (r, g) \<Rightarrow> (and_then (map_err replay_error r) (\<lambda>res. Inr (Some res)), st\<lparr>op_replay_guard := g\<rparr>)))"

text \<open>Dropping an uncommitted reservation rolls its key back.\<close>

definition drop_reservation ::
  "('n, 'km, 'p) signer_env \<Rightarrow> replay_reservation option \<Rightarrow> ('n, 'km) world \<Rightarrow> ('n, 'km) world" where
  "drop_reservation env res w =
    (case res of
       None \<Rightarrow> w
     | Some r \<Rightarrow> snd (on_enclave env (\<lambda>st now.
         (Inr (), st\<lparr>op_replay_guard := reservation_drop (op_replay_guard st) r\<rparr>)) w))"

subsection \<open>The handler\<close>

definition sign_release ::
  "('n, 'km, 'p) signer_env \<Rightarrow> source_network \<Rightarrow> source_proof \<Rightarrow> destination_proof \<Rightarrow> evm_destination \<Rightarrow> chain_pins
    \<Rightarrow> (('n, 'km) world, enclave_response) rpc" where
  "sign_release env source sp dp d pins =
    (let libs = sg_libs env; cfg = sg_config env; b = sg_build env in
     rpc_then (rpc_lift (ok_or (evm_release_identity dp)
       (Internal ''EVM destination validated without a release identity''))) (\<lambda>release.
     rpc_then (rpc_lift (case source of RgbSource _ \<Rightarrow> validate_rgb_source_identity release | _ \<Rightarrow> Inr ())) (\<lambda>_.
     rpc_then (rpc_lift (validate_burn_id (keccak256 libs) cfg release)) (\<lambda>_.
     rpc_then
       (case source of
          RgbSource s \<Rightarrow>
            (if b_rgb_validation b then
               rpc_then (observe env w_chain) (\<lambda>c.
               rpc_lift (apply_funds_out_binding (sha256d libs) (keccak256 libs) (btc libs) (serialize_header libs)
                 (alloy libs) (ts_burn libs) b cfg c release (rgb_consignment sp) (merkle_proofs s) pins
                 (map_option burn_destination_record_from (ed_burn_destination d))))
             else rpc_lift (Inr pins))
        | _ \<Rightarrow> rpc_lift (Inr pins)) (\<lambda>pins.
     handle_sign_evm env d (evm_funds_out dp) pins)))))"

definition sign_validated ::
  "('n, 'km, 'p) signer_env \<Rightarrow> source_network \<Rightarrow> destination_network \<Rightarrow> source_proof \<Rightarrow> destination_proof \<Rightarrow> chain_pins
    \<Rightarrow> (('n, 'km) world, enclave_response) rpc" where
  "sign_validated env source destination sp dp pins =
    (case destination of
       EvmDestination d \<Rightarrow>
         (if b_rgb_to_evm (sg_build env) then sign_release env source sp dp d pins
          else rpc_lift (Inl (wrong_signer_role ''this route'')))
     | RgbDestination d \<Rightarrow>
         (if b_evm_to_rgb (sg_build env) then handle_sign_psbt env d pins
          else rpc_lift (Inl (wrong_signer_role ''this route''))))"

text \<open>The end of the handler: cache the reply of a mint, or roll the reservation back on an error.\<close>

definition finish_sign ::
  "('n, 'km, 'p) signer_env \<Rightarrow> sign_request \<Rightarrow> bytes option \<Rightarrow> replay_reservation option \<Rightarrow>
   (('n, 'km) world, enclave_response) rpc \<Rightarrow> (('n, 'km) world, enclave_response \<times> replay_reservation option) rpc" where
  "finish_sign env req key res m = (\<lambda>w.
    case m w of
      (Inl e, w') \<Rightarrow> (Inl e, drop_reservation env res w')
    | (Inr response, w') \<Rightarrow>
        (Inr (response, res),
         (case key of
            None \<Rightarrow> w'
          | Some k \<Rightarrow> snd (on_enclave env (\<lambda>st now.
              (Inr (), st\<lparr>signed_results := cache_put_at (signed_results st) k (request_digest env req) response now\<rparr>)) w'))))"

definition sign_uncached ::
  "('n, 'km, 'p) signer_env \<Rightarrow> ('n, 'km) destination_anchor \<Rightarrow> sign_request \<Rightarrow> source_network \<Rightarrow> destination_network \<Rightarrow>
   bytes option \<Rightarrow> instant \<Rightarrow> (('n, 'km) world, enclave_response \<times> replay_reservation option) rpc" where
  "sign_uncached env destination_anchor req source destination key deadline =
    (let b = sg_build env;
         mint = (\<lambda>m. if b_evm_to_rgb b then m else rpc_lift (Inr ()));
         mint_binder = (\<lambda>facts. rpc_then (ensure_time_left env deadline) (\<lambda>_. bind_mint env source facts)) in
     rpc_then (mint (precheck_operation env key)) (\<lambda>_.
     rpc_then (if b_evm_to_rgb b then verify_funds_in_deposit env (sr_amount req) source destination
               else rpc_lift (Inr None)) (\<lambda>authorized.
     rpc_then (mint (ensure_time_left env deadline)) (\<lambda>_.
     rpc_then (if b_rgb_validation b \<and> b_rgb_to_evm b then rpc_lift (and_then (launched env) (\<lambda>l. Inr (Some l)))
               else rpc_lift (Inr None)) (\<lambda>l.
     rpc_then (route_validate_source env l deadline (sr_amount req) source []) (\<lambda>(sp, pins).
     rpc_then (rpc_lift (source_commission b source)) (\<lambda>commission.
     rpc_then (route_validate_destination env destination_anchor mint_binder (sr_amount req) commission destination) (\<lambda>dp.
     rpc_then (rpc_lift (validate_route_proofs b source destination (sp_proof sp) (dp_proof dp))) (\<lambda>_.
     rpc_then (if b_evm_to_rgb b then rpc_lift (bind_funds_in_recipient authorized dp) else rpc_lift (Inr ())) (\<lambda>_.
     rpc_then (mint (ensure_time_left env deadline)) (\<lambda>_.
     rpc_then (if b_evm_to_rgb b then reserve_operation env key else rpc_lift (Inr None)) (\<lambda>res.
     finish_sign env req key res (sign_validated env source destination sp dp pins)))))))))))))"

definition handle_sign ::
  "('n, 'km, 'p) signer_env \<Rightarrow> ('n, 'km) destination_anchor \<Rightarrow> sign_request \<Rightarrow> instant
    \<Rightarrow> (('n, 'km) world, enclave_response \<times> replay_reservation option) rpc" where
  "handle_sign env destination_anchor req deadline =
    (let b = sg_build env in
     rpc_then (rpc_lift (ok_or (source_network req) (InvalidRequest ''sign request has no source_network''))) (\<lambda>source.
     rpc_then (rpc_lift (ok_or (destination_network req)
       (InvalidRequest ''sign request has no destination_network''))) (\<lambda>destination.
     rpc_then (rpc_lift (check_signer_role b source destination)) (\<lambda>_.
     rpc_then (rpc_lift (if b_evm_rpc b then Inr () else refuse_unverifiable_funds_in source destination)) (\<lambda>_.
     rpc_then (on_enclave env (\<lambda>st now. (with_active st (\<lambda>_. Inr ()), st))) (\<lambda>_.
     let key = (if b_evm_to_rgb b then operation_key env source destination else None) in
     rpc_then
       (case key of
          None \<Rightarrow> rpc_lift (Inr None)
        | Some k \<Rightarrow> on_enclave env (\<lambda>st now. (Inr (cache_get_at (signed_results st) k (request_digest env req) now), st)))
       (\<lambda>cached.
     case cached of
       Some response \<Rightarrow> rpc_lift (Inr (response, None))
     | None \<Rightarrow> sign_uncached env destination_anchor req source destination key deadline)))))))"

text \<open>\<open>dispatch\<close> calls the handler only after the launch.\<close>

definition dispatch_sign ::
  "('n, 'km, 'p) signer_env \<Rightarrow> ('n, 'km) destination_anchor \<Rightarrow> sign_request \<Rightarrow> instant
    \<Rightarrow> (('n, 'km) world, enclave_response \<times> replay_reservation option) rpc" where
  "dispatch_sign env destination_anchor req deadline =
    rpc_then (rpc_lift (launched env)) (\<lambda>_. handle_sign env destination_anchor req deadline)"

end
