(* ===== verification/Release_Digest.thy ===== *)
theory Release_Digest
  imports Evm_Release
begin

text \<open>
  What the release checks and the EIP-712 digests of \<open>Evm_Release\<close> guarantee: the LayerZero
  options that pass, and that a signed digest determines the calldata, the nonce, the deadline and
  the domain it was signed for.
\<close>

subsection \<open>The options that pass\<close>

lemma be_nat_eq_iff: "length ys = length xs \<Longrightarrow> be_nat xs = be_nat ys \<longleftrightarrow> xs = ys"
  by (metis be_nat_inject)

lemma be_nat_pair:
  "length xs = 2 \<Longrightarrow> be_nat xs = 3 \<longleftrightarrow> xs = [0, 3]"
  "length xs = 2 \<Longrightarrow> be_nat xs = 17 \<longleftrightarrow> xs = [0, 17]"
  using be_nat_eq_iff [of "[0, 3]" xs] be_nat_eq_iff [of "[0, 17]" xs] by (simp_all add: be_nat_def)

lemma split_first_chunk_Some:
  "split_first_chunk n xs = Some (a, b) \<longleftrightarrow> xs = a @ b \<and> length a = n"
  by (auto simp: split_first_chunk_def)

lemma split_first_Some: "split_first xs = Some (a, b) \<longleftrightarrow> xs = a # b"
  by (auto simp: split_first_def split: list.split)

lemmas lz_option_defs = OPTIONS_TYPE_3_def EXECUTOR_WORKER_ID_def OPTION_TYPE_LZRECEIVE_def
  LZRECEIVE_GAS_LEN_def MAX_LZ_RECEIVE_GAS_def

lemma validate_extra_options_Inr:
  assumes "options \<noteq> []"
  shows "validate_extra_options options = Inr () \<longleftrightarrow>
    (\<exists>ty sz body. options = ty @ [1] @ sz @ [1] @ body \<and> length ty = 2 \<and> be_nat ty = 3 \<and>
       length sz = 2 \<and> be_nat sz = Suc (length body) \<and> length body = 16 \<and> be_nat body \<le> 1000000)"
    (is "?L = ?R")
proof
  assume ?L
  then obtain ty r1 r2 sz r3 body where *:
      "split_first_chunk 2 options = Some (ty, r1)" "be_nat ty = 3" "split_first r1 = Some (1, r2)"
      "split_first_chunk 2 r2 = Some (sz, r3)" "be_nat sz = length r3" "split_first r3 = Some (1, body)"
      "length body = 16" "be_nat body \<le> 1000000"
    using assms unfolding validate_extra_options_def Let_def lz_option_defs
    by (clarsimp simp only: if_False and_then_Inr ok_or_Inr require_Inr split_paired_Ex case_prod_conv)
  then show ?R
    by (intro exI [of _ ty] exI [of _ sz] exI [of _ body]) (simp add: split_first_chunk_Some split_first_Some)
next
  assume ?R
  then obtain ty sz body where *: "options = ty @ [1] @ sz @ [1] @ body" "length ty = 2" "be_nat ty = 3"
      "length sz = 2" "be_nat sz = Suc (length body)" "length body = 16" "be_nat body \<le> 1000000"
    by blast
  have "split_first_chunk 2 options = Some (ty, 1 # sz @ 1 # body)"
    "split_first_chunk 2 (sz @ 1 # body) = Some (sz, 1 # body)"
    using * by (simp_all add: split_first_chunk_def)
  then show ?L
    using assms *(3,5-) by (simp add: validate_extra_options_def Let_def lz_option_defs split_first_def)
qed

text \<open>The LayerZero options that pass are exactly the empty ones and one executor \<open>lzReceive\<close>
  option of 16 gas bytes whose value is at most 1000000: the bytes before the gas are fixed, so no
  native drop, no compose option, no \<open>lzReceive\<close> value and no second option can be signed.\<close>

lemma extra_options_exact:
  "validate_extra_options options = Inr () \<longleftrightarrow>
    options = [] \<or>
    (\<exists>gas. options = [0, 3, 1, 0, 17, 1] @ gas \<and> length gas = 16 \<and> be_nat gas \<le> 1000000)"
proof (cases "options = []")
  case True
  then show ?thesis by (simp add: validate_extra_options_def)
next
  case False
  show ?thesis
    unfolding validate_extra_options_Inr [OF False]
  proof (intro iffI; (elim exE conjE disjE)?)
    fix ty sz body
    assume "options = ty @ [1] @ sz @ [1] @ body" "length ty = 2" "be_nat ty = 3" "length sz = 2"
      "be_nat sz = Suc (length body)" "length body = 16" "be_nat body \<le> 1000000"
    then show "options = [] \<or>
        (\<exists>gas. options = [0, 3, 1, 0, 17, 1] @ gas \<and> length gas = 16 \<and> be_nat gas \<le> 1000000)"
      by (simp add: be_nat_pair)
  next
    fix gas
    assume "options = [0, 3, 1, 0, 17, 1] @ gas" "length gas = 16" "be_nat gas \<le> 1000000"
    then show "\<exists>ty sz body. options = ty @ [1] @ sz @ [1] @ body \<and> length ty = 2 \<and> be_nat ty = 3 \<and>
        length sz = 2 \<and> be_nat sz = Suc (length body) \<and> length body = 16 \<and> be_nat body \<le> 1000000"
      by (intro exI [of _ "[0, 3]"] exI [of _ "[0, 17]"] exI [of _ gas]) (simp add: be_nat_def)
  qed (use False in simp)
qed

subsection \<open>The digest binds the release\<close>

definition keccak_width :: "(bytes \<Rightarrow> bytes) \<Rightarrow> bool" where
  "keccak_width keccak \<longleftrightarrow> (\<forall>bs. length (keccak bs) = HASH_LEN)"

text \<open>The fixed-size fields of the two calls, as their Solidity types give them.\<close>

definition alloy_widths :: "alloy_lib \<Rightarrow> bool" where
  "alloy_widths abi \<longleftrightarrow>
    (\<forall>data p. abi_decode_funds_out abi data = Some p \<longrightarrow>
       length (fo_recipient p) = ADDRESS_LEN \<and> length (fo_source_burn_tx_id p) = HASH_LEN) \<and>
    (\<forall>data p. abi_decode_lz_funds_out abi data = Some p \<longrightarrow>
       length (lz_recipient p) = HASH_LEN \<and> length (lz_source_burn_tx_id p) = HASH_LEN)"

definition domain_hashed :: "(bytes \<Rightarrow> bytes) \<Rightarrow> eip712_domain \<Rightarrow> bytes \<Rightarrow> bytes set" where
  "domain_hashed keccak d struct =
    {as_str_bytes (dom_name d), as_str_bytes (dom_version d), separator_preimage keccak d, struct,
     digest_preimage keccak d (keccak struct)}"

definition direct_hashed ::
  "(bytes \<Rightarrow> bytes) \<Rightarrow> eip712_domain \<Rightarrow> funds_out_params \<Rightarrow> u64 \<Rightarrow> u64 \<Rightarrow> bytes set" where
  "direct_hashed keccak d p nonce deadline =
    domain_hashed keccak d (funds_out_struct keccak p nonce deadline) \<union>
    {as_str_bytes TEE_FUNDS_OUT_TYPE_HASH_STR, as_str_bytes (fo_source_address p), fo_proof p,
     fo_settlement_data p}"

definition lz_hashed ::
  "(bytes \<Rightarrow> bytes) \<Rightarrow> eip712_domain \<Rightarrow> lz_funds_out_call \<Rightarrow> u64 \<Rightarrow> u64 \<Rightarrow> bytes set" where
  "lz_hashed keccak d p nonce deadline =
    domain_hashed keccak d (lz_funds_out_struct keccak p nonce deadline) \<union>
    {as_str_bytes TEE_LZ_FUNDS_OUT_TYPE_HASH_STR, as_str_bytes (lz_source_address p), lz_proof p,
     lz_settlement_data p, lz_extra_options p}"

lemma word_be_inject:
  "8 dvd LENGTH('a) \<Longrightarrow> word_be x = word_be (y :: 'a::len word) \<longleftrightarrow> x = y"
  using word_be_be_nat [of "word_be y" x] word_be_be_nat [of "word_be y" y] by auto

lemma length_abi_encode [simp]:
  "length (abi_encode_u256 v) = 32" "length (abi_encode_u32 w) = 32"
  "length (abi_encode_address a) = 12 + length a"
  by (simp_all add: abi_encode_u256_def abi_encode_u32_def abi_encode_address_def)

lemma abi_encode_inject [simp]:
  "abi_encode_u256 v = abi_encode_u256 v' \<longleftrightarrow> v = v'"
  "abi_encode_u32 w = abi_encode_u32 w' \<longleftrightarrow> w = w'"
  "abi_encode_address a = abi_encode_address a' \<longleftrightarrow> a = a'"
  by (simp_all add: abi_encode_u256_def abi_encode_u32_def abi_encode_address_def word_be_inject)

lemma keccak_widthD: "keccak_width keccak \<Longrightarrow> length (keccak bs) = 32"
  by (simp add: keccak_width_def HASH_LEN_def)

lemma domain_hashedD:
  assumes "domain_hashed keccak d s \<subseteq> S"
  shows "as_str_bytes (dom_name d) \<in> S" "as_str_bytes (dom_version d) \<in> S"
    "separator_preimage keccak d \<in> S" "s \<in> S" "digest_preimage keccak d (keccak s) \<in> S"
  using assms by (simp_all add: domain_hashed_def)

lemma eip712_digest_inject:
  assumes "keccak_width keccak"
    and inj: "inj_on keccak S" "domain_hashed keccak d s \<subseteq> S" "domain_hashed keccak d' s' \<subseteq> S"
    and len: "length (verifying_contract d) = length (verifying_contract d')"
    and eq: "eip712_digest keccak d (keccak s) = eip712_digest keccak d' (keccak s')"
  shows "d = d'" "s = s'"
proof -
  note w = keccak_widthD [OF assms(1)]
  note k = inj_on_eq_iff [OF inj(1)] and m = domain_hashedD [OF inj(2)] and m' = domain_hashedD [OF inj(3)]
  have "digest_preimage keccak d (keccak s) = digest_preimage keccak d' (keccak s')"
    using eq k [OF m(5) m'(5)] by (simp only: eip712_digest_def)
  then have *: "separator_hash keccak d = separator_hash keccak d'" "keccak s = keccak s'"
    by (simp_all add: digest_preimage_def separator_hash_def w)
  show "s = s'" using *(2) k [OF m(4) m'(4)] by simp
  have "separator_preimage keccak d = separator_preimage keccak d'"
    using *(1) k [OF m(3) m'(3)] by (simp only: separator_hash_def)
  then have sep: "keccak (as_str_bytes (dom_name d)) = keccak (as_str_bytes (dom_name d'))"
    "keccak (as_str_bytes (dom_version d)) = keccak (as_str_bytes (dom_version d'))"
    "dom_chain_id d = dom_chain_id d'" "verifying_contract d = verifying_contract d'"
    by (simp_all add: separator_preimage_def w len)
  have "as_str_bytes (dom_name d) = as_str_bytes (dom_name d')"
    "as_str_bytes (dom_version d) = as_str_bytes (dom_version d')"
    using sep(1,2) k [OF m(1) m'(1)] k [OF m(2) m'(2)] by (simp_all only:)
  then show "d = d'" using sep(3,4) by (intro eip712_domain.equality) simp_all
qed

lemma type_strings_differ:
  "as_str_bytes TEE_FUNDS_OUT_TYPE_HASH_STR \<noteq> as_str_bytes TEE_LZ_FUNDS_OUT_TYPE_HASH_STR"
  by (simp only: as_str_bytes_inject)
    (simp add: TEE_FUNDS_OUT_TYPE_HASH_STR_def TEE_LZ_FUNDS_OUT_TYPE_HASH_STR_def)

lemma funds_out_struct_inject:
  assumes "keccak_width keccak" "inj_on keccak S"
    "direct_hashed keccak d p n t \<subseteq> S" "direct_hashed keccak d' p' n' t' \<subseteq> S"
    "length (fo_recipient p) = length (fo_recipient p')"
    "length (fo_source_burn_tx_id p) = length (fo_source_burn_tx_id p')"
    "funds_out_struct keccak p n t = funds_out_struct keccak p' n' t'"
  shows "p = p'" "n = n'" "t = t'"
proof -
  note w = keccak_widthD [OF assms(1)] and k = inj_on_eq_iff [OF assms(2)]
  have m: "as_str_bytes (fo_source_address p) \<in> S" "fo_proof p \<in> S" "fo_settlement_data p \<in> S"
    "as_str_bytes (fo_source_address p') \<in> S" "fo_proof p' \<in> S" "fo_settlement_data p' \<in> S"
    using assms(3,4) by (simp_all add: direct_hashed_def)
  have *: "fo_recipient p = fo_recipient p'" "fo_amount p = fo_amount p'" "fo_burn_id p = fo_burn_id p'"
    "fo_source_chain_id p = fo_source_chain_id p'" "fo_destination_chain_id p = fo_destination_chain_id p'"
    "as_str_bytes (fo_source_address p) = as_str_bytes (fo_source_address p')" "fo_proof p = fo_proof p'"
    "fo_settlement_data p = fo_settlement_data p'" "fo_source_burn_tx_id p = fo_source_burn_tx_id p'"
    "n = n'" "t = t'"
    using assms(7) by (simp_all add: funds_out_struct_def w word_be_inject assms(5,6)
        k [OF m(1,4)] k [OF m(2,5)] k [OF m(3,6)])
  show "n = n'" "t = t'" by (fact *)+
  show "p = p'" using * by (intro funds_out_params.equality) simp_all
qed

lemma lz_funds_out_struct_inject:
  assumes "keccak_width keccak" "inj_on keccak S"
    "lz_hashed keccak d p n t \<subseteq> S" "lz_hashed keccak d' p' n' t' \<subseteq> S"
    "length (lz_recipient p) = length (lz_recipient p')"
    "length (lz_source_burn_tx_id p) = length (lz_source_burn_tx_id p')"
    "lz_funds_out_struct keccak p n t = lz_funds_out_struct keccak p' n' t'"
  shows "p = p'" "n = n'" "t = t'"
proof -
  note w = keccak_widthD [OF assms(1)] and k = inj_on_eq_iff [OF assms(2)]
  have m: "as_str_bytes (lz_source_address p) \<in> S" "lz_proof p \<in> S" "lz_settlement_data p \<in> S"
    "lz_extra_options p \<in> S" "as_str_bytes (lz_source_address p') \<in> S" "lz_proof p' \<in> S"
    "lz_settlement_data p' \<in> S" "lz_extra_options p' \<in> S"
    using assms(3,4) by (simp_all add: lz_hashed_def)
  have *: "lz_amount p = lz_amount p'" "lz_burn_id p = lz_burn_id p'"
    "lz_source_chain_id p = lz_source_chain_id p'" "lz_destination_chain_id p = lz_destination_chain_id p'"
    "as_str_bytes (lz_source_address p) = as_str_bytes (lz_source_address p')" "lz_proof p = lz_proof p'"
    "lz_settlement_data p = lz_settlement_data p'" "lz_dst_eid p = lz_dst_eid p'"
    "lz_recipient p = lz_recipient p'" "lz_min_amount_ld p = lz_min_amount_ld p'"
    "lz_extra_options p = lz_extra_options p'" "lz_source_burn_tx_id p = lz_source_burn_tx_id p'"
    "n = n'" "t = t'"
    using assms(7) by (simp_all add: lz_funds_out_struct_def w word_be_inject assms(5,6)
        k [OF m(1,5)] k [OF m(2,6)] k [OF m(3,7)] k [OF m(4,8)])
  show "n = n'" "t = t'" by (fact *)+
  show "p = p'" using * by (intro lz_funds_out_call.equality) simp_all
qed

lemma structs_differ:
  assumes "keccak_width keccak" "inj_on keccak S"
    "direct_hashed keccak d p n t \<subseteq> S" "lz_hashed keccak d' p' n' t' \<subseteq> S"
  shows "funds_out_struct keccak p n t \<noteq> lz_funds_out_struct keccak p' n' t'"
proof
  assume "funds_out_struct keccak p n t = lz_funds_out_struct keccak p' n' t'"
  then have "keccak (as_str_bytes TEE_FUNDS_OUT_TYPE_HASH_STR) = keccak (as_str_bytes TEE_LZ_FUNDS_OUT_TYPE_HASH_STR)"
    by (simp add: funds_out_struct_def lz_funds_out_struct_def keccak_widthD [OF assms(1)])
  moreover have "as_str_bytes TEE_FUNDS_OUT_TYPE_HASH_STR \<in> S" "as_str_bytes TEE_LZ_FUNDS_OUT_TYPE_HASH_STR \<in> S"
    using assms(3,4) by (simp_all add: direct_hashed_def lz_hashed_def)
  ultimately show False
    using inj_onD [OF assms(2)] type_strings_differ by blast
qed

lemma decode_funds_out_params_Inr [result_simps]:
  "decode_funds_out_params abi data = Inr p \<longleftrightarrow>
    abi_decode_funds_out abi data = Some p \<and> abi_encode_funds_out abi p = data"
  by (auto simp: decode_funds_out_params_def result_simps split: if_splits)

lemma decode_lz_funds_out_params_Inr [result_simps]:
  "decode_lz_funds_out_params abi data = Inr p \<longleftrightarrow>
    abi_decode_lz_funds_out abi data = Some p \<and> abi_encode_lz_funds_out abi p = data"
  by (auto simp: decode_lz_funds_out_params_def result_simps split: if_splits)

lemma build_evm_domain_Inr [result_simps]:
  "build_evm_domain req = Inr d \<longleftrightarrow>
    ed_chain_id req \<noteq> 0 \<and> length (proxy_contract req) = ADDRESS_LEN \<and>
    d = \<lparr>dom_name = ''MultisigProxy'', dom_version = ''1'', dom_chain_id = ed_chain_id req,
         verifying_contract = proxy_contract req\<rparr>"
  by (auto simp: build_evm_domain_def)

text \<open>The route of a destination that passed validation.\<close>

lemma decode_release_Inr:
  assumes "decode_release abi lz data = Inr (pr, params, chain, rel)"
  shows "(\<not> lz \<and> (\<exists>p. params = Some p \<and> decode_funds_out_params abi data = Inr p \<and>
             chain = fo_destination_chain_id p \<and> rel = from_funds_out p)) \<or>
         (lz \<and> params = None \<and> (\<exists>c. decode_lz_funds_out_params abi data = Inr c \<and>
             validate_extra_options (lz_extra_options c) = Inr () \<and> 0 < lz_min_amount_ld c \<and>
             lz_min_amount_ld c \<le> lz_amount c \<and> chain = lz_destination_chain_id c \<and> rel = from_lz_funds_out c))"
  using assms unfolding decode_release_def
  by (cases lz) (auto simp: and_then_Inr validate_min_amount_ld_def word_gt_0 split: if_splits)

lemma decode_release_amount:
  assumes "decode_release abi lz data = Inr (pr, params, chain, rel)"
  shows "unat (ri_amount rel) = unat (rp_amount pr)"
  using assms unfolding decode_release_def route_proof_from_params_def lz_route_proof_from_params_def u64_try_from_def
  by (cases lz) (auto simp: and_then_Inr from_funds_out_def from_lz_funds_out_def unsigned_ucast_eq take_bit_nat_eq_self split: if_splits)

lemma validated_release:
  "evm_validate_destination keccak abi b cfg clock req = Inr (pr, params, rel) \<longleftrightarrow>
    4 \<le> length (call_data req) \<and> length (call_data req) \<le> MAX_FUNDS_OUT_CALL_DATA_LEN \<and>
    take 4 (call_data req) \<in> set (ALLOWED_SELECTORS keccak) \<and>
    (take 4 (call_data req) = LZ_FUNDS_OUT_SELECTOR keccak \<longleftrightarrow> lz_release req \<noteq> None) \<and>
    (\<exists>chain. decode_release abi (lz_release req \<noteq> None) (call_data req) = Inr (pr, params, chain, rel) \<and>
       check_destination_chain (lz_release req \<noteq> None) chain cfg = Inr ()) \<and>
    rp_amount pr = calldata_amount req \<and> ed_chain_id req \<noteq> 0 \<and>
    length (proxy_contract req) = ADDRESS_LEN \<and> check_domain_pins b cfg = Inr () \<and>
    (chain_id cfg \<noteq> 0 \<longrightarrow> ed_chain_id req = chain_id cfg) \<and>
    (bridge_contract cfg \<noteq> replicate ADDRESS_LEN 0 \<longrightarrow> proxy_contract req = bridge_contract cfg) \<and>
    check_deadline (ed_deadline req) clock = Inr ()"
  (is "_ \<longleftrightarrow> ?R")
proof (cases "take 4 (call_data req) = LZ_FUNDS_OUT_SELECTOR keccak \<longleftrightarrow> lz_release req \<noteq> None")
  case False
  then have "evm_validate_destination keccak abi b cfg clock req \<noteq> Inr (pr, params, rel)"
    unfolding evm_validate_destination_def Let_def by (auto simp only: and_then_Inr require_Inr)
  then show ?thesis using False by blast
next
  case True
  show ?thesis
    unfolding evm_validate_destination_def Let_def True
    by (cases "lz_release req") (simp_all add: and_then_Inr, (intro iffI conjI; elim conjE exE; blast)+)
qed

definition release_hashed ::
  "(bytes \<Rightarrow> bytes) \<Rightarrow> alloy_lib \<Rightarrow> evm_destination \<Rightarrow> funds_out_params option \<Rightarrow> bytes set" where
  "release_hashed keccak abi req params =
    (case (build_evm_domain req, params, abi_decode_lz_funds_out abi (call_data req)) of
       (Inr d, Some p, _) \<Rightarrow> direct_hashed keccak d p (ed_nonce req) (ed_deadline req)
     | (Inr d, None, Some c) \<Rightarrow> lz_hashed keccak d c (ed_nonce req) (ed_deadline req)
     | _ \<Rightarrow> {})"

lemma hashed_parts:
  "direct_hashed keccak d p n t \<subseteq> S \<Longrightarrow> domain_hashed keccak d (funds_out_struct keccak p n t) \<subseteq> S"
  "lz_hashed keccak d c n t \<subseteq> S \<Longrightarrow> domain_hashed keccak d (lz_funds_out_struct keccak c n t) \<subseteq> S"
  by (simp_all add: direct_hashed_def lz_hashed_def)

text \<open>A signed release as a value: what is released, for which domain, nonce and deadline.\<close>

datatype release_call = Direct funds_out_params | Layer_Zero lz_funds_out_call

fun call_struct :: "(bytes \<Rightarrow> bytes) \<Rightarrow> release_call \<Rightarrow> u64 \<Rightarrow> u64 \<Rightarrow> bytes" where
  "call_struct keccak (Direct p) n t = funds_out_struct keccak p n t"
| "call_struct keccak (Layer_Zero c) n t = lz_funds_out_struct keccak c n t"

fun call_hashed :: "(bytes \<Rightarrow> bytes) \<Rightarrow> eip712_domain \<Rightarrow> release_call \<Rightarrow> u64 \<Rightarrow> u64 \<Rightarrow> bytes set" where
  "call_hashed keccak d (Direct p) n t = direct_hashed keccak d p n t"
| "call_hashed keccak d (Layer_Zero c) n t = lz_hashed keccak d c n t"

fun call_widths :: "release_call \<Rightarrow> bool" where
  "call_widths (Direct p) \<longleftrightarrow> length (fo_recipient p) = ADDRESS_LEN \<and> length (fo_source_burn_tx_id p) = HASH_LEN"
| "call_widths (Layer_Zero c) \<longleftrightarrow> length (lz_recipient c) = HASH_LEN \<and> length (lz_source_burn_tx_id c) = HASH_LEN"

fun call_bytes :: "alloy_lib \<Rightarrow> release_call \<Rightarrow> bytes" where
  "call_bytes abi (Direct p) = abi_encode_funds_out abi p"
| "call_bytes abi (Layer_Zero c) = abi_encode_lz_funds_out abi c"

fun call_identity :: "release_call \<Rightarrow> release_identity" where
  "call_identity (Direct p) = from_funds_out p"
| "call_identity (Layer_Zero c) = from_lz_funds_out c"

lemma call_struct_inject:
  assumes "keccak_width keccak" "inj_on keccak S" "call_hashed keccak d c n t \<subseteq> S"
    "call_hashed keccak d' c' n' t' \<subseteq> S" "call_widths c" "call_widths c'"
    "call_struct keccak c n t = call_struct keccak c' n' t'"
  shows "c = c' \<and> n = n' \<and> t = t'"
proof (cases c; cases c')
  fix p p' assume "c = Direct p" "c' = Direct p'"
  then show ?thesis using assms funds_out_struct_inject [of keccak S d p n t d' p' n' t'] by simp
next
  fix p p' assume "c = Layer_Zero p" "c' = Layer_Zero p'"
  then show ?thesis using assms lz_funds_out_struct_inject [of keccak S d p n t d' p' n' t'] by simp
next
  fix p p' assume "c = Direct p" "c' = Layer_Zero p'"
  then show ?thesis using assms structs_differ [of keccak S d p n t d' p' n' t'] by simp
next
  fix p p' assume "c = Layer_Zero p" "c' = Direct p'"
  then show ?thesis using assms structs_differ [of keccak S d' p' n' t' d p n t] by simp
qed

lemma call_digest_inject:
  assumes "keccak_width keccak" "inj_on keccak S" "call_hashed keccak d c n t \<subseteq> S"
    "call_hashed keccak d' c' n' t' \<subseteq> S" "call_widths c" "call_widths c'"
    "length (verifying_contract d) = length (verifying_contract d')"
    "eip712_digest keccak d (keccak (call_struct keccak c n t)) =
     eip712_digest keccak d' (keccak (call_struct keccak c' n' t'))"
  shows "d = d' \<and> c = c' \<and> n = n' \<and> t = t'"
proof -
  have "domain_hashed keccak d (call_struct keccak c n t) \<subseteq> S"
    "domain_hashed keccak d' (call_struct keccak c' n' t') \<subseteq> S"
    using assms(3,4) by (cases c; cases c'; simp add: hashed_parts)+
  from eip712_digest_inject [OF assms(1,2) this assms(7,8)] call_struct_inject [OF assms(1-6)]
  show ?thesis by blast
qed

lemma signed_release:
  assumes "evm_validate_destination keccak abi b cfg clock req = Inr (pr, params, rel)"
    and "release_digest keccak abi req params = Inr dg" "alloy_widths abi"
  obtains d c where "build_evm_domain req = Inr d" "call_bytes abi c = call_data req"
    "rel = call_identity c" "call_widths c"
    "dg = eip712_digest keccak d (keccak (call_struct keccak c (ed_nonce req) (ed_deadline req)))"
    "release_hashed keccak abi req params = call_hashed keccak d c (ed_nonce req) (ed_deadline req)"
proof -
  define lz where "lz \<longleftrightarrow> lz_release req \<noteq> None"
  then obtain chain where v: "decode_release abi lz (call_data req) = Inr (pr, params, chain, rel)"
    using assms(1) unfolding validated_release by blast
  obtain d where d: "build_evm_domain req = Inr d"
    using assms(2) by (auto simp: release_digest_def and_then_Inr)
  from decode_release_Inr [OF v] show thesis
  proof (elim disjE conjE exE)
    fix p assume p: "params = Some p" "decode_funds_out_params abi (call_data req) = Inr p"
      "rel = from_funds_out p" and "\<not> lz"
    then have "lz_release req = None" using lz_def by simp
    then show thesis
      using that [OF d, of "Direct p"] p assms(2,3) d
      by (auto simp: release_digest_def release_hashed_def funds_out_digest_def alloy_widths_def
          decode_funds_out_params_Inr)
  next
    fix c assume c: "params = None" "decode_lz_funds_out_params abi (call_data req) = Inr c"
      "rel = from_lz_funds_out c" and "lz"
    then obtain lzr where lzr: "lz_release req = Some lzr" using lz_def by auto
    have "dg = eip712_digest keccak d (keccak (lz_funds_out_struct keccak c (ed_nonce req) (ed_deadline req)))"
      using assms(2) by (auto simp: release_digest_def d c(1,2) lzr lz_funds_out_digest_def and_then_Inr)
    then show thesis
      using that [OF d, of "Layer_Zero c"] c assms(3) d
      by (auto simp: release_hashed_def alloy_widths_def decode_lz_funds_out_params_Inr)
  qed
qed

text \<open>C4: The digest that the enclave signs for a release determines the release. Two destinations
  that passed validation and give the same digest have the same calldata, nonce, deadline, chain id
  and verifying contract, and so the same burn identity; a direct release never shares a digest with
  a LayerZero release. The hypotheses: \<open>keccak\<close> has 32-byte values and no collision among the byte
  strings hashed for the two digests, and the ABI codec returns fields of their Solidity widths.\<close>

theorem digest_binds_release:
  assumes "keccak_width keccak" "alloy_widths abi"
    and "evm_validate_destination keccak abi b cfg clock req = Inr (pr, params, rel)"
    and "evm_validate_destination keccak abi b' cfg' clock' req' = Inr (pr', params', rel')"
    and "release_digest keccak abi req params = Inr dg" "release_digest keccak abi req' params' = Inr dg"
    and "inj_on keccak (release_hashed keccak abi req params \<union> release_hashed keccak abi req' params')"
  shows "call_data req = call_data req' \<and> ed_nonce req = ed_nonce req' \<and>
    ed_deadline req = ed_deadline req' \<and> ed_chain_id req = ed_chain_id req' \<and>
    proxy_contract req = proxy_contract req' \<and> rel = rel'"
proof -
  obtain d c where a: "build_evm_domain req = Inr d" "call_bytes abi c = call_data req"
      "rel = call_identity c" "call_widths c"
      "dg = eip712_digest keccak d (keccak (call_struct keccak c (ed_nonce req) (ed_deadline req)))"
      "release_hashed keccak abi req params = call_hashed keccak d c (ed_nonce req) (ed_deadline req)"
    using assms(3,5,2) by (rule signed_release)
  obtain d' c' where a': "build_evm_domain req' = Inr d'" "call_bytes abi c' = call_data req'"
      "rel' = call_identity c'" "call_widths c'"
      "dg = eip712_digest keccak d' (keccak (call_struct keccak c' (ed_nonce req') (ed_deadline req')))"
      "release_hashed keccak abi req' params' = call_hashed keccak d' c' (ed_nonce req') (ed_deadline req')"
    using assms(4,6,2) by (rule signed_release)
  have "length (verifying_contract d) = length (verifying_contract d')"
    using a(1) a'(1) by (simp add: build_evm_domain_Inr)
  then have "d = d' \<and> c = c' \<and> ed_nonce req = ed_nonce req' \<and> ed_deadline req = ed_deadline req'"
    using a(4,5) a'(4,5) by (intro call_digest_inject [OF assms(1,7)]) (simp_all add: a(6) a'(6))
  then show ?thesis using a(1-3) a'(1-3) by (simp add: build_evm_domain_Inr)
qed

text \<open>An instance: a hash that is the length of its input, and a codec of one call.\<close>

definition length_hash :: "bytes \<Rightarrow> bytes" where
  "length_hash bs = replicate 30 0 @ [of_nat (length bs div 256), of_nat (length bs)]"

definition demo_params :: funds_out_params where
  "demo_params = \<lparr>fo_recipient = replicate 20 9, fo_amount = 1000, fo_burn_id = 256, fo_source_chain_id = 827166,
    fo_destination_chain_id = 1, fo_source_address = [], fo_proof = [],
    fo_settlement_data = replicate 32 6,
    fo_source_burn_tx_id = replicate 32 8\<rparr>"

definition demo_abi :: alloy_lib where
  "demo_abi = \<lparr>abi_decode_funds_out = (\<lambda>data. if data = FUNDS_OUT_SELECTOR_POOLS then Some demo_params else None),
    abi_encode_funds_out = (\<lambda>_. FUNDS_OUT_SELECTOR_POOLS),
    abi_decode_lz_funds_out = (\<lambda>_. None), abi_encode_lz_funds_out = (\<lambda>_. []),
    abi_decode_settlement = (\<lambda>data. Some [data]), abi_encode_settlement = concat,
    eip712_hash_struct = (\<lambda>_ _ _. [])\<rparr>"

definition demo_release :: "u64 \<Rightarrow> evm_destination" where
  "demo_release commission = \<lparr>call_data = FUNDS_OUT_SELECTOR_POOLS, ed_nonce = 3, ed_deadline = 100,
    ed_chain_id = 1, proxy_contract = replicate 20 2, calldata_amount = 1000,
    calldata_commission = commission, lz_release = None, ed_burn_destination = None\<rparr>"

definition demo_release_config :: bridge_config where
  "demo_release_config = bridge_config_default\<lparr>chain_id := 1, bridge_contract := replicate 20 2,
    token_contract := replicate 20 7, rgb_asset_id := ''asset''\<rparr>"

definition demo_build :: signer_build where
  "demo_build = \<lparr>b_evm_to_rgb = False, b_rgb_to_evm = True, b_rgb_validation = True, b_spv = False,
    b_bfa_mint = True, b_evm_rpc = True, b_ccd = False, b_debug_assertions = False\<rparr>"

lemma length_hash_width: "keccak_width length_hash"
  by (simp add: keccak_width_def length_hash_def HASH_LEN_def)

lemma length_hash_eq:
  assumes "length xs < 65536" "length ys < 65536"
  shows "length_hash xs = length_hash ys \<longleftrightarrow> length xs = length ys"
proof
  assume "length_hash xs = length_hash ys"
  then have *: "of_nat (length xs div 256) = (of_nat (length ys div 256) :: u8)"
    "of_nat (length xs) = (of_nat (length ys) :: u8)"
    by (simp_all add: length_hash_def)
  have "length xs div 256 = length ys div 256" "length xs mod 256 = length ys mod 256"
    using arg_cong [OF *(1), of unat] arg_cong [OF *(2), of unat] assms by (simp_all add: unat_of_nat)
  then show "length xs = length ys" by (metis div_mult_mod_eq)
qed (simp add: length_hash_def)

lemma demo_widths: "alloy_widths demo_abi"
  by (simp add: alloy_widths_def demo_abi_def demo_params_def ADDRESS_LEN_def HASH_LEN_def)

lemma demo_validates:
  "evm_validate_destination length_hash demo_abi demo_build demo_release_config 0 (demo_release k) =
    Inr (\<lparr>rp_amount = 1000, rp_operation_id = None\<rparr>, Some demo_params, from_funds_out demo_params)"
proof -
  have "replicate 4 (0 :: u8) = [0, 0, 0, 0]" by (simp add: eval_nat_numeral)
  then have "take 4 (length_hash bs) = [0, 0, 0, 0]" for bs by (simp add: length_hash_def)
  then have "LZ_FUNDS_OUT_SELECTOR length_hash = [0, 0, 0, 0]" by (simp only: LZ_FUNDS_OUT_SELECTOR_def)
  then have sel: "FUNDS_OUT_SELECTOR_POOLS \<noteq> LZ_FUNDS_OUT_SELECTOR length_hash"
    by (simp add: FUNDS_OUT_SELECTOR_POOLS_def)
  have len: "length FUNDS_OUT_SELECTOR_POOLS = 4" by (simp add: FUNDS_OUT_SELECTOR_POOLS_def)
  have dec: "decode_release demo_abi False FUNDS_OUT_SELECTOR_POOLS =
      Inr (\<lparr>rp_amount = 1000, rp_operation_id = None\<rparr>, Some demo_params, 1, from_funds_out demo_params)"
    by (simp add: decode_release_def decode_funds_out_params_def demo_abi_def route_proof_from_params_def
        u64_try_from_def demo_params_def)
  have pins: "check_domain_pins demo_build demo_release_config = Inr ()"
    by (simp add: check_domain_pins_def demo_build_def demo_release_config_def ADDRESS_LEN_def is_configured_def)
  have dl: "check_deadline 100 0 = Inr ()"
    by (simp add: check_deadline_def unix_secs_def MAX_TEE_DEADLINE_SECS_def saturating_add_def)
  have cfg: "chain_id demo_release_config = 1" "bridge_contract demo_release_config = replicate 20 2"
    by (simp_all add: demo_release_config_def)
  have dst: "check_destination_chain False 1 demo_release_config = Inr ()"
    by (simp add: check_destination_chain_def demo_release_config_def)
  show ?thesis
    unfolding validated_release
    using sel [symmetric] by (simp add: demo_release_def len dec pins dl dst cfg sel MAX_FUNDS_OUT_CALL_DATA_LEN_def
        ALLOWED_SELECTORS_def ADDRESS_LEN_def)
qed

lemma demo_hashed_lengths:
  "length ` release_hashed length_hash demo_abi (demo_release k) (Some demo_params) \<subseteq> {..<65536}"
  "inj_on length (release_hashed length_hash demo_abi (demo_release k) (Some demo_params))"
proof -
  let ?d = "\<lparr>dom_name = ''MultisigProxy'', dom_version = ''1'', dom_chain_id = 1, verifying_contract = replicate 20 2\<rparr>"
  have "build_evm_domain (demo_release k) = Inr ?d"
    by (simp add: build_evm_domain_def demo_release_def ADDRESS_LEN_def)
  then have *: "release_hashed length_hash demo_abi (demo_release k) (Some demo_params) =
      set [as_str_bytes ''MultisigProxy'', as_str_bytes ''1'', separator_preimage length_hash ?d,
       funds_out_struct length_hash demo_params 3 100,
       digest_preimage length_hash ?d (length_hash (funds_out_struct length_hash demo_params 3 100)),
       as_str_bytes TEE_FUNDS_OUT_TYPE_HASH_STR, [], replicate 32 6]"
    (is "_ = set ?L")
    by (auto simp: release_hashed_def direct_hashed_def domain_hashed_def demo_release_def demo_params_def
        as_str_bytes_def)
  note w = keccak_widthD [OF length_hash_width]
  have len: "length (separator_preimage length_hash ?d) = 160"
    "length (funds_out_struct length_hash demo_params 3 100) = 384"
    "length (digest_preimage length_hash ?d (length_hash s)) = 66" for s
    by (simp_all add: separator_preimage_def funds_out_struct_def digest_preimage_def separator_hash_def w demo_params_def)
  have str: "length TEE_FUNDS_OUT_TYPE_HASH_STR = 217"
    by (simp add: TEE_FUNDS_OUT_TYPE_HASH_STR_def)
  show "length ` release_hashed length_hash demo_abi (demo_release k) (Some demo_params) \<subseteq> {..<65536}"
    unfolding * by (simp add: len str)
  have "distinct (map length ?L)" by (simp add: len str)
  then show "inj_on length (release_hashed length_hash demo_abi (demo_release k) (Some demo_params))"
    unfolding * distinct_map by (rule conjunct2)
qed

theorem digest_binds_release_witness:
  "call_data (demo_release 1) = call_data (demo_release 2) \<and> ed_nonce (demo_release 1) = ed_nonce (demo_release 2) \<and>
   ed_deadline (demo_release 1) = ed_deadline (demo_release 2) \<and>
   ed_chain_id (demo_release 1) = ed_chain_id (demo_release 2) \<and>
   proxy_contract (demo_release 1) = proxy_contract (demo_release 2) \<and>
   from_funds_out demo_params = from_funds_out demo_params"
proof -
  let ?H = "\<lambda>k. release_hashed length_hash demo_abi (demo_release k) (Some demo_params)"
  have same: "?H 2 = ?H 1" by (simp add: release_hashed_def demo_release_def build_evm_domain_def)
  have inj: "inj_on length_hash (?H 1 \<union> ?H 2)"
    using demo_hashed_lengths [of 1] unfolding same
    by (auto simp: inj_on_def image_subset_iff length_hash_eq)
  obtain dg where "release_digest length_hash demo_abi (demo_release 1) (Some demo_params) = Inr dg"
      "release_digest length_hash demo_abi (demo_release 2) (Some demo_params) = Inr dg"
    by (simp add: release_digest_def demo_release_def build_evm_domain_def ADDRESS_LEN_def funds_out_digest_def)
  from digest_binds_release [OF length_hash_width demo_widths demo_validates demo_validates this inj]
  show ?thesis .
qed

end
