(* ===== verification/Release_Settlement.thy ===== *)
theory Release_Settlement
  imports Funds_Out_Crosscheck Release_Digest
begin

text \<open>
  What a release that passed \<open>apply_funds_out_binding\<close> settles: the burn it pays, the payee the burn
  names, the deposits it cites and the block that holds the burn.
\<close>

subsection \<open>The single checks\<close>

lemma u64_try_from_Inr [result_simps]: "u64_try_from x e = Inr n \<longleftrightarrow> x = ucast n"
proof -
  have "unat n < 2 ^ LENGTH(64)" by (rule unsigned_less)
  then have lt: "unat n < 2 ^ 64" by simp
  then have up: "unat (ucast n :: u256) = unat n"
    by (simp add: unsigned_ucast_eq take_bit_nat_eq_self)
  have down: "unat (ucast x :: u64) = unat x" if "unat x < 2 ^ 64"
    using that by (simp add: unsigned_ucast_eq take_bit_nat_eq_self)
  show ?thesis using lt up down by (auto simp: u64_try_from_def word_unat_eq_iff)
qed

lemma funds_out_amount_Inr:
  "validate_funds_out_amount TS_BURN release v = Inr u \<longleftrightarrow>
    (\<exists>t n. last_transition v = Some t \<and> transition_type t = TS_BURN \<and> burned_asset_amount t = Some n \<and>
       ri_amount release = ucast n)"
  unfolding validate_funds_out_amount_def funds_out_source_amount_def assert_funds_out_amount_def
    and_then_Inr ok_or_Inr u64_try_from_Inr by (auto split: if_splits)

lemma source_burn_tx_id_Inr:
  "validate_funds_out_source_burn_tx_id release v = Inr u \<longleftrightarrow>
    last_transition v \<noteq> None \<and> last_transfer_op_id v = Some (ri_source_burn_tx_id release) \<and>
    ri_source_burn_tx_id release \<noteq> replicate 32 0"
  by (auto simp: validate_funds_out_source_burn_tx_id_def and_then_Inr Let_def split: if_splits)

text \<open>The payee that a burn names: an address (legacy), or the record with the burn's hash.\<close>

definition legacy_reason :: "bytes \<Rightarrow> bool" where
  "legacy_reason reason \<longleftrightarrow> take 12 reason = replicate 12 0"

definition payee_named ::
  "alloy_lib \<Rightarrow> bytes \<Rightarrow> burn_destination_record option \<Rightarrow> release_identity \<Rightarrow> bool" where
  "payee_named abi reason r release \<longleftrightarrow>
    (if legacy_reason reason then r = None \<and> ri_dst_eid release = None \<and> ri_recipient release = reason
     else (\<exists>d. r = Some d \<and> bdr_version d = 1 \<and> hash_v1 abi d = reason \<and>
       bdr_destination_chain_id d \<noteq> 0 \<and> ri_destination_chain_id release = ucast (bdr_destination_chain_id d) \<and>
       ri_dst_eid release = (if bdr_dst_eid d = 0 then None else Some (bdr_dst_eid d)) \<and>
       (if bdr_dst_eid d = 0 then length (bdr_recipient d) = 20
        else 1 \<le> length (bdr_recipient d) \<and> length (bdr_recipient d) \<le> 32) \<and>
       ri_recipient release = replicate (32 - length (bdr_recipient d)) 0 @ bdr_recipient d))"

lemma burn_recipient_Inr:
  "validate_funds_out_burn_recipient abi release v r = Inr u \<longleftrightarrow>
    (\<exists>t reason. last_transition v = Some t \<and> burn_reason t = Some reason \<and> payee_named abi reason r release)"
proof -
  have "and_then (resolve abi reason r) (\<lambda>target.
      and_then (require (bt_dst_eid target = ri_dst_eid release) e1) (\<lambda>_.
      and_then (case bt_destination_chain_id target of
          None \<Rightarrow> Inr () | Some chain \<Rightarrow> require (ri_destination_chain_id release = ucast chain) e2) (\<lambda>_.
      require (bt_recipient target = ri_recipient release) e3))) = Inr u \<longleftrightarrow> payee_named abi reason r release"
    for reason e1 e2 e3
    by (cases "legacy_reason reason"; cases r)
      (auto simp: payee_named_def legacy_reason_def resolve_def resolve_v1_def Let_def HASH_LEN_def ADDRESS_LEN_def
        VERSION_V1_def and_then_Inr)
  then show ?thesis
    unfolding validate_funds_out_burn_recipient_def and_then_Inr [of "ok_or _ _"] ok_or_Inr by blast
qed

lemma remdups_adj_strict: "sorted xs \<Longrightarrow> sorted_wrt (<) (remdups_adj xs)" for xs :: "'a::linorder list"
proof (induction xs rule: remdups_adj.induct)
  case (3 x y xs)
  then show ?case by (cases "x = y") (auto simp: order.strict_iff_order dest: order.antisym)
qed auto

lemma remdups_adj_sort: "remdups_adj (sort xs) = sorted_list_of_set (set xs)" for xs :: "'a::linorder list"
proof -
  have "sorted_wrt (<) (remdups_adj (sort xs))" by (rule remdups_adj_strict) simp
  moreover from this have "distinct (remdups_adj (sort xs))" using strict_sorted_iff by blast
  ultimately have "sorted_list_of_set (set xs) = remdups_adj (sort xs)"
    using sorted_list_of_set_unique [of "set xs" "remdups_adj (sort xs)"] distinct_card [of "remdups_adj (sort xs)"]
    by simp
  then show ?thesis ..
qed

lemma settlement_Inr:
  "validate_funds_out_settlement abi release locks = Inr u \<longleftrightarrow>
    locks \<noteq> [] \<and>
    abi_decode_settlement abi (ri_settlement_data release) = Some (sorted_list_of_set (vl_operation_id ` set locks)) \<and>
    ri_settlement_data release = abi_encode_settlement abi (sorted_list_of_set (vl_operation_id ` set locks))"
proof -
  have "sorted_wrt (<) (sorted_list_of_set (vl_operation_id ` set locks))" by simp
  then have "successively (<) (sorted_list_of_set (vl_operation_id ` set locks))"
    by (rule successively_if_sorted_wrt)
  then show ?thesis
    unfolding validate_funds_out_settlement_def and_then_Inr ok_or_Inr require_Inr Let_def remdups_adj_sort
    by (auto simp: set_map)
qed

subsection \<open>Agreement with the relay\<close>

lemma proof_height_Inr:
  assumes "length w = 32"
  shows "proof_height w f = Inr h \<longleftrightarrow> w = abi_encode_u32 h"
proof -
  have w: "w = take 28 w @ sub_slice w 28 32" "length (sub_slice w 28 32) = 4" "length (take 28 w) = 28"
    using assms by (simp_all add: sub_slice_def)
  have zero: "\<not> (\<exists>b\<in>set (take 28 w). b \<noteq> 0) \<longleftrightarrow> take 28 w = replicate 28 0"
    using w(3) replicate_eqI [of "take 28 w" 28 0] by (metis in_set_replicate)
  have "of_nat (be_nat (sub_slice w 28 32)) = h \<longleftrightarrow> sub_slice w 28 32 = word_be h"
    using w(2) by (intro word_be_be_nat) simp_all
  moreover have "w = abi_encode_u32 h \<longleftrightarrow> take 28 w @ sub_slice w 28 32 = replicate 28 0 @ word_be h"
    using w(1) by (simp only: abi_encode_u32_def)
  then have "w = abi_encode_u32 h \<longleftrightarrow> take 28 w = replicate 28 0 \<and> sub_slice w 28 32 = word_be h"
    using append_eq_append_conv [of "take 28 w" "replicate 28 0"] w(3) by simp
  ultimately show ?thesis
    unfolding proof_height_def using zero by auto
qed

lemma decode_funds_out_proof_Inr:
  "decode_funds_out_proof release = Inr (source, latest) \<longleftrightarrow>
    ri_proof release = abi_encode_u32 (pb_height source) @ pb_commitment source @
      abi_encode_u32 (pb_height latest) @ pb_commitment latest \<and>
    length (pb_commitment source) = 32 \<and> length (pb_commitment latest) = 32"
  (is "?L \<longleftrightarrow> ?R")
proof
  assume ?L
  then obtain a b where p: "length (ri_proof release) = 128"
      "proof_height (sub_slice (ri_proof release) 0 32) ''sourceHeight'' = Inr a"
      "proof_height (sub_slice (ri_proof release) 64 96) ''latestHeight'' = Inr b"
      "source = \<lparr>pb_height = a, pb_commitment = sub_slice (ri_proof release) 32 64\<rparr>"
      "latest = \<lparr>pb_height = b, pb_commitment = sub_slice (ri_proof release) 96 128\<rparr>"
    by (auto simp: decode_funds_out_proof_def Let_def FUNDS_OUT_PROOF_LEN_def and_then_Inr split: if_splits)
  have "ri_proof release = sub_slice (ri_proof release) 0 32 @ sub_slice (ri_proof release) 32 64 @
      sub_slice (ri_proof release) 64 96 @ sub_slice (ri_proof release) 96 128"
    using p(1) by (simp add: sub_slice_def flip: take_add append_assoc)
  moreover have "sub_slice (ri_proof release) 0 32 = abi_encode_u32 a" "sub_slice (ri_proof release) 64 96 = abi_encode_u32 b"
    using p(1-3) by (simp_all add: proof_height_Inr)
  ultimately show ?R using p(1,4,5) by simp
next
  assume r: ?R
  let ?p = "ri_proof release"
  have "sub_slice ?p 0 32 = abi_encode_u32 (pb_height source)" "sub_slice ?p 32 64 = pb_commitment source"
    "sub_slice ?p 64 96 = abi_encode_u32 (pb_height latest)" "sub_slice ?p 96 128 = pb_commitment latest"
    "length ?p = 128"
    using r by (simp_all add: sub_slice_def)
  moreover have "proof_height (abi_encode_u32 h) f = Inr h" for h f by (simp add: proof_height_Inr)
  ultimately show ?L
    by (auto simp: decode_funds_out_proof_def Let_def FUNDS_OUT_PROOF_LEN_def)
qed

text \<open>The block at height \<open>h\<close> of the chain holds the last witness transaction of the consignment,
  with the required depth.\<close>

definition anchored ::
  "(bytes \<Rightarrow> bytes) \<Rightarrow> header_chain \<Rightarrow> u32 \<Rightarrow> validated_consignment \<Rightarrow> merkle_proof_entry list \<Rightarrow> u32 \<Rightarrow> bool" where
  "anchored H c mc v proofs h \<longleftrightarrow>
    (\<exists>txid p. last_witness_txid v = Some txid \<and> p \<in> set proofs \<and> mp_txid p = rev txid \<and> mp_block_height p = h \<and>
       verify_one_proof H c mc 0 p = Inr ())"

lemma resolve_anchor:
  assumes "resolve_consignment_anchor H lib v proofs c mc = Inr a"
  shows "anchored H c mc v proofs (ca_height a)"
proof -
  obtain txid p where "last_witness_txid v = Some txid" "find (\<lambda>p. mp_txid p = rev txid) proofs = Some p"
      "validate_spv_proofs H c [rev txid] [p] mc = Inr ()" "ca_height a = mp_block_height p"
    using assms by (auto simp: resolve_consignment_anchor_def and_then_Inr Let_def)
  then show ?thesis
    by (auto simp: anchored_def find_Some_iff validate_spv_proofs_Inr) (metis nth_mem)
qed

text \<open>The two blocks that the release proof names, and what the relay mode requires of them.\<close>

definition relay_agrees ::
  "(bytes \<Rightarrow> bytes) \<Rightarrow> btc_lib \<Rightarrow> (btc_header \<Rightarrow> bytes) \<Rightarrow> header_chain \<Rightarrow> btc_relay_mode \<Rightarrow> proof_block \<Rightarrow> bool" where
  "relay_agrees keccak lib ser c mode blk \<longleftrightarrow>
    (case mode of
       Required \<Rightarrow> (\<exists>rec. relay_record lib ser c (pb_height blk) = Inr rec \<and> pb_commitment blk = keccak rec)
     | RelayNone \<Rightarrow> pb_commitment blk = replicate 32 0)"

lemma check_relay_mode_agrees:
  "check_relay_mode keccak lib ser c mode source latest = Inr () \<Longrightarrow>
    relay_agrees keccak lib ser c mode source \<and> relay_agrees keccak lib ser c mode latest"
  by (cases mode) (auto simp: check_relay_mode_def relay_agrees_def assert_relay_commitment_def and_then_Inr)

lemma relay_agreement:
  assumes "verify_btc_relay_agreement H keccak lib ser release v proofs c pins mode mc = Inr pins'" "pins_ok pins"
  obtains source latest x y where "decode_funds_out_proof release = Inr (source, latest)"
    "pb_height source \<le> pb_height latest" "anchored H c mc v proofs (pb_height source)"
    "saturating_sub (tip_height c) (pb_height latest) \<le> MAX_RELAY_TIP_LAG_BLOCKS"
    "relay_agrees keccak lib ser c mode source" "relay_agrees keccak lib ser c mode latest"
    "pins_ok pins'" "hash_at c (pb_height source) = Some x" "pinned pins' (pb_height source) x mc"
    "hash_at c (pb_height latest) = Some y" "pinned pins' (pb_height latest) y 1"
    "\<And>h z d. pinned pins h z d \<Longrightarrow> pinned pins' h z d"
proof -
  obtain source latest pins1 a where r: "decode_funds_out_proof release = Inr (source, latest)"
      "\<not> pb_height latest < pb_height source" "pin_block pins c (pb_height latest) 1 = Inr pins1"
      "\<not> MAX_RELAY_TIP_LAG_BLOCKS < saturating_sub (tip_height c) (pb_height latest)"
      "resolve_consignment_anchor H lib v proofs c mc = Inr a" "pin_block pins1 c (ca_height a) mc = Inr pins'"
      "pb_height source = ca_height a" "check_relay_mode keccak lib ser c mode source latest = Inr ()"
    using assms(1) by (auto simp: verify_btc_relay_agreement_def and_then_Inr Let_def)
  note p1 = pin_block_ok [OF assms(2) r(3)]
  note p2 = pin_block_ok [OF p1(1) r(6)]
  obtain y where y: "hash_at c (pb_height latest) = Some y" "pinned pins1 (pb_height latest) y 1"
    using p1(2) by blast
  obtain x where x: "hash_at c (ca_height a) = Some x" "pinned pins' (ca_height a) x mc"
    using p2(2) by blast
  show thesis
  proof (rule that [of source latest x y])
    show "pinned pins' h z d" if "pinned pins h z d" for h z d using p2(3) [OF p1(3) [OF that]] .
    show "pinned pins' (pb_height latest) y 1" using p2(3) [OF y(2)] .
  qed (use r x y p2(1) resolve_anchor [OF r(5)] check_relay_mode_agrees [OF r(8)] in auto)
qed

subsection \<open>What a bound release settles\<close>

definition settles ::
  "alloy_lib \<Rightarrow> u16 \<Rightarrow> release_identity \<Rightarrow> validated_consignment \<Rightarrow> burn_destination_record option \<Rightarrow> bool" where
  "settles abi ts release v r \<longleftrightarrow>
    (\<exists>t n reason. last_transition v = Some t \<and> transition_type t = ts \<and> burned_asset_amount t = Some n \<and>
       ri_amount release = ucast n \<and> burn_reason t = Some reason \<and> payee_named abi reason r release) \<and>
    last_transfer_op_id v = Some (ri_source_burn_tx_id release) \<and>
    ri_source_burn_tx_id release \<noteq> replicate 32 0 \<and> non_mined_witness_txids v = [] \<and> mint_locks v \<noteq> [] \<and>
    ri_settlement_data release =
      abi_encode_settlement abi (sorted_list_of_set (vl_operation_id ` set (mint_locks v)))"

lemma binding_Inr:
  assumes "b_bfa_mint b"
    "apply_funds_out_binding H keccak lib ser abi ts b cfg c release validated proofs pins r = Inr pins'"
  obtains v where "validated = Some v" "settles abi ts release v r"
    "if b_spv b then verify_btc_relay_agreement H keccak lib ser release v proofs c pins (cfg_btc_relay_mode cfg)
       (spv_min_confirmations cfg) = Inr pins' else pins' = pins \<and> proofs = [] \<and> ri_proof release = []"
proof -
  obtain v pins1 where v: "validated = Some v" "assert_witnesses_confirmed v = Inr ()"
      "validate_funds_out_amount ts release v = Inr ()" "validate_funds_out_source_burn_tx_id release v = Inr ()"
      "validate_funds_out_burn_recipient abi release v r = Inr ()"
      "validate_funds_out_settlement abi release (mint_locks v) = Inr ()"
      "if b_spv b then verify_btc_relay_agreement H keccak lib ser release v proofs c pins (cfg_btc_relay_mode cfg)
         (spv_min_confirmations cfg) = Inr pins' else pins' = pins \<and> proofs = [] \<and> ri_proof release = []"
    using assms by (auto simp: apply_funds_out_binding_def and_then_Inr split: if_splits)
  have "non_mined_witness_txids v = []"
    using v(2) by (simp add: assert_witnesses_confirmed_def split: if_splits)
  with v(3-6) have "settles abi ts release v r"
    by (auto simp: settles_def funds_out_amount_Inr source_burn_tx_id_Inr burn_recipient_Inr settlement_Inr)
  then show thesis using that v(1,7) by blast
qed

subsection \<open>One burn, one release\<close>

lemma direct_release_chain:
  assumes "evm_validate_destination keccak abi b cfg clock req = Inr (pr, params, rel)"
    "ri_dst_eid rel = None" "chain_id cfg \<noteq> 0"
  shows "ri_destination_chain_id rel = ucast (chain_id cfg)"
proof -
  define lz where "lz \<longleftrightarrow> lz_release req \<noteq> None"
  then obtain chain where d: "decode_release abi lz (call_data req) = Inr (pr, params, chain, rel)"
      "check_destination_chain lz chain cfg = Inr ()"
    using assms(1) unfolding validated_release by blast
  from decode_release_Inr [OF d(1)] assms(2) have "\<not> lz" "ri_destination_chain_id rel = chain"
    by (auto simp: from_funds_out_def from_lz_funds_out_def)
  then show ?thesis using d(2) assms(3) by (auto simp: check_destination_chain_def split: if_splits)
qed

lemma payee_unique:
  assumes "payee_named abi reason r rel" "payee_named abi reason r' rel'"
    "inj_on (hash_v1 abi) (set_option r \<union> set_option r')"
  shows "ri_dst_eid rel' = ri_dst_eid rel \<and> ri_recipient rel' = ri_recipient rel \<and>
    (ri_dst_eid rel = None \<or> ri_destination_chain_id rel' = ri_destination_chain_id rel)"
proof (cases "legacy_reason reason")
  case True
  then show ?thesis using assms(1,2) by (simp add: payee_named_def)
next
  case False
  then obtain d d' where d: "r = Some d" "hash_v1 abi d = reason" "r' = Some d'" "hash_v1 abi d' = reason"
    using assms(1,2) by (auto simp: payee_named_def)
  then have "hash_v1 abi d = hash_v1 abi d'" by simp
  then have "d = d'" by (rule inj_onD [OF assms(3)]) (simp_all add: d(1,3))
  then show ?thesis using assms(1,2) False d(1,3) by (auto simp: payee_named_def)
qed

lemma burn_id_derived:
  assumes "validate_burn_id keccak cfg rel = Inr ()" "token_contract cfg \<noteq> replicate 20 0"
  shows "ri_burn_id rel = expected_burn_id keccak cfg rel"
  using assms by (auto simp: validate_burn_id_def ADDRESS_LEN_def split: if_splits)

lemma rgb_identity:
  "validate_rgb_source_identity rel = Inr () \<longleftrightarrow> ri_source_chain_id rel = ucast RGB_CHAIN_ID \<and> ri_source_address rel = []"
  by (auto simp: validate_rgb_source_identity_def)


definition demo_burn :: transition_summary where
  "demo_burn = \<lparr>op_id = replicate 64 (CHR ''a''), transition_type = 9, total_output_amount = 0, asset_output_amount = 0, ts_outputs = [],
    burned_asset_amount = Some 1000, burn_reason = Some (replicate 12 0 @ replicate 20 9)\<rparr>"

definition demo_consignment :: "bytes list \<Rightarrow> validated_consignment" where
  "demo_consignment witnesses = \<lparr>vc_contract_id = ''asset'', vc_chain_net = ''sb'', vc_witness_txids = witnesses,
    last_transition = Some demo_burn, last_witness_txid = None, last_transfer_witness_prevouts = [],
    last_closed_seals = [], last_bundle_fully_disclosed = True, last_mint_rights = [],
    last_transfer_op_id = Some (replicate 32 8), non_mined_witness_txids = [], transitions_by_witness = [],
    mint_locks = [\<lparr>vl_lock_id = [], vl_minted = 1000, vl_operation_id = replicate 32 6, vl_net_amount = 1000\<rparr>]\<rparr>"

lemma be_nat_zeros: "be_nat (replicate n 0 @ bs) = be_nat bs"
  by (induction n) (simp_all add: be_nat_def)

lemma demo_burn_id: "validate_burn_id length_hash demo_release_config (from_funds_out demo_params) = Inr ()"
proof -
  have h: "be_nat (length_hash bs) = 256" if "length bs = 256" for bs
    using that by (simp add: length_hash_def be_nat_zeros be_nat_Cons)
  have "expected_burn_id length_hash demo_release_config (from_funds_out demo_params) = 256"
    unfolding expected_burn_id_def
    by (subst h) (simp_all add: from_funds_out_def demo_params_def demo_release_config_def bridge_config_default_def
      keccak_widthD [OF length_hash_width])
  then show ?thesis by (simp add: validate_burn_id_def from_funds_out_def demo_params_def)
qed

lemma demo_rgb_identity: "validate_rgb_source_identity (from_funds_out demo_params) = Inr ()"
  by (simp add: rgb_identity from_funds_out_def demo_params_def RGB_CHAIN_ID_def)

lemma demo_binding:
  "apply_funds_out_binding H keccak lib ser demo_abi 9 demo_build demo_release_config c (from_funds_out demo_params)
     (Some (demo_consignment ws)) [] pins None = Inr pins"
proof -
  let ?rel = "from_funds_out demo_params" and ?v = "demo_consignment ws"
  have v: "last_transition ?v = Some demo_burn" "last_transfer_op_id ?v = Some (replicate 32 8)"
      "non_mined_witness_txids ?v = []" "map vl_operation_id (mint_locks ?v) = [replicate 32 6]" "mint_locks ?v \<noteq> []"
    by (simp_all add: demo_consignment_def)
  have rel: "ri_amount ?rel = 1000" "ri_source_burn_tx_id ?rel = replicate 32 8" "ri_settlement_data ?rel = replicate 32 6"
      "ri_recipient ?rel = replicate 12 0 @ replicate 20 9" "ri_dst_eid ?rel = None" "ri_proof ?rel = []"
    by (simp_all add: from_funds_out_def demo_params_def)
  have a: "validate_funds_out_amount 9 ?rel ?v = Inr ()"
    by (simp add: funds_out_amount_Inr v(1) rel(1) demo_burn_def)
  have t: "validate_funds_out_source_burn_tx_id ?rel ?v = Inr ()"
    by (simp add: source_burn_tx_id_Inr v rel(2))
  have p: "validate_funds_out_burn_recipient demo_abi ?rel ?v None = Inr ()"
    by (simp add: burn_recipient_Inr v(1) demo_burn_def payee_named_def legacy_reason_def rel(4,5))
  have s: "validate_funds_out_settlement demo_abi ?rel (mint_locks ?v) = Inr ()"
    using v(5) by (simp add: validate_funds_out_settlement_def v(4) rel(3) demo_abi_def)
  show ?thesis
    by (simp add: apply_funds_out_binding_def assert_witnesses_confirmed_def v(3) rel(6) a t p s demo_build_def)
qed


end
