(* ===== verification/Sign_Safety.thy ===== *)
theory Sign_Safety
  imports Sign_Flow Release_Settlement
begin

text \<open>
  What a signature of the handler \<open>handle_sign\<close> stands for: a release is signed only when the whole
  path, from the raw consignment to the header chain at the time of the signature, backs it.
\<close>

subsection \<open>The burn direction\<close>

lemma sign_with_pins:
  assumes "sign_with_chain_pins_unchanged env pins sign w = (Inr x, w')"
  obtains km where "phase (w_enclave w') = Active km" "sign km = Inr x"
    "pins \<noteq> [] \<Longrightarrow> assert_unchanged pins (w_chain w') = Inr ()"
  using assms
  by (auto simp: sign_with_chain_pins_unchanged_def Let_def with_active_def and_then_Inr
      split: if_splits phase.splits)

lemma handle_sign_evm_Inr:
  assumes "handle_sign_evm env req params pins w = (Inr response, w')"
  obtains digest km sig where
    "release_digest (keccak256 (sg_libs env)) (alloy (sg_libs env)) req params = Inr digest"
    "phase (w_enclave w') = Active km" "sign_evm (sg_libs env) km digest = Inr sig"
    "response = EvmSignature \<lparr>es_signature = sig, es_call_data = call_data req\<rparr>"
    "pins \<noteq> [] \<Longrightarrow> assert_unchanged pins (w_chain w') = Inr ()"
  using assms unfolding handle_sign_evm_def
  by (elim rpc_then_InrE sign_with_pins) (auto intro: that)

lemma source_bind_Inr:
  "assert_asset_binding contract declared cfg SourceBind = Inr u \<Longrightarrow>
    contract = declared \<and> (is_configured cfg \<longrightarrow> contract = rgb_asset_id cfg)"
  by (auto simp: assert_asset_binding_def split: if_splits)

text \<open>A consignment that passed the source validation: consensus accepted it, and with SPV the pins
  are those of its proofs.\<close>

definition consensus_accepted ::
  "('n, 'km, 'p) signer_env \<Rightarrow> ('n, 'p) launch \<Rightarrow> instant \<Rightarrow> rgb_source \<Rightarrow> validated_consignment \<Rightarrow> bool" where
  "consensus_accepted env l deadline s v \<longleftrightarrow>
    (\<exists>validate view n n'. rgb_validator l = Some validate \<and>
       validate (rs_consignment s) (derived_locks (keccak256 (sg_libs env)) (sg_config env)) view
         (\<lambda>contract. assert_asset_binding contract (rs_asset_id s) (sg_config env) SourceBind)
         (\<lambda>contract. read_decisions (reject_abi (sg_libs env)) (instant_now env) (sg_config env)
            (Some (evm_rpc_client l)) contract deadline) n = (Inr v, n')) \<and>
    keccak256 (sg_libs env) (rs_consignment s) = rs_consignment_hash s"

lemma rgb_validate_source_Inr:
  assumes "rgb_validate_source env l deadline s [] w = (Inr (v, pins), w')"
  shows "consensus_accepted env l deadline s v \<and> pins_ok pins \<and>
    (is_configured (sg_config env) \<longrightarrow> vc_contract_id v = rgb_asset_id (sg_config env))"
proof -
  from assms obtain validate view n n' w1 w2 where r:
      "validate_source_payload (keccak256 (sg_libs env)) s (sg_config env) = Inr ()" "rgb_validator l = Some validate"
      "validate (rs_consignment s) (derived_locks (keccak256 (sg_libs env)) (sg_config env)) view
         (\<lambda>contract. assert_asset_binding contract (rs_asset_id s) (sg_config env) SourceBind)
         (\<lambda>contract. read_decisions (reject_abi (sg_libs env)) (instant_now env) (sg_config env)
            (Some (evm_rpc_client l)) contract deadline) n = (Inr v, n')"
      "assert_asset_binding (vc_contract_id v) (rs_asset_id s) (sg_config env) SourceBind = Inr ()"
      "(if b_spv (sg_build env) then
          rpc_then (observe env (\<lambda>w. (w_chain w, system_now env (w_node w)))) (\<lambda>(c, now).
          rpc_lift (validate_source_chain (sha256d (sg_libs env)) (chain_net_prefix (sg_libs env)) c
            (Some (vc_chain_net v, vc_witness_txids v)) (merkle_proofs s) now [] (spv_min_confirmations (sg_config env))))
        else rpc_lift (Inr [])) w1 = (Inr pins, w2)"
    unfolding rgb_validate_source_def Let_def
    by (elim rpc_then_InrE) (auto simp: on_node_def split: prod.splits intro: that)
  have "pins_ok pins"
  proof (cases "b_spv (sg_build env)")
    case True
    have "pins_ok []" by (simp add: pins_ok_def)
    then show ?thesis
      using r(5) True pin_all_ok by (auto simp: observe_def Let_def rpc_simps validate_source_chain_Inr)
  next
    case False
    then show ?thesis using r(5) by (simp add: pins_ok_def)
  qed
  moreover have "keccak256 (sg_libs env) (rs_consignment s) = rs_consignment_hash s"
    using r(1) by (simp add: validate_source_payload_def and_then_Inr Let_def)
  ultimately show ?thesis using r(2-4) source_bind_Inr unfolding consensus_accepted_def by blast
qed

text \<open>The block of the burn: the release proof names it, the chain at the time of the check anchors the
  burn in it, and it is still in the chain \<open>c\<close> of the signature with the required depth.\<close>

definition block_holds_burn ::
  "('n, 'km, 'p) signer_env \<Rightarrow> release_identity \<Rightarrow> validated_consignment \<Rightarrow> merkle_proof_entry list \<Rightarrow> header_chain \<Rightarrow> bool" where
  "block_holds_burn env rel v proofs c \<longleftrightarrow>
    (\<exists>source latest c0 x. decode_funds_out_proof rel = Inr (source, latest) \<and>
       anchored (sha256d (sg_libs env)) c0 (spv_min_confirmations (sg_config env)) v proofs (pb_height source) \<and>
       relay_agrees (keccak256 (sg_libs env)) (btc (sg_libs env)) (serialize_header (sg_libs env)) c0
         (cfg_btc_relay_mode (sg_config env)) source \<and>
       hash_at c0 (pb_height source) = Some x \<and> hash_at c (pb_height source) = Some x \<and>
       unat (spv_min_confirmations (sg_config env)) \<le> unat (tip_height c) - unat (pb_height source) + 1)"

lemma sign_release_Inr:
  fixes env :: "('n, 'km, 'p) signer_env" and d :: evm_destination
  assumes "sign_release env (RgbSource s) sp dp d pins w = (Inr response, w')"
    "b_rgb_validation (sg_build env)" "b_bfa_mint (sg_build env)" "pins_ok pins"
    "rgb_consignment sp = Some v" "evm_release_identity dp = Some rel"
  obtains digest km sig where
    "validate_rgb_source_identity rel = Inr ()" "validate_burn_id (keccak256 (sg_libs env)) (sg_config env) rel = Inr ()"
    "settles (alloy (sg_libs env)) (ts_burn (sg_libs env)) rel v
       (map_option burn_destination_record_from (ed_burn_destination d))"
    "release_digest (keccak256 (sg_libs env)) (alloy (sg_libs env)) d (evm_funds_out dp) = Inr digest"
    "phase (w_enclave w') = Active km" "sign_evm (sg_libs env) km digest = Inr sig"
    "response = EvmSignature \<lparr>es_signature = sig, es_call_data = call_data d\<rparr>"
    "b_spv (sg_build env) \<Longrightarrow> chain_wf (w_chain w') \<Longrightarrow> block_holds_burn env rel v (merkle_proofs s) (w_chain w')"
proof -
  let ?libs = "sg_libs env" and ?cfg = "sg_config env"
  from assms obtain c pins' w1 where r: "validate_rgb_source_identity rel = Inr ()"
      "validate_burn_id (keccak256 ?libs) ?cfg rel = Inr ()"
      "apply_funds_out_binding (sha256d ?libs) (keccak256 ?libs) (btc ?libs) (serialize_header ?libs)
         (alloy ?libs) (ts_burn ?libs) (sg_build env) ?cfg c rel (Some v) (merkle_proofs s) pins
         (map_option burn_destination_record_from (ed_burn_destination d)) = Inr pins'"
      "handle_sign_evm env d (evm_funds_out dp) pins' w1 = (Inr response, w')"
    unfolding sign_release_def Let_def
    by (elim rpc_then_InrE) (auto simp: observe_def Let_def rpc_simps intro: that)
  obtain v' where b: "Some v = Some v'" "settles (alloy ?libs) (ts_burn ?libs) rel v' (map_option burn_destination_record_from
        (ed_burn_destination d))"
      "if b_spv (sg_build env) then verify_btc_relay_agreement (sha256d ?libs) (keccak256 ?libs) (btc ?libs)
         (serialize_header ?libs) rel v' (merkle_proofs s) c pins (cfg_btc_relay_mode ?cfg) (spv_min_confirmations ?cfg) = Inr pins'
       else pins' = pins \<and> merkle_proofs s = [] \<and> ri_proof rel = []"
    using binding_Inr [OF assms(3) r(3)] .
  obtain digest km sig where h: "release_digest (keccak256 ?libs) (alloy ?libs) d (evm_funds_out dp) = Inr digest"
      "phase (w_enclave w') = Active km" "sign_evm ?libs km digest = Inr sig"
      "response = EvmSignature \<lparr>es_signature = sig, es_call_data = call_data d\<rparr>"
      "pins' \<noteq> [] \<Longrightarrow> assert_unchanged pins' (w_chain w') = Inr ()"
    by (rule handle_sign_evm_Inr [OF r(4)]) blast
  have "block_holds_burn env rel v (merkle_proofs s) (w_chain w')"
    if spv: "b_spv (sg_build env)" and wf: "chain_wf (w_chain w')"
  proof -
    have "verify_btc_relay_agreement (sha256d ?libs) (keccak256 ?libs) (btc ?libs) (serialize_header ?libs) rel v
        (merkle_proofs s) c pins (cfg_btc_relay_mode ?cfg) (spv_min_confirmations ?cfg) = Inr pins'"
      using b(1,3) spv by simp
    then obtain source latest x where a: "decode_funds_out_proof rel = Inr (source, latest)"
        "anchored (sha256d ?libs) c (spv_min_confirmations ?cfg) v (merkle_proofs s) (pb_height source)"
        "relay_agrees (keccak256 ?libs) (btc ?libs) (serialize_header ?libs) c (cfg_btc_relay_mode ?cfg) source"
        "hash_at c (pb_height source) = Some x" "pinned pins' (pb_height source) x (spv_min_confirmations ?cfg)"
      using relay_agreement [OF _ assms(4)] by metis
    have "pins' \<noteq> []" using a(5) by (auto simp: pinned_def)
    from pinned_unchanged [OF wf h(5) [OF this] a(5)] a(1-4) show ?thesis
      unfolding block_holds_burn_def by blast
  qed
  then show thesis using that r(1,2) b(1,2) h(1-4) by blast
qed

lemma route_source_rgb:
  assumes "route_validate_source env l deadline amount (RgbSource s) [] w = (Inr (sp, pins), w')"
  obtains l' v where "l = Some l'" "rgb_consignment sp = Some v" "consensus_accepted env l' deadline s v" "pins_ok pins"
    "is_configured (sg_config env) \<Longrightarrow> vc_contract_id v = rgb_asset_id (sg_config env)"
  using assms
  by (auto simp: route_validate_source_def Let_def rpc_simps and_then_Inr dest!: rgb_validate_source_Inr
      split: if_splits option.splits intro: that)

lemma route_destination_evm:
  assumes "route_validate_destination env anchor mb amount commission (EvmDestination d) w = (Inr dp, w')"
  obtains now pr rel where "evm_release_identity dp = Some rel"
    "evm_validate_destination (keccak256 (sg_libs env)) (alloy (sg_libs env)) (sg_build env) (sg_config env) now d =
      Inr (pr, evm_funds_out dp, rel)"
  using assms
  by (auto simp: route_validate_destination_def Let_def rpc_simps and_then_Inr observe_def split: if_splits intro: that)

text \<open>The burn signer builds: no mint path, RGB validation with the settlement of deposits.\<close>

definition burn_signer :: "signer_build \<Rightarrow> bool" where
  "burn_signer b \<longleftrightarrow> b_rgb_to_evm b \<and> \<not> b_evm_to_rgb b \<and> b_rgb_validation b \<and> b_bfa_mint b"

lemma sign_uncached_burn:
  assumes "sign_uncached env anchor req (RgbSource s) (EvmDestination d) None deadline w = (Inr (response, res), w')"
    "burn_signer (sg_build env)"
  obtains l sp pins dp mb commission w1 w2 w3 w4 w5 where "sg_launch env = Some l"
    "route_validate_source env (Some l) deadline (sr_amount req) (RgbSource s) [] w1 = (Inr (sp, pins), w2)"
    "route_validate_destination env anchor mb (sr_amount req) commission (EvmDestination d) w3 = (Inr dp, w4)"
    "sign_release env (RgbSource s) sp dp d pins w5 = (Inr response, w')" "res = None"
proof -
  have b: "b_rgb_to_evm (sg_build env)" "\<not> b_evm_to_rgb (sg_build env)" "b_rgb_validation (sg_build env)"
    using assms(2) by (simp_all add: burn_signer_def)
  have fin: "finish_sign env req None None m x = (Inr (response, res), w') \<Longrightarrow> m x = (Inr response, w') \<and> res = None"
    for m x by (auto simp: finish_sign_def split: prod.splits sum.splits)
  show thesis
    using assms(1) unfolding sign_uncached_def Let_def sign_validated_def
    by (elim rpc_then_InrE) (auto simp: b launched_def and_then_Inr elim!: rpc_then_InrE dest!: fin intro: that)
qed

lemma handle_sign_burn:
  assumes "handle_sign env anchor req deadline w = (Inr (response, res), w')" "burn_signer (sg_build env)"
    "source_network req = Some (RgbSource s)" "destination_network req = Some (EvmDestination d)"
  obtains w1 where
    "sign_uncached env anchor req (RgbSource s) (EvmDestination d) None deadline w1 = (Inr (response, res), w')"
proof -
  have b: "\<not> b_evm_to_rgb (sg_build env)"
    using assms(2) by (simp_all add: burn_signer_def)
  show thesis
    using assms(1) unfolding handle_sign_def Let_def assms(3,4)
    by (elim rpc_then_InrE) (auto simp: b intro: that)
qed

text \<open>C1: What a release signature stands for. When the handler of a burn signer signs a release for an
  RGB source, the launched validator accepted the consignment, which has the pinned asset; the calldata passed the release checks
  and its release identity settles the last burn of the consignment (amount, burn reference, payee,
  deposits); the signature is that of the enclave's key over the digest of exactly this request, no
  replay reservation is held; and in a build with SPV the block that the release proof names holds
  the burn and is still in the header chain, at the required depth, when the key signs.\<close>

theorem signed_release_settles_burn:
  assumes "burn_signer (sg_build env)" "source_network req = Some (RgbSource s)"
    and "destination_network req = Some (EvmDestination d)"
    and "handle_sign env anchor req deadline w = (Inr (response, res), w')"
    and "chain_reachable (btc (sg_libs env)) network (w_chain w')"
  shows "\<exists>l v now pr params rel digest km sig.
    sg_launch env = Some l \<and> consensus_accepted env l deadline s v \<and>
    vc_contract_id v = rgb_asset_id (sg_config env) \<and>
    evm_validate_destination (keccak256 (sg_libs env)) (alloy (sg_libs env)) (sg_build env) (sg_config env) now d =
      Inr (pr, params, rel) \<and>
    settles (alloy (sg_libs env)) (ts_burn (sg_libs env)) rel v
      (map_option burn_destination_record_from (ed_burn_destination d)) \<and>
    validate_burn_id (keccak256 (sg_libs env)) (sg_config env) rel = Inr () \<and>
    release_digest (keccak256 (sg_libs env)) (alloy (sg_libs env)) d params = Inr digest \<and>
    phase (w_enclave w') = Active km \<and> sign_evm (sg_libs env) km digest = Inr sig \<and>
    response = EvmSignature \<lparr>es_signature = sig, es_call_data = call_data d\<rparr> \<and> res = None \<and>
    (b_spv (sg_build env) \<longrightarrow> block_holds_burn env rel v (merkle_proofs s) (w_chain w'))"
proof -
  obtain w0 where u: "sign_uncached env anchor req (RgbSource s) (EvmDestination d) None deadline w0 = (Inr (response, res), w')"
    using handle_sign_burn [OF assms(4,1,2,3)] .
  obtain l sp pins dp mb commission w1 w2 w3 w4 w5 where s: "sg_launch env = Some l"
      "route_validate_source env (Some l) deadline (sr_amount req) (RgbSource s) [] w1 = (Inr (sp, pins), w2)"
      "route_validate_destination env anchor mb (sr_amount req) commission (EvmDestination d) w3 = (Inr dp, w4)"
      "sign_release env (RgbSource s) sp dp d pins w5 = (Inr response, w')" "res = None"
    using sign_uncached_burn [OF u assms(1)] .
  obtain v where v: "rgb_consignment sp = Some v" "consensus_accepted env l deadline s v" "pins_ok pins"
      "is_configured (sg_config env) \<Longrightarrow> vc_contract_id v = rgb_asset_id (sg_config env)"
    by (rule route_source_rgb [OF s(2)]) blast
  obtain now pr rel where d: "evm_release_identity dp = Some rel"
      "evm_validate_destination (keccak256 (sg_libs env)) (alloy (sg_libs env)) (sg_build env) (sg_config env) now d =
        Inr (pr, evm_funds_out dp, rel)"
    using route_destination_evm [OF s(3)] .
  have b: "b_rgb_validation (sg_build env)" "b_bfa_mint (sg_build env)"
    using assms(1) by (simp_all add: burn_signer_def)
  have "is_configured (sg_config env)"
    using d(2) b(1) unfolding validated_release by (auto simp: check_domain_pins_def)
  with v(4) have asset: "vc_contract_id v = rgb_asset_id (sg_config env)" by blast
  have wf: "chain_wf (w_chain w')" using chain_inv_wf chain_reachable_inv assms(5) by blast
  show ?thesis
    by (rule sign_release_Inr [OF s(4) b v(3,1) d(1)]) (use s(1,5) v(2) asset d(2) wf in blast)
qed

definition demo_policy :: security_policy where
  "demo_policy = DevelopmentPolicy DebugBuild"

definition demo_signer_libs :: "(unit, unit, unit) signer_libs" where
  "demo_signer_libs = \<lparr>keccak256 = length_hash, sha256 = length_hash, sha256d = length_hash, btc = demo_lib,
    serialize_header = (\<lambda>_. []), alloy = demo_abi,
    reject_abi = \<lparr>length_call = [], decode_length = (\<lambda>_. None), entries_call = (\<lambda>_ _. []), decode_entries = (\<lambda>_. None)\<rparr>,
    ts_burn = 9, chain_net_prefix = (\<lambda>_. ''bcrt''), witness_pos = (\<lambda>_ _. Some ()), encode_to_vec = (\<lambda>_. []),
    invoice_seal = (\<lambda>_. None), psbt_input_count = (\<lambda>_. Some 1), sign_evm = (\<lambda>_ digest. Inr digest),
    sign_evm_gas_tx = (\<lambda>_ digest. Inr digest), sign_ccd = (\<lambda>_ hash. Inr (hash, [])),
    sign_psbt_colored = (\<lambda>_ psbt. Inr (psbt, 1))\<rparr>"

definition demo_signer_env :: "(unit, unit, unit) signer_env" where
  "demo_signer_env = \<lparr>sg_build = demo_build, sg_config = demo_release_config,
    sg_launch = Some \<lparr>launch_policy = demo_policy, rgb_validator = Some (\<lambda>_ _ _ _ _. rpc_lift (Inr (demo_consignment []))), evm_rpc_client = None\<rparr>,
    sg_libs = demo_signer_libs, interfere = id, system_now = (\<lambda>_. 0), instant_now = (\<lambda>_. 0)\<rparr>"

definition demo_rgb_source :: rgb_source where
  "demo_rgb_source = \<lparr>consignment_valid = True, rs_asset_id = ''asset'', rs_consignment = [1],
    rs_consignment_hash = length_hash [1], merkle_proofs = [], rs_commission = 0\<rparr>"

definition demo_sign_request :: sign_request where
  "demo_sign_request = \<lparr>sr_amount = 1000, source_network = Some (RgbSource demo_rgb_source),
    destination_network = Some (EvmDestination (demo_release 0))\<rparr>"

definition demo_world :: "(unit, unit) world" where
  "demo_world = \<lparr>w_node = (), w_chain = demo_chain0, w_enclave = (enclave_state_new 0 0)\<lparr>phase := Active ()\<rparr>\<rparr>"

lemma demo_source:
  "rgb_validate_source demo_signer_env \<lparr>launch_policy = demo_policy, rgb_validator = Some (\<lambda>_ _ _ _ _. rpc_lift (Inr (demo_consignment []))),
     evm_rpc_client = None\<rparr> deadline demo_rgb_source [] w = (Inr (demo_consignment [], []), w)"
proof -
  have payload: "validate_source_payload length_hash demo_rgb_source demo_release_config = Inr ()"
    by (simp add: validate_source_payload_def demo_rgb_source_def assert_consignment_size_def demo_release_config_def
        bridge_config_default_def DEFAULT_MAX_CONSIGNMENT_BYTES_def length_hash_def)
  have bind: "assert_asset_binding (vc_contract_id (demo_consignment [])) (rs_asset_id demo_rgb_source) demo_release_config
      SourceBind = Inr ()"
    by (simp add: assert_asset_binding_def demo_consignment_def demo_rgb_source_def demo_release_config_def)
  have env: "\<not> b_spv (sg_build demo_signer_env)" "sg_config demo_signer_env = demo_release_config"
      "keccak256 (sg_libs demo_signer_env) = length_hash"
    by (simp_all add: demo_signer_env_def demo_build_def demo_signer_libs_def)
  show ?thesis
    by (simp add: rgb_validate_source_def env payload bind source_witnesses_def on_node_def rpc_then_def)
qed

lemma demo_route_proof:
  "route_proof_from_validated_consignment 9 (demo_consignment []) =
    Inr \<lparr>rp_amount = 1000, rp_operation_id = Some (replicate 64 (CHR ''a''))\<rparr>"
proof -
  have "replicate 64 (CHR ''a'') = CHR ''a'' # replicate 63 (CHR ''a'')" by (simp flip: replicate_Suc)
  then have "strip_prefix ''0x'' (replicate 64 (CHR ''a'')) = None" by simp
  then have "normalize_rgb_operation_id (replicate 64 (CHR ''a'')) = Inr (replicate 64 (CHR ''a''))"
    by (simp add: normalize_rgb_operation_id_def list_all_iff to_ascii_lower_def unwrap_or_def)
  then show ?thesis
    by (simp add: route_proof_from_validated_consignment_def demo_consignment_def demo_burn_def
        funds_out_source_amount_def)
qed

lemma demo_signed:
  assumes "release_digest length_hash demo_abi (demo_release 0) (Some demo_params) = Inr digest"
  shows "handle_sign demo_signer_env anchor demo_sign_request 1 demo_world =
    (Inr (EvmSignature \<lparr>es_signature = digest, es_call_data = call_data (demo_release 0)\<rparr>, None), demo_world)"
proof -
  have b: "b_rgb_to_evm demo_build" "\<not> b_evm_to_rgb demo_build" "b_rgb_validation demo_build" "b_evm_rpc demo_build"
    by (simp_all add: demo_build_def)
  have env: "sg_build demo_signer_env = demo_build" "sg_config demo_signer_env = demo_release_config"
      "sg_libs demo_signer_env = demo_signer_libs" "interfere demo_signer_env = id" "system_now demo_signer_env = (\<lambda>_. 0)"
      "sg_launch demo_signer_env = Some \<lparr>launch_policy = demo_policy, rgb_validator = Some (\<lambda>_ _ _ _ _. rpc_lift (Inr (demo_consignment []))),
        evm_rpc_client = None\<rparr>"
    by (simp_all add: demo_signer_env_def)
  have libs: "keccak256 demo_signer_libs = length_hash" "alloy demo_signer_libs = demo_abi" "ts_burn demo_signer_libs = 9"
      "sign_evm demo_signer_libs = (\<lambda>_ digest. Inr digest)"
    by (simp_all add: demo_signer_libs_def)
  have req: "sr_amount demo_sign_request = 1000" "source_network demo_sign_request = Some (RgbSource demo_rgb_source)"
      "destination_network demo_sign_request = Some (EvmDestination (demo_release 0))"
    by (simp_all add: demo_sign_request_def)
  have s: "merkle_proofs demo_rgb_source = []" "ed_burn_destination (demo_release 0) = None"
    by (simp_all add: demo_rgb_source_def demo_release_def)
  have act: "phase (w_enclave demo_world) = Active ()" by (simp add: demo_world_def)
  have src: "route_validate_source demo_signer_env (sg_launch demo_signer_env) 1 1000 (RgbSource demo_rgb_source) [] demo_world =
      (Inr (\<lparr>sp_proof = \<lparr>rp_amount = 1000, rp_operation_id = Some (replicate 64 (CHR ''a''))\<rparr>,
         rgb_consignment = Some (demo_consignment [])\<rparr>, []), demo_world)"
    by (simp add: route_validate_source_def env b libs rpc_then_def demo_source demo_route_proof)
  have dst: "route_validate_destination demo_signer_env anchor mb 1000 k (EvmDestination (demo_release 0)) demo_world =
      (Inr \<lparr>dp_proof = \<lparr>rp_amount = 1000, rp_operation_id = None\<rparr>, evm_funds_out = Some demo_params,
         evm_release_identity = Some (from_funds_out demo_params), rgb_recipient_seals = []\<rparr>, demo_world)" for mb k
    by (simp add: route_validate_destination_def env b libs rpc_then_def observe_def demo_validates)
  have rel: "sign_release demo_signer_env (RgbSource demo_rgb_source)
      \<lparr>sp_proof = sp, rgb_consignment = Some (demo_consignment [])\<rparr>
      \<lparr>dp_proof = dp, evm_funds_out = Some demo_params, evm_release_identity = Some (from_funds_out demo_params),
       rgb_recipient_seals = []\<rparr> (demo_release 0) [] demo_world =
     (Inr (EvmSignature \<lparr>es_signature = digest, es_call_data = call_data (demo_release 0)\<rparr>), demo_world)" for sp dp
    by (simp add: sign_release_def env b libs rpc_then_def observe_def demo_rgb_identity demo_burn_id demo_binding s
        handle_sign_evm_def assms sign_with_chain_pins_unchanged_def with_active_def act)
  have "sign_uncached demo_signer_env anchor demo_sign_request (RgbSource demo_rgb_source) (EvmDestination (demo_release 0))
      None 1 demo_world =
     (Inr (EvmSignature \<lparr>es_signature = digest, es_call_data = call_data (demo_release 0)\<rparr>, None), demo_world)"
    using src by (simp add: sign_uncached_def env b req rpc_then_def launched_def dst rel source_commission_def
        validate_route_proofs_def validate_amount_covers_destination_def finish_sign_def sign_validated_def drop_reservation_def)
  then show ?thesis
    by (simp add: handle_sign_def req env b rpc_then_def check_signer_role_def on_enclave_def with_active_def act)
qed

theorem signed_release_settles_burn_witness:
  "\<exists>v pr params rel digest. consensus_accepted demo_signer_env \<lparr>launch_policy = demo_policy, rgb_validator = Some (\<lambda>_ _ _ _ _. rpc_lift (Inr (demo_consignment []))),
        evm_rpc_client = None\<rparr> 1 demo_rgb_source v \<and> vc_contract_id v = ''asset'' \<and> settles demo_abi 9 rel v None \<and>
     release_digest length_hash demo_abi (demo_release 0) params = Inr digest"
proof -
  obtain digest where dg: "release_digest length_hash demo_abi (demo_release 0) (Some demo_params) = Inr digest"
    by (simp add: release_digest_def demo_release_def build_evm_domain_def ADDRESS_LEN_def funds_out_digest_def)
  have b: "burn_signer (sg_build demo_signer_env)"
    by (simp add: burn_signer_def demo_signer_env_def demo_build_def)
  have req: "source_network demo_sign_request = Some (RgbSource demo_rgb_source)"
      "destination_network demo_sign_request = Some (EvmDestination (demo_release 0))"
    by (simp_all add: demo_sign_request_def)
  have reach: "chain_reachable (btc (sg_libs demo_signer_env)) Regtest (w_chain demo_world)"
    using demo_reachable0 by (simp add: demo_signer_env_def demo_signer_libs_def demo_world_def)
  have env: "sg_libs demo_signer_env = demo_signer_libs" "rgb_asset_id (sg_config demo_signer_env) = ''asset''"
      "keccak256 demo_signer_libs = length_hash" "alloy demo_signer_libs = demo_abi" "ts_burn demo_signer_libs = 9"
      "sg_launch demo_signer_env = Some \<lparr>launch_policy = demo_policy, rgb_validator = Some (\<lambda>_ _ _ _ _. rpc_lift (Inr (demo_consignment []))),
        evm_rpc_client = None\<rparr>" "ed_burn_destination (demo_release 0) = None"
    by (simp_all add: demo_signer_env_def demo_signer_libs_def demo_release_config_def demo_release_def)
  show ?thesis
    using signed_release_settles_burn [OF b req demo_signed [OF dg, of "\<lambda>_ _ _ _. rpc_lift (Inr (0, []))"] reach] unfolding env by auto
qed

end
