(* ===== verification/Btc_Psbt.thy ===== *)
theory Btc_Psbt
  imports Sign_Flow
begin

text \<open>
  Partially signed Bitcoin transactions: the keys that the enclave derives
  (\<open>enclave/src/keys.rs\<close>), the inputs it can sign and their signatures
  (\<open>networks/rgb/signing/taproot.rs\<close>), the proof that an output stays in custody
  (\<open>networks/rgb/btc_ownership.rs\<close>), the size estimate and the fee policy
  (\<open>networks/rgb/psbt_fee_size.rs\<close>, \<open>psbt_validation.rs\<close>) and the plain-BTC path
  (\<open>networks/rgb/btc_crosscheck.rs\<close>, \<open>server/signers.rs\<close>).

  The records hold the fields of the \<open>bitcoin\<close> crate that the code reads. What the crate computes
  (BIP-32 derivation, BIP-341 tweaks and hashes, sizes, serialisation) is the record \<open>psbt_lib\<close>.
\<close>

definition checked_mul :: "'a::len word \<Rightarrow> 'a word \<Rightarrow> 'a word option" where
  "checked_mul x y = (if unat x * unat y < 2 ^ LENGTH('a) then Some (x * y) else None)"

subsection \<open>Transactions\<close>

datatype child_number = NormalChild u32 | HardenedChild u32

datatype tap_sighash_type = TapDefault | TapAll | TapOther u8

record tx_out =
  out_value :: u64
  script_pubkey :: bytes

record tx_in =
  previous_output :: outpoint
  txin_script_sig :: bytes
  txin_witness :: "bytes list"

record btc_tx =
  tx_version :: u32
  tx_lock_time :: u32
  tx_input :: "tx_in list"
  tx_output :: "tx_out list"

record control_block =
  cb_leaf_version :: u8
  cb_bytes :: bytes

type_synonym key_origins = "(bytes \<times> bytes list \<times> bytes \<times> child_number list) list"

record psbt_input =
  witness_utxo :: "tx_out option"
  non_witness_utxo :: "btc_tx option"
  sighash_type :: "u32 option"
  tap_key_sig :: "(bytes \<times> tap_sighash_type) option"
  tap_internal_key :: "bytes option"
  tap_key_origins :: key_origins
  tap_merkle_root :: "bytes option"
  tap_scripts :: "(control_block \<times> bytes \<times> u8) list"
  witness_script :: "bytes option"
  final_script_sig :: "bytes option"
  final_script_witness :: "bytes list option"

record psbt_output =
  po_tap_tree :: "bytes option"
  po_tap_internal_key :: "bytes option"
  po_tap_key_origins :: key_origins

record psbt =
  psbt_unsigned_tx :: btc_tx
  psbt_inputs :: "psbt_input list"
  psbt_outputs :: "psbt_output list"

text \<open>The functions of the \<open>bitcoin\<close> crate. \<open>tap_tweak k root\<close> is the output key of the internal key
  \<open>k\<close>, \<open>new_p2tr_tweaked\<close> its script; \<open>funding_utxos\<close> yields one entry for each input.\<close>

record ('xp, 'sk) psbt_lib =
  psbt_deserialize :: "bytes \<Rightarrow> psbt option"
  psbt_serialize :: "psbt \<Rightarrow> bytes"
  compute_txid :: "btc_tx \<Rightarrow> bytes"
  psbt_fee :: "psbt \<Rightarrow> u64 option"
  tx_vsize :: "btc_tx \<Rightarrow> nat"
  tx_base_size :: "btc_tx \<Rightarrow> nat"
  witness_bytes :: "bytes list \<Rightarrow> nat"
  funding_utxos :: "psbt \<Rightarrow> tx_out option list"
  is_p2tr :: "bytes \<Rightarrow> bool"
  is_p2wpkh :: "bytes \<Rightarrow> bool"
  is_p2wsh :: "bytes \<Rightarrow> bool"
  is_op_return :: "bytes \<Rightarrow> bool"
  is_witness_program :: "bytes \<Rightarrow> bool"
  to_p2wsh :: "bytes \<Rightarrow> bytes"
  xonly_key :: "bytes \<Rightarrow> bytes option"
  compressed_key :: "bytes \<Rightarrow> bool option"
  tap_tweak :: "bytes \<Rightarrow> bytes option \<Rightarrow> bytes"
  new_p2tr_tweaked :: "bytes \<Rightarrow> bytes"
  verify_taproot_commitment :: "control_block \<Rightarrow> bytes \<Rightarrow> bytes \<Rightarrow> bool"
  derive_priv :: "'xp \<Rightarrow> child_number list \<Rightarrow> 'sk option"
  xonly_of_secret :: "'sk \<Rightarrow> bytes"
  taproot_sighash :: "btc_tx \<Rightarrow> nat \<Rightarrow> tx_out list \<Rightarrow> tap_sighash_type \<Rightarrow> bytes option"
  sign_schnorr :: "'sk \<Rightarrow> bytes option \<Rightarrow> bytes \<Rightarrow> bytes"

subsection \<open>Keys\<close>

datatype account_type = Vanilla | Colored

definition COLORED_KEYCHAIN :: u32 where "COLORED_KEYCHAIN = 0"
definition VANILLA_KEYCHAINS :: "u32 list" where "VANILLA_KEYCHAINS = [0, 1]"

definition is_wallet_child_path :: "account_type \<Rightarrow> child_number list \<Rightarrow> bool" where
  "is_wallet_child_path account child_path =
    (case child_path of
       [NormalChild keychain, NormalChild _] \<Rightarrow>
         (case account of
            Colored \<Rightarrow> keychain = COLORED_KEYCHAIN
          | Vanilla \<Rightarrow> keychain \<in> set VANILLA_KEYCHAINS)
     | _ \<Rightarrow> False)"

record 'xp key_manager =
  master_fingerprint :: bytes
  account_xpriv_vanilla :: 'xp
  account_xpriv_colored :: 'xp
  vanilla_coin_type :: u32
  colored_coin_type :: u32

definition derive_btc_child ::
  "('xp, 'sk) psbt_lib \<Rightarrow> 'xp key_manager \<Rightarrow> account_type \<Rightarrow> child_number list \<Rightarrow> 'sk enclave_result" where
  "derive_btc_child lib km account child_path =
    ok_or (derive_priv lib (case account of Vanilla \<Rightarrow> account_xpriv_vanilla km | Colored \<Rightarrow> account_xpriv_colored km)
      child_path) (InvalidKey ''child derivation failed'')"

definition resolve_account_and_child_path ::
  "'xp key_manager \<Rightarrow> child_number list \<Rightarrow> (account_type \<times> child_number list) option" where
  "resolve_account_and_child_path km steps =
    (if length steps \<noteq> 5 then None
     else if steps ! 0 \<noteq> HardenedChild 86 then None
     else if steps ! 2 \<noteq> HardenedChild 0 then None
     else if steps ! 1 = HardenedChild (vanilla_coin_type km) then Some (Vanilla, drop 3 steps)
     else if steps ! 1 = HardenedChild (colored_coin_type km) then Some (Colored, drop 3 steps)
     else None)"

subsection \<open>The inputs that the enclave controls\<close>

record taproot_sign_job =
  input_index :: nat
  xonly_pubkey :: bytes
  job_merkle_root :: "bytes option"
  job_account :: account_type
  job_child_path :: "child_number list"

definition key_path_job ::
  "('xp, 'sk) psbt_lib \<Rightarrow> 'xp key_manager \<Rightarrow> psbt_input \<Rightarrow> nat \<Rightarrow> bytes \<Rightarrow> taproot_sign_job option" where
  "key_path_job lib km inp idx output_key =
    Option.bind (tap_internal_key inp) (\<lambda>internal_key.
    Option.bind (map_of (tap_key_origins inp) internal_key) (\<lambda>(_, fingerprint, derivation_path).
    if fingerprint \<noteq> master_fingerprint km then None
    else
      Option.bind (resolve_account_and_child_path km derivation_path) (\<lambda>(account, child_path).
      case derive_btc_child lib km account child_path of
        Inl _ \<Rightarrow> None
      | Inr child_secret \<Rightarrow>
          if xonly_of_secret lib child_secret \<noteq> internal_key then None
          else if tap_tweak lib internal_key (tap_merkle_root inp) \<noteq> output_key then None
          else Some \<lparr>input_index = idx, xonly_pubkey = internal_key, job_merkle_root = tap_merkle_root inp,
                     job_account = account, job_child_path = child_path\<rparr>)))"

definition controlled_job ::
  "('xp, 'sk) psbt_lib \<Rightarrow> 'xp key_manager \<Rightarrow> nat \<times> psbt_input \<Rightarrow> taproot_sign_job option" where
  "controlled_job lib km = (\<lambda>(idx, inp).
    Option.bind (witness_utxo inp) (\<lambda>utxo.
    let spk = script_pubkey utxo in
    if \<not> is_p2tr lib spk then None
    else if length spk \<noteq> 34 then None
    else Option.bind (xonly_key lib (sub_slice spk 2 34)) (key_path_job lib km inp idx)))"

definition find_controlled_taproot_inputs ::
  "('xp, 'sk) psbt_lib \<Rightarrow> 'xp key_manager \<Rightarrow> psbt \<Rightarrow> taproot_sign_job list" where
  "find_controlled_taproot_inputs lib km p = List.map_filter (controlled_job lib km) (enumerate 0 (psbt_inputs p))"

definition find_taproot_sign_jobs ::
  "('xp, 'sk) psbt_lib \<Rightarrow> 'xp key_manager \<Rightarrow> psbt \<Rightarrow> taproot_sign_job list" where
  "find_taproot_sign_jobs lib km p =
    filter (\<lambda>job. tap_key_sig (psbt_inputs p ! input_index job) = None) (find_controlled_taproot_inputs lib km p)"

subsection \<open>Signatures\<close>

definition tap_sighash :: "psbt_input \<Rightarrow> tap_sighash_type enclave_result" where
  "tap_sighash inp =
    (let requested = unwrap_or (sighash_type inp) 0 in
     if requested = 0 then Inr TapDefault
     else if requested = 1 then Inr TapAll
     else Inl (Signing ''unsupported taproot sighash''))"

definition sign_job ::
  "('xp, 'sk) psbt_lib \<Rightarrow> 'xp key_manager \<Rightarrow> btc_tx \<Rightarrow> tx_out list \<Rightarrow> psbt \<Rightarrow> taproot_sign_job \<Rightarrow> psbt enclave_result" where
  "sign_job lib km tx prevouts p job =
    (let i = input_index job in
     and_then (tap_sighash (psbt_inputs p ! i)) (\<lambda>ty.
     and_then (derive_btc_child lib km (job_account job) (job_child_path job)) (\<lambda>secret.
     and_then (ok_or (taproot_sighash lib tx i prevouts ty) (Signing ''taproot sighash'')) (\<lambda>sighash.
     let signature = sign_schnorr lib secret (job_merkle_root job) sighash in
     Inr (p\<lparr>psbt_inputs := (psbt_inputs p)[i := (psbt_inputs p ! i)\<lparr>tap_key_sig := Some (signature, ty)\<rparr>]\<rparr>)))))"

fun sign_jobs ::
  "('xp, 'sk) psbt_lib \<Rightarrow> 'xp key_manager \<Rightarrow> btc_tx \<Rightarrow> tx_out list \<Rightarrow> psbt \<Rightarrow> taproot_sign_job list
    \<Rightarrow> psbt enclave_result" where
  "sign_jobs lib km tx prevouts p [] = Inr p"
| "sign_jobs lib km tx prevouts p (job # jobs) =
    and_then (sign_job lib km tx prevouts p job) (\<lambda>p'. sign_jobs lib km tx prevouts p' jobs)"

definition sign_taproot_inputs ::
  "('xp, 'sk) psbt_lib \<Rightarrow> 'xp key_manager \<Rightarrow> psbt \<Rightarrow> taproot_sign_job list \<Rightarrow> (psbt \<times> nat) enclave_result" where
  "sign_taproot_inputs lib km p jobs =
    (if jobs = [] then Inr (p, 0)
     else
       and_then (collect_map (\<lambda>inp. ok_or (witness_utxo inp) (Signing ''missing witness_utxo for taproot''))
         (psbt_inputs p)) (\<lambda>prevouts.
       and_then (sign_jobs lib km (psbt_unsigned_tx p) prevouts p jobs) (\<lambda>p'.
       Inr (p', length jobs))))"

definition sign_psbt_scoped ::
  "('xp, 'sk) psbt_lib \<Rightarrow> 'xp key_manager \<Rightarrow> bytes \<Rightarrow> account_type option \<Rightarrow> (bytes \<times> nat) enclave_result" where
  "sign_psbt_scoped lib km raw scope =
    and_then (check_psbt_size raw) (\<lambda>_.
    and_then (ok_or (psbt_deserialize lib raw) (Signing ''psbt deserialize'')) (\<lambda>p.
    let jobs = find_taproot_sign_jobs lib km p;
        jobs = (case scope of None \<Rightarrow> jobs | Some account \<Rightarrow> filter (\<lambda>job. job_account job = account) jobs) in
    and_then (sign_taproot_inputs lib km p jobs) (\<lambda>(p', signed_count).
    Inr (psbt_serialize lib p', signed_count))))"

subsection \<open>Custody of the outputs\<close>

definition controlled_input_scripts ::
  "psbt \<Rightarrow> taproot_sign_job list \<Rightarrow> account_type option \<Rightarrow> bytes set" where
  "controlled_input_scripts p jobs scope =
    set (List.map_filter (\<lambda>job.
      if scope \<noteq> None \<and> scope \<noteq> Some (job_account job) then None
      else if input_index job < length (psbt_inputs p) then
        map_option script_pubkey (witness_utxo (psbt_inputs p ! input_index job))
      else None) jobs)"

definition self_controlled_input_scripts_scoped ::
  "('xp, 'sk) psbt_lib \<Rightarrow> psbt \<Rightarrow> 'xp key_manager \<Rightarrow> account_type option \<Rightarrow> bytes set" where
  "self_controlled_input_scripts_scoped lib p km scope =
    controlled_input_scripts p (find_controlled_taproot_inputs lib km p) scope"

definition output_is_self_owned :: "psbt \<Rightarrow> nat \<Rightarrow> bytes set \<Rightarrow> bool" where
  "output_is_self_owned p index input_scripts \<longleftrightarrow>
    index < length (tx_output (psbt_unsigned_tx p)) \<and>
    script_pubkey (tx_output (psbt_unsigned_tx p) ! index) \<in> input_scripts"

definition derived_output ::
  "('xp, 'sk) psbt_lib \<Rightarrow> 'xp key_manager \<Rightarrow> account_type option \<Rightarrow> psbt_output \<Rightarrow> bytes option" where
  "derived_output lib km scope out =
    (if po_tap_tree out \<noteq> None then None
     else
       Option.bind (po_tap_internal_key out) (\<lambda>internal_key.
       Option.bind (map_of (po_tap_key_origins out) internal_key) (\<lambda>(leaf_hashes, fingerprint, path).
       if leaf_hashes \<noteq> [] \<or> fingerprint \<noteq> master_fingerprint km then None
       else
         Option.bind (resolve_account_and_child_path km path) (\<lambda>(account, child_path).
         if scope \<noteq> None \<and> scope \<noteq> Some account then None
         else if \<not> is_wallet_child_path account child_path then None
         else
           (case derive_btc_child lib km account child_path of
              Inl _ \<Rightarrow> None
            | Inr child_secret \<Rightarrow>
                if xonly_of_secret lib child_secret \<noteq> internal_key then None
                else Some (new_p2tr_tweaked lib (tap_tweak lib internal_key None)))))))"

definition output_is_self_derived ::
  "('xp, 'sk) psbt_lib \<Rightarrow> psbt \<Rightarrow> nat \<Rightarrow> 'xp key_manager \<Rightarrow> account_type option \<Rightarrow> bool" where
  "output_is_self_derived lib p index km scope \<longleftrightarrow>
    index < length (psbt_outputs p) \<and> index < length (tx_output (psbt_unsigned_tx p)) \<and>
    derived_output lib km scope (psbt_outputs p ! index) = Some (script_pubkey (tx_output (psbt_unsigned_tx p) ! index))"

text \<open>The two loops of \<open>unowned_output_sats\<close>: the value of the inputs on each exempt script, then the
  outputs in order, each reduced by the room left on its script.\<close>

fun input_room :: "bytes set \<Rightarrow> (bytes \<times> u64) list \<Rightarrow> tx_out list \<Rightarrow> (bytes \<times> u64) list option" where
  "input_room scripts room [] = Some room"
| "input_room scripts room (utxo # utxos) =
    (let spk = script_pubkey utxo in
     if spk \<in> scripts then
       Option.bind (checked_add (unwrap_or (map_of room spk) 0) (out_value utxo)) (\<lambda>r.
       input_room scripts (AList.update spk r room) utxos)
     else input_room scripts room utxos)"

fun unowned_sum :: "(nat \<Rightarrow> bool) \<Rightarrow> (bytes \<times> u64) list \<Rightarrow> u64 \<Rightarrow> (nat \<times> tx_out) list \<Rightarrow> u64 option" where
  "unowned_sum derived room unowned [] = Some unowned"
| "unowned_sum derived room unowned ((index, txout) # outs) =
    (if derived index then unowned_sum derived room unowned outs
     else
       let spk = script_pubkey txout; sat = out_value txout in
       (case map_of room spk of
          None \<Rightarrow> Option.bind (checked_add unowned sat) (\<lambda>u. unowned_sum derived room u outs)
        | Some r \<Rightarrow>
            let exempt = min sat r in
            Option.bind (checked_add unowned (sat - exempt)) (\<lambda>u.
            unowned_sum derived (AList.update spk (r - exempt) room) u outs)))"

definition unowned_output_sats ::
  "('xp, 'sk) psbt_lib \<Rightarrow> psbt \<Rightarrow> bytes set \<Rightarrow> 'xp key_manager \<Rightarrow> u64 option" where
  "unowned_output_sats lib p input_scripts km =
    Option.bind (input_room input_scripts [] (List.map_filter witness_utxo (psbt_inputs p))) (\<lambda>room.
    unowned_sum (\<lambda>index. output_is_self_derived lib p index km None) room 0
      (enumerate 0 (tx_output (psbt_unsigned_tx p))))"

subsection \<open>Size of the signed transaction\<close>

definition size_error :: "string \<Rightarrow> enclave_error" where
  "size_error reason = CrossCheck (''cannot estimate signed PSBT size: '' @ reason)"

definition compact_size :: "u64 \<Rightarrow> u64" where
  "compact_size v = (if v \<le> 252 then 1 else if v \<le> 0xffff then 3 else if v \<le> 0xffffffff then 5 else 9)"

definition item_size :: "u64 \<Rightarrow> u64" where
  "item_size len = compact_size len + len"

definition witness_size :: "u64 list \<Rightarrow> u64" where
  "witness_size lengths = compact_size (of_nat (length lengths)) + sum_list (map item_size lengths)"

unbundle bit_operations_syntax

definition positive_script_number :: "bytes \<Rightarrow> (u64 \<times> nat) option" where
  "positive_script_number bs =
    (case bs of
       [] \<Rightarrow> None
     | first # _ \<Rightarrow>
         if 0x51 \<le> first \<and> first \<le> 0x60 then Some (ucast (first - 0x50), 1)
         else if \<not> (1 \<le> first \<and> first \<le> 4) then None
         else if length bs < unat first + 1 then None
         else
           let data = sub_slice bs 1 (unat first + 1); final = last data in
           if final AND 0x80 \<noteq> 0 \<or> (final = 0 \<and> (length data = 1 \<or> data ! (length data - 2) AND 0x80 = 0)) then None
           else
             let number = fold (\<lambda>(i, byte) n. n OR push_bit (i * 8) (ucast byte)) (enumerate 0 data) (0 :: u64) in
             if 16 < number then Some (number, length data + 1) else None)"

definition OP_CHECKMULTISIG :: u8 where "OP_CHECKMULTISIG = 0xae"
definition OP_CHECKSIG :: u8 where "OP_CHECKSIG = 0xac"
definition OP_CHECKSIGADD :: u8 where "OP_CHECKSIGADD = 0xba"
definition OP_NUMEQUAL :: u8 where "OP_NUMEQUAL = 0x9c"

text \<open>The loops that count the keys of a script return the count and the bytes left, or \<^const>\<open>None\<close>
  on a key that does not parse.\<close>

function tapscript_slots :: "(bytes \<Rightarrow> bytes option) \<Rightarrow> u64 \<Rightarrow> bytes \<Rightarrow> (u64 \<times> bytes) option" where
  "tapscript_slots key slots bs =
    (if 34 \<le> length bs \<and> bs ! 0 = 32 \<and> bs ! 33 = (if slots = 0 then OP_CHECKSIG else OP_CHECKSIGADD) then
       Option.bind (key (sub_slice bs 1 33)) (\<lambda>_. tapscript_slots key (slots + 1) (drop 34 bs))
     else Some (slots, bs))"
  by pat_completeness auto

termination tapscript_slots
  by (relation "measure (\<lambda>(_, _, bs). length bs)") auto

definition tapscript_threshold :: "(bytes \<Rightarrow> bytes option) \<Rightarrow> bytes \<Rightarrow> (u64 \<times> u64) option" where
  "tapscript_threshold key script =
    Option.bind (tapscript_slots key 0 script) (\<lambda>(slots, rest).
    if slots = 1 \<and> rest = [] then Some (1, 1)
    else if slots = 0 \<or> 1000 < slots then None
    else
      Option.bind (positive_script_number rest) (\<lambda>(required, consumed).
      if required \<le> slots \<and> drop consumed rest = [OP_NUMEQUAL] then Some (slots, required) else None))"

function multisig_keys :: "(bytes \<Rightarrow> bool option) \<Rightarrow> u64 \<Rightarrow> bytes \<Rightarrow> (u64 \<times> bytes) option" where
  "multisig_keys key keys bs =
    (if 34 \<le> length bs \<and> bs ! 0 = 33 then
       Option.bind (key (sub_slice bs 1 34)) (\<lambda>compressed.
       if \<not> compressed then None else multisig_keys key (keys + 1) (drop 34 bs))
     else Some (keys, bs))"
  by pat_completeness auto

termination multisig_keys
  by (relation "measure (\<lambda>(_, _, bs). length bs)") auto

definition multisig_threshold :: "(bytes \<Rightarrow> bool option) \<Rightarrow> bytes \<Rightarrow> u64 option" where
  "multisig_threshold key script =
    Option.bind (positive_script_number script) (\<lambda>(required, offset).
    Option.bind (multisig_keys key 0 (drop offset script)) (\<lambda>(keys, rest).
    Option.bind (positive_script_number rest) (\<lambda>(declared, consumed).
    if keys \<le> 20 \<and> required \<le> keys \<and> declared = keys \<and> drop consumed rest = [OP_CHECKMULTISIG]
    then Some required else None)))"

fun largest_leaf ::
  "('xp, 'sk) psbt_lib \<Rightarrow> bytes \<Rightarrow> u64 \<Rightarrow> (control_block \<times> bytes \<times> u8) list \<Rightarrow> (string, u64) result" where
  "largest_leaf lib output_key largest [] = Inr largest"
| "largest_leaf lib output_key largest ((control, leaf, version) # leaves) =
    (if version \<noteq> 0xc0 \<or> cb_leaf_version control \<noteq> version then
       Inl ''unsupported or inconsistent Taproot leaf version''
     else if \<not> verify_taproot_commitment lib control output_key leaf then
       Inl ''Taproot script/control block does not commit to the prevout''
     else
       and_then (ok_or (tapscript_threshold (xonly_key lib) leaf)
         ''unsupported Taproot script; expected CHECKSIG or multi_a'') (\<lambda>(slots, required).
       let size = compact_size (slots + 2) + required * 66 + (slots - required) +
             item_size (of_nat (length leaf)) + item_size (of_nat (length (cb_bytes control))) in
       largest_leaf lib output_key (max largest size) leaves))"

definition taproot_witness_size ::
  "('xp, 'sk) psbt_lib \<Rightarrow> psbt_input \<Rightarrow> bytes \<Rightarrow> bool \<Rightarrow> (string, u64) result" where
  "taproot_witness_size lib inp script key_path =
    (if key_path \<or> tap_scripts inp = [] then
       and_then (ok_or (tap_internal_key inp) ''Taproot spend metadata is missing'') (\<lambda>internal_key.
       if new_p2tr_tweaked lib (tap_tweak lib internal_key (tap_merkle_root inp)) \<noteq> script then
         Inl ''Taproot internal key/merkle root does not match the prevout''
       else
         let has_sighash_byte =
           (case sighash_type inp of None \<Rightarrow> False | Some ty \<Rightarrow> ty \<noteq> 0) \<or>
           (case tap_key_sig inp of None \<Rightarrow> False | Some (_, ty) \<Rightarrow> ty \<noteq> TapDefault) in
         Inr (witness_size [if has_sighash_byte then 65 else 64]))
     else
       and_then (ok_or (xonly_key lib (drop 2 script)) ''invalid Taproot output key'') (\<lambda>output_key.
       largest_leaf lib output_key 0 (tap_scripts inp)))"

definition spend_size ::
  "('xp, 'sk) psbt_lib \<Rightarrow> psbt_input \<Rightarrow> bytes \<Rightarrow> bool \<Rightarrow> (string, u64) result" where
  "spend_size lib inp script key_path =
    (if is_p2tr lib script then taproot_witness_size lib inp script key_path
     else if is_p2wpkh lib script then Inr (witness_size [73, 33])
     else if is_p2wsh lib script then
       and_then (ok_or (witness_script inp) ''P2WSH witness_script is missing'') (\<lambda>ws.
       if to_p2wsh lib ws \<noteq> script then Inl ''P2WSH witness_script does not match the prevout''
       else
         and_then (ok_or (multisig_threshold (compressed_key lib) ws)
           ''unsupported P2WSH script; expected standard CHECKMULTISIG'') (\<lambda>required.
         Inr (compact_size (required + 2) + 1 + required * 74 + item_size (of_nat (length ws)))))
     else Inl ''unsupported prevout script type'')"

definition input_size ::
  "('xp, 'sk) psbt_lib \<Rightarrow> bool \<Rightarrow> psbt_input \<Rightarrow> tx_in \<Rightarrow> tx_out option \<Rightarrow> (string, u64) result" where
  "input_size lib key_path inp txin prevout =
    (if txin_script_sig txin \<noteq> [] \<or> txin_witness txin \<noteq> [] then
       Inl ''unsigned transaction already contains unlocking data''
     else if (case final_script_sig inp of None \<Rightarrow> False | Some script \<Rightarrow> script \<noteq> []) then
       Inl ''nonempty scriptSig is not supported for native witness inputs''
     else
       and_then (ok_or prevout ''funding output unavailable'') (\<lambda>prevout.
       and_then (spend_size lib inp (script_pubkey prevout) key_path) (\<lambda>estimated.
       let supplied = (case final_script_witness inp of None \<Rightarrow> 0 | Some w \<Rightarrow> of_nat (witness_bytes lib w)) in
       Inr (max estimated supplied))))"

fun signed_weight ::
  "('xp, 'sk) psbt_lib \<Rightarrow> nat set \<Rightarrow> u64 \<Rightarrow> (nat \<times> psbt_input \<times> tx_in \<times> tx_out option) list \<Rightarrow> u64 enclave_result" where
  "signed_weight lib key_path_inputs weight [] = Inr weight"
| "signed_weight lib key_path_inputs weight ((index, inp, txin, prevout) # rest) =
    and_then (map_err size_error (input_size lib (index \<in> key_path_inputs) inp txin prevout)) (\<lambda>size.
    and_then (ok_or (checked_add weight size) (size_error ''weight overflow'')) (\<lambda>weight.
    signed_weight lib key_path_inputs weight rest))"

definition estimated_signed_vsize ::
  "('xp, 'sk) psbt_lib \<Rightarrow> psbt \<Rightarrow> nat list \<Rightarrow> u64 enclave_result" where
  "estimated_signed_vsize lib p key_path_inputs =
    (if psbt_inputs p = [] \<or> length (psbt_inputs p) \<noteq> length (tx_input (psbt_unsigned_tx p)) then
       Inl (size_error ''inconsistent or empty PSBT'')
     else
       and_then (ok_or (Option.bind (checked_mul (of_nat (tx_base_size lib (psbt_unsigned_tx p))) 4) (\<lambda>n. checked_add n 2))
         (size_error ''weight overflow'')) (\<lambda>weight.
       and_then (signed_weight lib (set key_path_inputs) weight
         (enumerate 0 (zip (psbt_inputs p) (zip (tx_input (psbt_unsigned_tx p)) (funding_utxos lib p))))) (\<lambda>weight.
       Inr (weight div 4 + (if weight mod 4 = 0 then 0 else 1)))))"

subsection \<open>Fee policy\<close>

definition MAX_FEE_RATE_SAT_VB :: u64 where "MAX_FEE_RATE_SAT_VB = 200"
definition MAX_FEE_SATS :: u64 where "MAX_FEE_SATS = 100000"
definition MIN_FEE_RATE_SAT_VB :: u64 where "MIN_FEE_RATE_SAT_VB = 1"

definition fee_key_path_inputs_of :: "taproot_sign_job list \<Rightarrow> account_type \<Rightarrow> nat list" where
  "fee_key_path_inputs_of jobs account = map input_index (filter (\<lambda>job. job_account job = account) jobs)"

definition fee_key_path_inputs_scoped ::
  "('xp, 'sk) psbt_lib \<Rightarrow> psbt \<Rightarrow> 'xp key_manager \<Rightarrow> account_type \<Rightarrow> nat list" where
  "fee_key_path_inputs_scoped lib p km account =
    fee_key_path_inputs_of (find_controlled_taproot_inputs lib km p) account"

definition check_psbt_fee :: "('xp, 'sk) psbt_lib \<Rightarrow> psbt \<Rightarrow> nat list \<Rightarrow> unit enclave_result" where
  "check_psbt_fee lib p key_path_inputs =
    and_then (ok_or (psbt_fee lib p) (CrossCheck ''cannot compute PSBT fee'')) (\<lambda>fee.
    let vsize = of_nat (tx_vsize lib (psbt_unsigned_tx p)) in
    if vsize = 0 then Inl (CrossCheck ''PSBT unsigned tx has zero vsize'')
    else if MAX_FEE_SATS < fee then Inl (CrossCheck ''PSBT fee too high'')
    else
      and_then (ok_or (checked_mul vsize MAX_FEE_RATE_SAT_VB)
        (CrossCheck ''maximum PSBT fee calculation overflow'')) (\<lambda>max_fee_for_size.
      if max_fee_for_size < fee then Inl (CrossCheck ''PSBT fee rate too high'')
      else
        and_then (estimated_signed_vsize lib p key_path_inputs) (\<lambda>signed_vsize.
        and_then (ok_or (checked_mul signed_vsize MIN_FEE_RATE_SAT_VB)
          (CrossCheck ''minimum PSBT fee calculation overflow'')) (\<lambda>minimum_fee.
        if fee < minimum_fee then Inl (CrossCheck ''PSBT fee rate too low'') else Inr ()))))"

end
