(* ===== verification/Btc_Signing.thy ===== *)
theory Btc_Signing
  imports Btc_Psbt Gas_Tx
begin

text \<open>
  The signers outside the bridge route: plain BTC (\<open>enclave/src/networks/rgb/btc_crosscheck.rs\<close>), gas
  transactions and Concordium hashes (\<open>server/signers.rs\<close>), and what a signed PSBT is: the request with
  signatures on the enclave's own inputs of one account, and nothing else changed.
\<close>

subsection \<open>Plain BTC\<close>

definition parse_psbt_shape :: "('xp, 'sk) psbt_lib \<Rightarrow> bytes \<Rightarrow> psbt enclave_result" where
  "parse_psbt_shape lib raw =
    and_then (require (raw \<noteq> []) (CrossCheck ''psbt_bytes is empty'')) (\<lambda>_.
    and_then (check_psbt_size raw) (\<lambda>_.
    and_then (ok_or (psbt_deserialize lib raw) (CrossCheck ''psbt_bytes is not a valid PSBT'')) (\<lambda>p.
    and_then (require (tx_input (psbt_unsigned_tx p) \<noteq> []) (CrossCheck ''psbt has no inputs'')) (\<lambda>_.
    Inr p))))"

fun total_input_sats :: "u64 \<Rightarrow> psbt_input list \<Rightarrow> u64 enclave_result" where
  "total_input_sats acc [] = Inr acc"
| "total_input_sats acc (inp # rest) =
    and_then (ok_or (witness_utxo inp) (CrossCheck ''plain-BTC input is missing witness_utxo'')) (\<lambda>utxo.
    and_then (ok_or (checked_add acc (out_value utxo)) (CrossCheck ''plain-BTC total input value overflow'')) (\<lambda>acc.
    total_input_sats acc rest))"

text \<open>A build that is no development build: \<open>rgb-validation\<close> or a release build.\<close>

definition strict_build :: "signer_build \<Rightarrow> bool" where
  "strict_build b \<longleftrightarrow> b_rgb_validation b \<or> \<not> b_debug_assertions b"

definition check_unowned_budget :: "signer_build \<Rightarrow> bridge_config \<Rightarrow> u64 \<Rightarrow> unit enclave_result" where
  "check_unowned_budget b cfg unowned =
    (if 0 < unowned then
       (if btc_max_unowned_sats cfg = 0 then
          require (\<not> strict_build b) (CrossCheck ''BTC_MAX_UNOWNED_SATS is not pinned'')
        else require (unowned \<le> btc_max_unowned_sats cfg)
          (CrossCheck ''plain-BTC PSBT pays unproven outputs over the pinned budget''))
     else Inr ())"

definition check_total_cap :: "signer_build \<Rightarrow> bridge_config \<Rightarrow> u64 \<Rightarrow> unit enclave_result" where
  "check_total_cap b cfg spent =
    (if btc_max_total_sats cfg = 0 then
       require (\<not> strict_build b) (CrossCheck ''plain-BTC signing requires BTC_MAX_TOTAL_SATS to be pinned'')
     else require (spent \<le> btc_max_total_sats cfg) (CrossCheck ''plain-BTC total input value exceeds pinned cap''))"

definition validate_btc_request ::
  "('xp, 'sk) psbt_lib \<Rightarrow> signer_build \<Rightarrow> bytes \<Rightarrow> bridge_config \<Rightarrow> 'xp key_manager \<Rightarrow> unit enclave_result" where
  "validate_btc_request lib b raw cfg km =
    and_then (parse_psbt_shape lib raw) (\<lambda>p.
    and_then (total_input_sats 0 (psbt_inputs p)) (\<lambda>total_in_sat.
    and_then (require (tx_output (psbt_unsigned_tx p) \<noteq> []) (CrossCheck ''plain-BTC PSBT has no outputs'')) (\<lambda>_.
    let jobs = find_controlled_taproot_inputs lib km p;
        input_scripts = controlled_input_scripts p jobs (Some Vanilla) in
    and_then (ok_or (unowned_output_sats lib p input_scripts km)
      (CrossCheck ''plain-BTC unowned output value overflow'')) (\<lambda>unowned_sat.
    and_then (check_unowned_budget b cfg unowned_sat) (\<lambda>_.
    and_then (check_psbt_fee lib p (fee_key_path_inputs_of jobs Vanilla)) (\<lambda>_.
    check_total_cap b cfg total_in_sat))))))"

definition vanilla_permitted :: "('n, 'p) launch \<Rightarrow> unit enclave_result" where
  "vanilla_permitted l =
    (case launch_policy l of
       ProductionPolicy p \<Rightarrow> require (pp_allow_vanilla_psbt p)
         (Signing ''plain-BTC signing is disabled by the production security policy'')
     | DevelopmentPolicy _ \<Rightarrow> Inr ())"

definition handle_sign_btc ::
  "('n, 'xp key_manager, 'p) signer_env \<Rightarrow> ('xp, 'sk) psbt_lib \<Rightarrow> bytes
    \<Rightarrow> (('n, 'xp key_manager) world, enclave_response) rpc" where
  "handle_sign_btc env lib raw =
    rpc_then (rpc_lift (launched env)) (\<lambda>l.
    rpc_then (rpc_lift (vanilla_permitted l)) (\<lambda>_.
    rpc_then (on_enclave env (\<lambda>st now. (with_active st (validate_btc_request lib (sg_build env) raw (sg_config env)), st))) (\<lambda>_.
    rpc_then (on_enclave env (\<lambda>st now. (with_active st (\<lambda>km. sign_psbt_scoped lib km raw (Some Vanilla)), st))) (\<lambda>(signed, n).
    rpc_lift (if n = 0 then Inl (Signing ''sign_btc signed 0 inputs'')
              else Inr (SignedPsbt \<lparr>signed_psbt = signed, inputs_signed = of_nat n\<rparr>))))))"

subsection \<open>Gas transactions and Concordium\<close>

definition handle_sign_raw_digest ::
  "('n, 'km, 'p) signer_env \<Rightarrow> sign_raw_digest_request \<Rightarrow> (('n, 'km) world, enclave_response) rpc" where
  "handle_sign_raw_digest env req =
    rpc_then (rpc_lift (validate_gas_tx_request (keccak256 (sg_libs env)) req (sg_config env))) (\<lambda>digest.
    rpc_then (on_enclave env (\<lambda>st now. (with_active st (\<lambda>km. sign_evm_gas_tx (sg_libs env) km digest), st))) (\<lambda>signature.
    rpc_lift (Inr (RawDigestSig signature))))"

definition handle_sign_ccd ::
  "('n, 'km, 'p) signer_env \<Rightarrow> bytes \<Rightarrow> (('n, 'km) world, enclave_response) rpc" where
  "handle_sign_ccd env hash =
    (if length hash \<noteq> 32 then rpc_lift (Inl (InvalidRequest ''hash must be exactly 32 bytes''))
     else
       rpc_then (on_enclave env (\<lambda>st now. (with_active st (\<lambda>km. sign_ccd (sg_libs env) km hash), st))) (\<lambda>(signature, public_key).
       rpc_lift (Inr (CcdSignature \<lparr>ccd_signature = signature, ccd_public_key = public_key\<rparr>))))"

subsection \<open>What the signer changes\<close>

lemma controlled_job_index: "controlled_job lib km (i, inp) = Some job \<Longrightarrow> input_index job = i"
  by (auto simp: controlled_job_def key_path_job_def Let_def bind_eq_Some_conv split: if_splits sum.splits)

lemma controlled_jobs_indices:
  "map input_index (List.map_filter (controlled_job lib km) (enumerate n xs)) =
    filter (\<lambda>i. controlled_job lib km (i, xs ! (i - n)) \<noteq> None) [n ..< n + length xs]"
proof (induction xs arbitrary: n)
  case (Cons x xs)
  have "filter (\<lambda>i. controlled_job lib km (i, (x # xs) ! (i - n)) \<noteq> None) [Suc n ..< n + length (x # xs)] =
      filter (\<lambda>i. controlled_job lib km (i, xs ! (i - Suc n)) \<noteq> None) [Suc n ..< Suc n + length xs]"
    by (rule filter_cong) (auto simp: nth_Cons')
  then show ?case
    using Cons [of "Suc n"] controlled_job_index [of lib km n x]
    by (auto simp: List.map_filter_def upt_conv_Cons simp del: upt_Suc split: option.splits)
qed (simp add: List.map_filter_def)

lemma controlled_indices:
  "map input_index (find_controlled_taproot_inputs lib km p) =
    filter (\<lambda>i. controlled_job lib km (i, psbt_inputs p ! i) \<noteq> None) [0 ..< length (psbt_inputs p)]"
  using controlled_jobs_indices [of lib km 0 "psbt_inputs p"] by (simp add: find_controlled_taproot_inputs_def)

lemma controlled_distinct:
  "distinct (map input_index (find_controlled_taproot_inputs lib km p))"
  by (simp add: controlled_indices)

lemma controlled_in_range:
  "job \<in> set (find_controlled_taproot_inputs lib km p) \<Longrightarrow> input_index job < length (psbt_inputs p)"
proof -
  assume "job \<in> set (find_controlled_taproot_inputs lib km p)"
  then have "input_index job \<in> set (map input_index (find_controlled_taproot_inputs lib km p))" by simp
  then show ?thesis unfolding controlled_indices by simp
qed

text \<open>The input with the signature that a job adds.\<close>

definition signed_input ::
  "('xp, 'sk) psbt_lib \<Rightarrow> 'xp key_manager \<Rightarrow> btc_tx \<Rightarrow> tx_out list \<Rightarrow> taproot_sign_job \<Rightarrow> psbt_input \<Rightarrow> psbt_input \<Rightarrow> bool" where
  "signed_input lib km tx prevouts job inp inp' \<longleftrightarrow>
    (\<exists>ty secret h. tap_sighash inp = Inr ty \<and>
       derive_btc_child lib km (job_account job) (job_child_path job) = Inr secret \<and>
       taproot_sighash lib tx (input_index job) prevouts ty = Some h \<and>
       inp' = inp\<lparr>tap_key_sig := Some (sign_schnorr lib secret (job_merkle_root job) h, ty)\<rparr>)"

lemma sign_job_Inr:
  assumes "sign_job lib km tx prevouts p job = Inr p'" "input_index job < length (psbt_inputs p)"
  obtains inp' where "signed_input lib km tx prevouts job (psbt_inputs p ! input_index job) inp'"
    "p' = p\<lparr>psbt_inputs := (psbt_inputs p)[input_index job := inp']\<rparr>"
  using assms by (auto simp: sign_job_def signed_input_def Let_def and_then_Inr)

lemma sign_jobs_Inr:
  assumes "sign_jobs lib km tx prevouts p jobs = Inr p'" "distinct (map input_index jobs)"
    "\<And>job. job \<in> set jobs \<Longrightarrow> input_index job < length (psbt_inputs p)"
  shows "psbt_unsigned_tx p' = psbt_unsigned_tx p \<and> psbt_outputs p' = psbt_outputs p \<and>
    length (psbt_inputs p') = length (psbt_inputs p) \<and>
    (\<forall>i. i \<notin> input_index ` set jobs \<longrightarrow> psbt_inputs p' ! i = psbt_inputs p ! i) \<and>
    (\<forall>job \<in> set jobs. signed_input lib km tx prevouts job (psbt_inputs p ! input_index job)
       (psbt_inputs p' ! input_index job))"
  using assms
proof (induction jobs arbitrary: p)
  case (Cons job jobs)
  obtain p1 where p1: "sign_job lib km tx prevouts p job = Inr p1" "sign_jobs lib km tx prevouts p1 jobs = Inr p'"
    using Cons.prems(1) by (auto simp: and_then_Inr)
  obtain inp' where inp': "signed_input lib km tx prevouts job (psbt_inputs p ! input_index job) inp'"
      "p1 = p\<lparr>psbt_inputs := (psbt_inputs p)[input_index job := inp']\<rparr>"
    using sign_job_Inr [OF p1(1)] Cons.prems(3) by auto
  have fresh: "input_index job \<notin> input_index ` set jobs" using Cons.prems(2) by simp
  have IH: "psbt_unsigned_tx p' = psbt_unsigned_tx p1 \<and> psbt_outputs p' = psbt_outputs p1 \<and>
    length (psbt_inputs p') = length (psbt_inputs p1) \<and>
    (\<forall>i. i \<notin> input_index ` set jobs \<longrightarrow> psbt_inputs p' ! i = psbt_inputs p1 ! i) \<and>
    (\<forall>job \<in> set jobs. signed_input lib km tx prevouts job (psbt_inputs p1 ! input_index job)
       (psbt_inputs p' ! input_index job))"
    using Cons.prems(2,3) inp'(2) by (intro Cons.IH [OF p1(2)]) auto
  have same: "psbt_inputs p1 ! input_index j = psbt_inputs p ! input_index j" if "j \<in> set jobs" for j
    using fresh that inp'(2) by (metis image_eqI nth_list_update_neq psbt.select_convs(2) psbt.update_convs(2) psbt.surjective)
  have here: "psbt_inputs p' ! input_index job = inp'"
    using IH fresh inp'(2) Cons.prems(3) by simp
  show ?case
    using IH inp' here same Cons.prems(3) by auto
qed auto

definition account_jobs ::
  "('xp, 'sk) psbt_lib \<Rightarrow> 'xp key_manager \<Rightarrow> psbt \<Rightarrow> account_type \<Rightarrow> taproot_sign_job list" where
  "account_jobs lib km p account =
    filter (\<lambda>job. job_account job = account \<and> tap_key_sig (psbt_inputs p ! input_index job) = None)
      (find_controlled_taproot_inputs lib km p)"

text \<open>\<open>p'\<close> is \<open>p\<close> with signatures on the enclave's own unsigned inputs of one account, each over the
  transaction itself with \<open>SIGHASH_DEFAULT\<close> or \<open>SIGHASH_ALL\<close>, and nothing else changed.\<close>

definition signs_account ::
  "('xp, 'sk) psbt_lib \<Rightarrow> 'xp key_manager \<Rightarrow> account_type \<Rightarrow> psbt \<Rightarrow> psbt \<Rightarrow> bool" where
  "signs_account lib km account p p' \<longleftrightarrow>
    psbt_unsigned_tx p' = psbt_unsigned_tx p \<and> psbt_outputs p' = psbt_outputs p \<and>
    length (psbt_inputs p') = length (psbt_inputs p) \<and>
    (\<forall>i. i \<notin> input_index ` set (account_jobs lib km p account) \<longrightarrow> psbt_inputs p' ! i = psbt_inputs p ! i) \<and>
    (\<forall>job \<in> set (account_jobs lib km p account). signed_input lib km (psbt_unsigned_tx p)
       (List.map_filter witness_utxo (psbt_inputs p)) job (psbt_inputs p ! input_index job)
       (psbt_inputs p' ! input_index job))"

lemma collect_witness_utxos:
  "collect_map (\<lambda>inp. ok_or (witness_utxo inp) e) inps = Inr prevouts \<Longrightarrow> prevouts = List.map_filter witness_utxo inps"
  by (induction inps arbitrary: prevouts) (auto simp: and_then_Inr List.map_filter_def ok_or_def split: option.splits)

lemma sign_psbt_scoped_Inr:
  assumes "sign_psbt_scoped lib km raw (Some account) = Inr (out, n)"
  obtains p p' where "psbt_deserialize lib raw = Some p" "out = psbt_serialize lib p'"
    "signs_account lib km account p p'" "n = length (account_jobs lib km p account)"
proof -
  obtain p p' where p: "psbt_deserialize lib raw = Some p" "out = psbt_serialize lib p'"
      "sign_taproot_inputs lib km p (filter (\<lambda>job. job_account job = account) (find_taproot_sign_jobs lib km p)) = Inr (p', n)"
    using assms by (auto simp: sign_psbt_scoped_def Let_def and_then_Inr)
  let ?jobs = "account_jobs lib km p account"
  have jobs: "filter (\<lambda>job. job_account job = account) (find_taproot_sign_jobs lib km p) = ?jobs"
    by (simp add: find_taproot_sign_jobs_def account_jobs_def conj_commute)
  have d: "distinct (map input_index ?jobs)"
    unfolding account_jobs_def by (rule distinct_map_filter) (rule controlled_distinct)
  have r: "input_index job < length (psbt_inputs p)" if "job \<in> set ?jobs" for job
    using that controlled_in_range by (auto simp: account_jobs_def)
  have "signs_account lib km account p p' \<and> n = length ?jobs"
  proof (cases "?jobs = []")
    case True
    then show ?thesis using p(3) unfolding jobs by (simp add: sign_taproot_inputs_def signs_account_def)
  next
    case False
    then obtain prevouts where prev: "collect_map (\<lambda>inp. ok_or (witness_utxo inp) (Signing ''missing witness_utxo for taproot''))
        (psbt_inputs p) = Inr prevouts" "sign_jobs lib km (psbt_unsigned_tx p) prevouts p ?jobs = Inr p'" "n = length ?jobs"
      using p(3) unfolding jobs by (auto simp: sign_taproot_inputs_def and_then_Inr)
    show ?thesis
      using sign_jobs_Inr [OF prev(2) d r] prev(3) unfolding collect_witness_utxos [OF prev(1)] signs_account_def by blast
  qed
  then show thesis using that p(1,2) by blast
qed

subsection \<open>What leaves custody\<close>

definition sats_on :: "tx_out list \<Rightarrow> bytes \<Rightarrow> nat" where
  "sats_on outs spk = sum_list (map (unat \<circ> out_value) (filter (\<lambda>out. script_pubkey out = spk) outs))"

lemma sats_on_Nil [simp]: "sats_on [] spk = 0"
  by (simp add: sats_on_def)

lemma sats_on_Cons [simp]:
  "sats_on (out # outs) spk = (if script_pubkey out = spk then unat (out_value out) else 0) + sats_on outs spk"
  by (simp add: sats_on_def)

definition room_of :: "(bytes \<times> u64) list \<Rightarrow> bytes \<Rightarrow> nat" where
  "room_of room spk = (case map_of room spk of None \<Rightarrow> 0 | Some r \<Rightarrow> unat r)"

lemma room_of_update: "room_of (AList.update k v room) spk = (if spk = k then unat v else room_of room spk)"
  by (simp add: room_of_def update_conv')

lemma input_room_exact:
  "input_room scripts room utxos = Some room' \<Longrightarrow>
    room_of room' spk = room_of room spk + (if spk \<in> scripts then sats_on utxos spk else 0)"
proof (induction scripts room utxos arbitrary: room' rule: input_room.induct)
  case (2 scripts room utxo utxos)
  show ?case
  proof (cases "script_pubkey utxo \<in> scripts")
    case True
    then obtain r where "checked_add (unwrap_or (map_of room (script_pubkey utxo)) 0) (out_value utxo) = Some r"
        "input_room scripts (AList.update (script_pubkey utxo) r room) utxos = Some room'"
      using "2.prems" by (auto simp: Let_def bind_eq_Some_conv)
    moreover have "unat (unwrap_or (map_of room (script_pubkey utxo)) 0) = room_of room (script_pubkey utxo)"
      by (simp add: room_of_def unwrap_or_def split: option.split)
    ultimately show ?thesis using "2.IH"(1) [OF refl True] True by (auto simp: room_of_update checked_add_Some)
  next
    case False
    then show ?thesis using "2.IH"(2) [OF refl False] "2.prems" by auto
  qed
qed simp

text \<open>The outputs that no key of the enclave derives, and the value they pay beyond what the inputs on
  the same exempt script bring in.\<close>

definition foreign_outputs :: "(nat \<Rightarrow> bool) \<Rightarrow> (nat \<times> tx_out) list \<Rightarrow> tx_out list" where
  "foreign_outputs derived outs = map snd (filter (\<lambda>(i, _). \<not> derived i) outs)"

definition leaving :: "(bytes \<Rightarrow> nat) \<Rightarrow> tx_out list \<Rightarrow> nat" where
  "leaving room outs = (\<Sum>spk \<in> script_pubkey ` set outs. sats_on outs spk - room spk)"

lemma sats_on_zero: "spk \<notin> script_pubkey ` set outs \<Longrightarrow> sats_on outs spk = 0"
  by (induction outs) auto

lemma leaving_superset:
  assumes "finite A" "script_pubkey ` set outs \<subseteq> A"
  shows "leaving room outs = (\<Sum>spk \<in> A. sats_on outs spk - room spk)"
  unfolding leaving_def using assms by (intro sum.mono_neutral_left) (auto simp: sats_on_zero)

lemma leaving_Cons:
  assumes "\<And>spk. spk \<noteq> script_pubkey out \<Longrightarrow> room' spk = room spk"
    "room' (script_pubkey out) = room (script_pubkey out) - unat (out_value out)"
  shows "leaving room (out # outs) = (unat (out_value out) - room (script_pubkey out)) + leaving room' outs"
proof -
  let ?s = "script_pubkey out" and ?A = "insert (script_pubkey out) (script_pubkey ` set outs)"
  have A: "finite ?A" "script_pubkey ` set (out # outs) \<subseteq> ?A" "script_pubkey ` set outs \<subseteq> ?A" by auto
  have split: "(\<Sum>spk \<in> ?A. f spk) = f ?s + (\<Sum>spk \<in> ?A - {?s}. f spk)" for f :: "bytes \<Rightarrow> nat"
    by (rule sum.remove) simp_all
  have "(\<Sum>spk \<in> ?A - {?s}. sats_on (out # outs) spk - room spk) = (\<Sum>spk \<in> ?A - {?s}. sats_on outs spk - room' spk)"
    using assms(1) by (intro sum.cong) auto
  moreover have "sats_on (out # outs) ?s - room ?s = (unat (out_value out) - room ?s) + (sats_on outs ?s - room' ?s)"
    using assms(2) by simp
  ultimately show ?thesis
    unfolding leaving_superset [OF A(1,2)] leaving_superset [OF A(1,3)] split by simp
qed

lemma unowned_sum_exact:
  "unowned_sum derived room unowned outs = Some n \<Longrightarrow>
    unat n = unat unowned + leaving (room_of room) (foreign_outputs derived outs)"
proof (induction derived room unowned outs arbitrary: n rule: unowned_sum.induct)
  case (1 derived room unowned)
  then show ?case by (simp add: foreign_outputs_def leaving_def)
next
  case (2 derived room unowned index txout outs)
  let ?spk = "script_pubkey txout" and ?rest = "foreign_outputs derived outs"
  show ?case
  proof (cases "derived index")
    case True
    then show ?thesis using "2.IH"(1) "2.prems" by (simp add: foreign_outputs_def)
  next
    case False
    then have fo: "foreign_outputs derived ((index, txout) # outs) = txout # ?rest"
      by (simp add: foreign_outputs_def)
    show ?thesis
    proof (cases "map_of room ?spk")
      case None
      then obtain u where u: "checked_add unowned (out_value txout) = Some u" "unowned_sum derived room u outs = Some n"
        using "2.prems" False by (auto simp: Let_def bind_eq_Some_conv)
      have z: "room_of room ?spk = 0" using None by (simp add: room_of_def)
      have "unat u = unat unowned + unat (out_value txout)" using u(1) unfolding checked_add_Some by blast
      then show ?thesis
        using "2.IH"(2) [OF False refl refl None u] z leaving_Cons [of txout "room_of room" "room_of room" ?rest]
        unfolding fo by linarith
    next
      case (Some r)
      let ?e = "min (out_value txout) r"
      obtain u where u: "checked_add unowned (out_value txout - ?e) = Some u"
          "unowned_sum derived (AList.update ?spk (r - ?e) room) u outs = Some n"
        using "2.prems" False Some by (auto simp: Let_def bind_eq_Some_conv)
      have r: "room_of room ?spk = unat r" using Some by (simp add: room_of_def)
      have diff: "unat (out_value txout - ?e) = unat (out_value txout) - unat r" "unat (r - ?e) = unat r - unat (out_value txout)"
        by (auto simp: min_def unat_sub word_le_nat_alt)
      have "leaving (room_of room) (txout # ?rest) = (unat (out_value txout) - unat r) +
          leaving (room_of (AList.update ?spk (r - ?e) room)) ?rest"
        using leaving_Cons [of txout "room_of (AList.update ?spk (r - ?e) room)" "room_of room" ?rest] r diff(2)
        by (simp add: room_of_update)
      moreover have "unat u = unat unowned + (unat (out_value txout) - unat r)"
        using u(1) diff(1) unfolding checked_add_Some by linarith
      ultimately show ?thesis
        using "2.IH"(3) [OF False refl refl Some refl u] unfolding fo by linarith
    qed
  qed
qed

lemma unowned_output_sats_exact:
  assumes "unowned_output_sats lib p scripts km = Some n"
  shows "unat n = leaving (\<lambda>spk. if spk \<in> scripts then sats_on (List.map_filter witness_utxo (psbt_inputs p)) spk else 0)
    (foreign_outputs (\<lambda>i. output_is_self_derived lib p i km None) (enumerate 0 (tx_output (psbt_unsigned_tx p))))"
proof -
  obtain room where room: "input_room scripts [] (List.map_filter witness_utxo (psbt_inputs p)) = Some room"
      "unowned_sum (\<lambda>i. output_is_self_derived lib p i km None) room 0 (enumerate 0 (tx_output (psbt_unsigned_tx p))) = Some n"
    using assms by (auto simp: unowned_output_sats_def bind_eq_Some_conv)
  have "room_of [] spk = 0" for spk by (simp add: room_of_def)
  then have "room_of room = (\<lambda>spk. if spk \<in> scripts then sats_on (List.map_filter witness_utxo (psbt_inputs p)) spk else 0)"
    using input_room_exact [OF room(1)] by auto
  then show ?thesis using unowned_sum_exact [OF room(2)] by simp
qed

subsection \<open>What the plain-BTC path signs\<close>

lemma parse_psbt_shape_Inr:
  "parse_psbt_shape lib raw = Inr p \<Longrightarrow> psbt_deserialize lib raw = Some p"
  by (auto simp: parse_psbt_shape_def and_then_Inr)

lemma total_input_sats_Inr:
  "total_input_sats acc inps = Inr n \<Longrightarrow>
    unat n = unat acc + sum_list (map (unat \<circ> out_value) (List.map_filter witness_utxo inps))"
proof (induction acc inps arbitrary: n rule: total_input_sats.induct)
  case (2 acc inp rest)
  then obtain utxo acc' where u: "witness_utxo inp = Some utxo" "checked_add acc (out_value utxo) = Some acc'"
      "total_input_sats acc' rest = Inr n"
    by (auto simp: and_then_Inr)
  have "unat acc' = unat acc + unat (out_value utxo)" using u(2) unfolding checked_add_Some by blast
  moreover have "unat n = unat acc' + sum_list (map (unat \<circ> out_value) (List.map_filter witness_utxo rest))"
    by (rule "2.IH" [OF _ _ u(3), of utxo]) (use u(1,2) in \<open>simp_all add: ok_or_def\<close>)
  ultimately show ?case using u(1) by (simp add: map_filter_simps comp_def)
qed (simp add: List.map_filter_def)

lemma check_psbt_fee_Inr:
  assumes "check_psbt_fee lib p inputs = Inr u"
  shows "\<exists>fee. psbt_fee lib p = Some fee \<and> unat fee \<le> 100000 \<and> unat fee \<le> 200 * tx_vsize lib (psbt_unsigned_tx p)"
proof -
  let ?v = "of_nat (tx_vsize lib (psbt_unsigned_tx p)) :: u64"
  obtain fee m where f: "psbt_fee lib p = Some fee" "\<not> MAX_FEE_SATS < fee" "checked_mul ?v MAX_FEE_RATE_SAT_VB = Some m"
      "\<not> m < fee"
    using assms by (auto simp: check_psbt_fee_def Let_def and_then_Inr split: if_splits)
  have "unat ?v * 200 < 2 ^ 64" "m = ?v * 200"
    using f(3) by (auto simp: checked_mul_def MAX_FEE_RATE_SAT_VB_def split: if_splits)
  then have "unat m = unat ?v * 200" using unat_mult_lem [of ?v 200] by simp
  moreover have "unat ?v \<le> tx_vsize lib (psbt_unsigned_tx p)" by (simp add: unat_of_nat)
  ultimately show ?thesis using f(1,2,4) by (auto simp: word_less_nat_alt MAX_FEE_SATS_def)
qed

text \<open>The value limits of the plain-BTC path on a transaction and a key.\<close>

definition within_btc_limits :: "('xp, 'sk) psbt_lib \<Rightarrow> bridge_config \<Rightarrow> 'xp key_manager \<Rightarrow> psbt \<Rightarrow> bool" where
  "within_btc_limits lib cfg km p \<longleftrightarrow>
    (let utxos = List.map_filter witness_utxo (psbt_inputs p);
         ours = self_controlled_input_scripts_scoped lib p km (Some Vanilla) in
     sum_list (map (unat \<circ> out_value) utxos) \<le> unat (btc_max_total_sats cfg) \<and>
     leaving (\<lambda>spk. if spk \<in> ours then sats_on utxos spk else 0)
       (foreign_outputs (\<lambda>i. output_is_self_derived lib p i km None) (enumerate 0 (tx_output (psbt_unsigned_tx p))))
       \<le> unat (btc_max_unowned_sats cfg) \<and>
     (\<exists>fee. psbt_fee lib p = Some fee \<and> unat fee \<le> 100000 \<and> unat fee \<le> 200 * tx_vsize lib (psbt_unsigned_tx p)))"

lemma validate_btc_request_Inr:
  assumes "validate_btc_request lib b raw cfg km = Inr u" "strict_build b"
  obtains p where "psbt_deserialize lib raw = Some p" "within_btc_limits lib cfg km p"
proof -
  obtain p spent unowned where v: "parse_psbt_shape lib raw = Inr p" "total_input_sats 0 (psbt_inputs p) = Inr spent"
      "unowned_output_sats lib p (self_controlled_input_scripts_scoped lib p km (Some Vanilla)) km = Some unowned"
      "check_unowned_budget b cfg unowned = Inr ()"
      "check_psbt_fee lib p (fee_key_path_inputs_of (find_controlled_taproot_inputs lib km p) Vanilla) = Inr ()"
      "check_total_cap b cfg spent = Inr ()"
    using assms(1) by (auto simp: validate_btc_request_def self_controlled_input_scripts_scoped_def Let_def and_then_Inr)
  have "spent \<le> btc_max_total_sats cfg"
    using v(6) assms(2) by (auto simp: check_total_cap_def split: if_splits)
  moreover have "unowned \<le> btc_max_unowned_sats cfg"
    using v(4) assms(2) by (auto simp: check_unowned_budget_def word_gt_0 split: if_splits)
  ultimately have "within_btc_limits lib cfg km p"
    using total_input_sats_Inr [OF v(2)] unowned_output_sats_exact [OF v(3)] check_psbt_fee_Inr [OF v(5)]
    by (simp add: within_btc_limits_def Let_def word_le_nat_alt)
  then show thesis using that parse_psbt_shape_Inr [OF v(1)] by blast
qed

definition keys_stable :: "('n, 'km, 'p) signer_env \<Rightarrow> bool" where
  "keys_stable env \<longleftrightarrow>
    (\<forall>w km. phase (w_enclave w) = Active km \<longrightarrow> phase (w_enclave (interfere env w)) = Active km)"

lemma on_enclave_active:
  assumes "on_enclave env (\<lambda>st now. (with_active st f, st)) w = (Inr x, w')"
  obtains km where "phase (w_enclave w') = Active km" "f km = Inr x" "w' = interfere env w"
proof -
  define v where "v = interfere env w"
  have "with_active (w_enclave v) f = Inr x" "w' = v"
    using assms unfolding v_def [symmetric] on_enclave_def Let_def by (simp, auto)
  then show thesis using that by (auto simp: with_active_def v_def split: phase.splits)
qed

text \<open>C17: What the plain-BTC path signs, in a release or RGB build whose other workers do not replace
  active keys. The policy of the launch permits it. The answer is the PSBT of the request with
  signatures on the enclave's own, unsigned, Vanilla inputs only (at least one) and no other change.
  The inputs together are worth at most the pinned cap; the outputs that no key of the enclave
  derives pay at most the pinned budget beyond what the enclave's inputs on the same script bring
  in; and the fee is at most 100000 sat and 200 sat for each unsigned vbyte.\<close>

theorem plain_btc_within_limits:
  assumes "strict_build (sg_build env)" "keys_stable env"
    and "handle_sign_btc env lib raw w = (Inr response, w')"
  shows "\<exists>l p p' km. sg_launch env = Some l \<and> vanilla_permitted l = Inr () \<and>
    psbt_deserialize lib raw = Some p \<and> phase (w_enclave w') = Active km \<and>
    within_btc_limits lib (sg_config env) km p \<and> signs_account lib km Vanilla p p' \<and>
    account_jobs lib km p Vanilla \<noteq> [] \<and>
    response = SignedPsbt \<lparr>signed_psbt = psbt_serialize lib p',
      inputs_signed = of_nat (length (account_jobs lib km p Vanilla))\<rparr>"
proof -
  obtain l out n w1 where h: "sg_launch env = Some l" "vanilla_permitted l = Inr ()"
      "on_enclave env (\<lambda>st now. (with_active st (validate_btc_request lib (sg_build env) raw (sg_config env)), st)) w = (Inr (), w1)"
      "on_enclave env (\<lambda>st now. (with_active st (\<lambda>km. sign_psbt_scoped lib km raw (Some Vanilla)), st)) w1 = (Inr (out, n), w')"
      "n \<noteq> 0" "response = SignedPsbt \<lparr>signed_psbt = out, inputs_signed = of_nat n\<rparr>"
    using assms(3) unfolding handle_sign_btc_def
    by (elim rpc_then_InrE) (auto simp: launched_def split: if_splits)
  obtain km where km: "phase (w_enclave w1) = Active km" "validate_btc_request lib (sg_build env) raw (sg_config env) km = Inr ()"
    using on_enclave_active [OF h(3)] by blast
  obtain km' where km': "phase (w_enclave w') = Active km'" "sign_psbt_scoped lib km' raw (Some Vanilla) = Inr (out, n)"
      "w' = interfere env w1"
    using on_enclave_active [OF h(4)] by blast
  have same: "km' = km" using assms(2) km(1) km'(1,3) by (auto simp: keys_stable_def)
  obtain p where p: "psbt_deserialize lib raw = Some p" "within_btc_limits lib (sg_config env) km p"
    using validate_btc_request_Inr [OF km(2) assms(1)] .
  obtain p' where "out = psbt_serialize lib p'" "signs_account lib km Vanilla p p'"
      "n = length (account_jobs lib km p Vanilla)"
    using sign_psbt_scoped_Inr [OF km'(2)] p(1) same by (metis option.inject)
  then show ?thesis using h(1,2,5,6) p km'(1) same by auto
qed

subsection \<open>A concrete request\<close>

definition demo_psbt_lib :: "(unit, unit) psbt_lib" where
  "demo_psbt_lib = \<lparr>psbt_deserialize = (\<lambda>_. None), psbt_serialize = (\<lambda>_. [2]), compute_txid = (\<lambda>_. replicate 32 1),
    psbt_fee = (\<lambda>_. Some 1000), tx_vsize = (\<lambda>_. 100), tx_base_size = (\<lambda>_. 100), witness_bytes = (\<lambda>_. 0),
    funding_utxos = (\<lambda>p. map witness_utxo (psbt_inputs p)), is_p2tr = (\<lambda>spk. hd spk = 0x51), is_p2wpkh = (\<lambda>_. False),
    is_p2wsh = (\<lambda>_. False), is_op_return = (\<lambda>spk. hd spk = 0x6a), is_witness_program = (\<lambda>spk. hd spk = 0x51),
    to_p2wsh = id, xonly_key = (\<lambda>k. Some [7]), compressed_key = (\<lambda>_. None), tap_tweak = (\<lambda>k _. k),
    new_p2tr_tweaked = (\<lambda>_. 0x51 # replicate 33 5), verify_taproot_commitment = (\<lambda>_ _ _. False),
    derive_priv = (\<lambda>_ _. Some ()), xonly_of_secret = (\<lambda>_. [7]), taproot_sighash = (\<lambda>_ _ _ _. Some [3]),
    sign_schnorr = (\<lambda>_ _ h. h)\<rparr>"

definition demo_path :: "u32 \<Rightarrow> child_number list" where
  "demo_path coin = [HardenedChild 86, HardenedChild coin, HardenedChild 0, NormalChild 0, NormalChild 0]"

definition demo_origins :: "u32 \<Rightarrow> key_origins" where
  "demo_origins coin = [([7], [], [1, 2, 3, 4], demo_path coin)]"

definition demo_keys :: "unit key_manager" where
  "demo_keys = \<lparr>master_fingerprint = [1, 2, 3, 4], account_xpriv_vanilla = (), account_xpriv_colored = (),
    vanilla_coin_type = 1, colored_coin_type = 827167\<rparr>"

definition demo_input :: "u32 \<Rightarrow> psbt_input" where
  "demo_input coin = \<lparr>witness_utxo = Some \<lparr>out_value = 50000, script_pubkey = 0x51 # replicate 33 5\<rparr>,
    non_witness_utxo = None, sighash_type = None, tap_key_sig = None, tap_internal_key = Some [7],
    tap_key_origins = demo_origins coin, tap_merkle_root = None, tap_scripts = [], witness_script = None,
    final_script_sig = None, final_script_witness = None\<rparr>"

definition demo_btc :: psbt where
  "demo_btc = \<lparr>psbt_unsigned_tx = \<lparr>tx_version = 2, tx_lock_time = 0,
      tx_input = [\<lparr>previous_output = (replicate 32 9, 0), txin_script_sig = [], txin_witness = []\<rparr>],
      tx_output = [\<lparr>out_value = 49000, script_pubkey = 0x51 # replicate 33 5\<rparr>]\<rparr>,
    psbt_inputs = [demo_input 1],
    psbt_outputs = [\<lparr>po_tap_tree = None, po_tap_internal_key = Some [7], po_tap_key_origins = demo_origins 1\<rparr>]\<rparr>"

definition demo_btc_lib :: "(unit, unit) psbt_lib" where
  "demo_btc_lib = demo_psbt_lib\<lparr>psbt_deserialize := (\<lambda>_. Some demo_btc)\<rparr>"

lemmas demo_btc_defs = demo_btc_lib_def demo_psbt_lib_def demo_path_def demo_origins_def demo_keys_def demo_input_def
  demo_btc_def

lemma demo_controlled:
  "find_controlled_taproot_inputs demo_btc_lib demo_keys demo_btc =
    [\<lparr>input_index = 0, xonly_pubkey = [7], job_merkle_root = None, job_account = Vanilla,
      job_child_path = [NormalChild 0, NormalChild 0]\<rparr>]"
  by (simp add: find_controlled_taproot_inputs_def controlled_job_def key_path_job_def demo_btc_defs
      resolve_account_and_child_path_def derive_btc_child_def map_filter_simps numeral_3_eq_3 numeral_2_eq_2)

lemma demo_btc_total: "total_input_sats 0 (psbt_inputs demo_btc) = Inr 50000"
  by (simp add: demo_btc_def demo_input_def checked_add_def)

lemma demo_btc_derived: "output_is_self_derived demo_btc_lib demo_btc 0 demo_keys None"
  by (simp add: output_is_self_derived_def derived_output_def demo_btc_defs resolve_account_and_child_path_def
      derive_btc_child_def is_wallet_child_path_def VANILLA_KEYCHAINS_def numeral_3_eq_3 numeral_2_eq_2)

lemma demo_btc_unowned: "unowned_output_sats demo_btc_lib demo_btc scripts demo_keys = Some 0"
proof -
  have "\<exists>room. input_room scripts [] (List.map_filter witness_utxo (psbt_inputs demo_btc)) = Some room"
    by (simp add: demo_btc_def demo_input_def map_filter_simps checked_add_def unwrap_or_def Let_def)
  then show ?thesis
    using demo_btc_derived by (auto simp: unowned_output_sats_def demo_btc_def)
qed

lemma demo_btc_fee: "check_psbt_fee demo_btc_lib demo_btc [0] = Inr ()"
proof -
  have "estimated_signed_vsize demo_btc_lib demo_btc [0] = Inr 117"
    by (simp add: estimated_signed_vsize_def demo_btc_defs checked_mul_def checked_add_def input_size_def spend_size_def
        taproot_witness_size_def witness_size_def item_size_def compact_size_def)
  moreover have "psbt_fee demo_btc_lib demo_btc = Some 1000" "tx_vsize demo_btc_lib (psbt_unsigned_tx demo_btc) = 100"
    by (simp_all add: demo_btc_lib_def demo_psbt_lib_def)
  ultimately show ?thesis
    by (simp add: check_psbt_fee_def checked_mul_def MAX_FEE_SATS_def MAX_FEE_RATE_SAT_VB_def MIN_FEE_RATE_SAT_VB_def)
qed

definition demo_sign_libs :: "('n, 'xp key_manager, unit) signer_libs" where
  "demo_sign_libs = \<lparr>keccak256 = demo_keccak, sha256 = demo_keccak, sha256d = demo_keccak, btc = demo_lib,
    serialize_header = (\<lambda>_. []),
    alloy = \<lparr>abi_decode_funds_out = (\<lambda>_. None), abi_encode_funds_out = (\<lambda>_. []),
      abi_decode_lz_funds_out = (\<lambda>_. None), abi_encode_lz_funds_out = (\<lambda>_. []),
      abi_decode_settlement = (\<lambda>_. None), abi_encode_settlement = concat, eip712_hash_struct = (\<lambda>_ _ _. [])\<rparr>,
    reject_abi = \<lparr>length_call = [], decode_length = (\<lambda>_. None), entries_call = (\<lambda>_ _. []), decode_entries = (\<lambda>_. None)\<rparr>,
    ts_burn = 9, chain_net_prefix = (\<lambda>_. ''bcrt''), witness_pos = (\<lambda>_ _. Some ()), encode_to_vec = (\<lambda>_. []),
    invoice_seal = (\<lambda>_. None), psbt_input_count = (\<lambda>_. Some 1), sign_evm = (\<lambda>_ digest. Inr digest),
    sign_evm_gas_tx = (\<lambda>_ digest. Inr digest), sign_ccd = (\<lambda>_ hash. Inr (hash, [])),
    sign_psbt_colored = (\<lambda>_ psbt. Inr (psbt, 1))\<rparr>"

definition demo_btc_env :: "(unit, unit key_manager, unit) signer_env" where
  "demo_btc_env = \<lparr>sg_build = \<lparr>b_evm_to_rgb = True, b_rgb_to_evm = False, b_rgb_validation = True, b_spv = True,
      b_bfa_mint = True, b_evm_rpc = True, b_ccd = False, b_debug_assertions = False\<rparr>,
    sg_config = bridge_config_default\<lparr>btc_max_total_sats := 60000, btc_max_unowned_sats := 5\<rparr>,
    sg_launch = Some \<lparr>launch_policy = DevelopmentPolicy IndexerTrusted, rgb_validator = None, evm_rpc_client = None\<rparr>,
    sg_libs = demo_sign_libs, interfere = id, system_now = (\<lambda>_. 0), instant_now = (\<lambda>_. 0)\<rparr>"

definition demo_btc_world :: "(unit, unit key_manager) world" where
  "demo_btc_world = \<lparr>w_node = (), w_chain = demo_chain0, w_enclave = (enclave_state_new 0 0)\<lparr>phase := Active demo_keys\<rparr>\<rparr>"

lemma demo_btc_signs:
  "\<exists>response. handle_sign_btc demo_btc_env demo_btc_lib [1] demo_btc_world = (Inr response, demo_btc_world)"
proof -
  have p: "psbt_deserialize demo_btc_lib raw = Some demo_btc" for raw by (simp add: demo_btc_lib_def)
  have size: "check_psbt_size [1] = Inr ()" by (simp add: check_psbt_size_def MAX_PSBT_BYTES_def)
  have shape: "parse_psbt_shape demo_btc_lib [1] = Inr demo_btc"
    using size by (simp add: parse_psbt_shape_def p) (simp add: demo_btc_def)
  have paid: "tx_output (psbt_unsigned_tx demo_btc) \<noteq> []" by (simp add: demo_btc_def)
  have v: "validate_btc_request demo_btc_lib (sg_build demo_btc_env) [1] (sg_config demo_btc_env) demo_keys = Inr ()"
    using paid by (simp add: validate_btc_request_def shape demo_btc_total demo_btc_unowned demo_controlled
        fee_key_path_inputs_of_def demo_btc_fee check_unowned_budget_def check_total_cap_def demo_btc_env_def)
  have "\<exists>out. sign_psbt_scoped demo_btc_lib demo_keys [1] (Some Vanilla) = Inr (out, 1)"
    by (simp add: sign_psbt_scoped_def size p find_taproot_sign_jobs_def demo_controlled sign_taproot_inputs_def)
      (simp add: demo_btc_defs sign_job_def tap_sighash_def unwrap_or_def derive_btc_child_def)
  then obtain out where s: "sign_psbt_scoped demo_btc_lib demo_keys [1] (Some Vanilla) = Inr (out, 1)" by blast
  have env: "launched demo_btc_env = Inr \<lparr>launch_policy = DevelopmentPolicy IndexerTrusted, rgb_validator = None, evm_rpc_client = None\<rparr>"
      "interfere demo_btc_env = id" "phase (w_enclave demo_btc_world) = Active demo_keys"
    by (simp_all add: launched_def demo_btc_env_def demo_btc_world_def)
  show ?thesis
    by (simp add: handle_sign_btc_def env rpc_then_def vanilla_permitted_def on_enclave_def with_active_def v s)
qed

theorem plain_btc_within_limits_witness:
  "within_btc_limits demo_btc_lib (sg_config demo_btc_env) demo_keys demo_btc \<and>
   (\<exists>p'. signs_account demo_btc_lib demo_keys Vanilla demo_btc p')"
proof -
  obtain response where r: "handle_sign_btc demo_btc_env demo_btc_lib [1] demo_btc_world = (Inr response, demo_btc_world)"
    using demo_btc_signs by blast
  have "strict_build (sg_build demo_btc_env)" "keys_stable demo_btc_env"
    by (simp_all add: strict_build_def keys_stable_def demo_btc_env_def)
  from plain_btc_within_limits [OF this r] show ?thesis
    by (auto simp: demo_btc_lib_def demo_btc_world_def)
qed

end
