(* ===== verification/Mint_Rules.thy ===== *)
theory Mint_Rules
  imports Btc_Signing
begin

text \<open>
  The mint signer's rules on a PSBT and the fascia that \<open>rgb-lib\<close> writes for its transaction: the one
  transition that a transaction commits (\<open>enclave/src/networks/rgb/psbt_commit.rs\<close>), the proof of the
  right that it spends (\<open>parent_proof.rs\<close>), the rules of a mint and of a rights refill
  (\<open>psbt_validation.rs\<close>, \<open>psbt_validation/mint.rs\<close>, \<open>psbt_validation/refill.rs\<close>), their order
  (\<open>networks/rgb/route.rs\<close>) and the handler of a refill (\<open>server/rights_refill.rs\<close>).

  The records hold the fields of the RGB crates that the code reads; decoding, ids, commitments and
  the type numbers of the schema are the record \<open>rgb_lib\<close>.
\<close>

subsection \<open>Transitions\<close>

record rgb_opout =
  oo_op :: bytes
  oo_ty :: u16
  oo_no :: u16

datatype builder_seal = RevealedSeal "bytes option" u32 | ConcealedSeal string

text \<open>The code reads the legs of fungible assignments and asks whether assignments are declarative;
  of every other kind it reads the seals.\<close>

datatype typed_assigns =
  Declarative "builder_seal list"
| Fungible "(builder_seal \<times> u64) list"
| OtherAssigns "builder_seal list"

fun assign_seals :: "typed_assigns \<Rightarrow> builder_seal list" where
  "assign_seals (Declarative seals) = seals"
| "assign_seals (Fungible legs) = map fst legs"
| "assign_seals (OtherAssigns seals) = seals"

fun as_fungible :: "typed_assigns \<Rightarrow> (builder_seal \<times> u64) list" where
  "as_fungible (Fungible legs) = legs"
| "as_fungible _ = []"

record rgb_transition =
  rt_type :: u16
  rt_contract_id :: bytes
  rt_inputs :: "rgb_opout list"
  rt_assignments :: "(u16 \<times> typed_assigns) list"
  rt_globals :: "(u16 \<times> bytes list) list"
  rt_metadata :: "(u16 \<times> bytes) list"

record transition_bundle =
  known_transitions :: "(bytes \<times> rgb_transition) list"
  input_map :: "(rgb_opout \<times> bytes) list"

record rgb_fascia =
  fa_witness_id :: bytes
  fa_tx :: btc_tx
  fa_entropy :: "u64 option"
  fa_bundles :: "(bytes \<times> transition_bundle) list"

record rgb_lib =
  fascia_decode :: "bytes \<Rightarrow> rgb_fascia option"
  contract_from_str :: "string \<Rightarrow> bytes option"
  contract_to_string :: "bytes \<Rightarrow> string"
  transition_id :: "rgb_transition \<Rightarrow> bytes"
  bundle_id :: "transition_bundle \<Rightarrow> bytes"
  mpc_commit :: "(bytes \<times> bytes) list \<Rightarrow> u64 \<Rightarrow> bytes option"
  opret_verify :: "bytes \<Rightarrow> btc_tx \<Rightarrow> bool"
  lock_id_with :: "bytes \<Rightarrow> bytes \<Rightarrow> bytes"
  TS_MINT :: u16
  TS_PROPAGATE :: u16
  OS_MINT :: u16
  OS_ASSET :: u16
  GS_ISSUED_SUPPLY :: u16
  MS_BEFORE_BLOCK :: u16

definition to_output_seal :: "builder_seal \<Rightarrow> output_seal" where
  "to_output_seal seal =
    (case seal of
       RevealedSeal txid vout \<Rightarrow> Revealed (map_option rev txid) vout
     | ConcealedSeal secret \<Rightarrow> Confidential secret)"

definition single_global :: "nat \<Rightarrow> (u16 \<times> bytes list) list \<Rightarrow> u16 \<Rightarrow> bytes option enclave_result" where
  "single_global n globals ty =
    (case map_of globals ty of
       None \<Rightarrow> Inr None
     | Some [value] \<Rightarrow> and_then (require (length value = n) (CrossCheck ''global has an unexpected length'')) (\<lambda>_. Inr (Some value))
     | Some _ \<Rightarrow> Inl (CrossCheck ''settling transition carries several values of a global''))"

subsection \<open>The transition that a transaction commits\<close>

record committed_tr =
  cm_txid :: bytes
  cm_opid :: bytes
  cm_transition :: rgb_transition

definition pinned_contract :: "rgb_lib \<Rightarrow> bridge_config \<Rightarrow> bytes enclave_result" where
  "pinned_contract rgb cfg =
    and_then (require (rgb_asset_id cfg \<noteq> []) (CrossCheck ''asset-identity pin missing'')) (\<lambda>_.
    ok_or (contract_from_str rgb (rgb_asset_id cfg)) (CrossCheck ''RGB_ASSET_ID is not a contract id''))"

definition parse_fascia :: "rgb_lib \<Rightarrow> bytes \<Rightarrow> rgb_fascia enclave_result" where
  "parse_fascia rgb raw =
    and_then (require (raw \<noteq> []) (CrossCheck ''fascia required'')) (\<lambda>_.
    and_then (check_psbt_size raw) (\<lambda>_.
    and_then (require (length raw \<le> 0xFFFFFF) (CrossCheck ''fascia is too large'')) (\<lambda>_.
    ok_or (fascia_decode rgb raw) (CrossCheck ''not an rgb-lib fascia''))))"

definition assert_opret_host :: "('xp, 'sk) psbt_lib \<Rightarrow> btc_tx \<Rightarrow> unit enclave_result" where
  "assert_opret_host lib tx =
    (case find (\<lambda>out. is_op_return lib (script_pubkey out) \<or> is_p2tr lib (script_pubkey out)) (tx_output tx) of
       Some out \<Rightarrow> require (is_op_return lib (script_pubkey out)) (CrossCheck ''P2TR output before the OP_RETURN'')
     | None \<Rightarrow> Inl (CrossCheck ''tx has no OP_RETURN output''))"

definition pinned_bundle :: "(bytes \<times> transition_bundle) list \<Rightarrow> bytes \<Rightarrow> transition_bundle enclave_result" where
  "pinned_bundle bundles pin =
    (case bundles of
       [(cid, bundle)] \<Rightarrow>
         (if cid = pin then Inr bundle else Inl (CrossCheck ''the fascia discloses a bundle of another contract''))
     | _ \<Rightarrow> Inl (CrossCheck ''the fascia discloses several contract bundles''))"

definition assert_commits_exactly :: "rgb_lib \<Rightarrow> btc_tx \<Rightarrow> rgb_fascia \<Rightarrow> unit enclave_result" where
  "assert_commits_exactly rgb tx fa =
    and_then (ok_or (fa_entropy fa) (CrossCheck ''the fascia carries no MPC entropy'')) (\<lambda>entropy.
    let messages = map (\<lambda>(cid, bundle). (cid, bundle_id rgb bundle)) (fa_bundles fa) in
    and_then (ok_or (mpc_commit rgb messages entropy) (CrossCheck ''fascia MPC tree'')) (\<lambda>commitment.
    require (opret_verify rgb commitment tx)
      (CrossCheck ''the OP_RETURN does not commit exactly the bundles the fascia discloses'')))"

definition assert_input_map_is :: "transition_bundle \<Rightarrow> rgb_transition \<Rightarrow> bytes \<Rightarrow> unit enclave_result" where
  "assert_input_map_is bundle t ident =
    and_then (require (fst ` set (input_map bundle) = set (rt_inputs t))
      (CrossCheck ''the input map closes seals the transition does not spend'')) (\<lambda>_.
    require (list_all (\<lambda>(_, opid). opid = ident) (input_map bundle))
      (CrossCheck ''the input map assigns a seal to another transition''))"

definition disclosed_transition ::
  "rgb_lib \<Rightarrow> transition_bundle \<Rightarrow> bytes \<Rightarrow> (bytes \<times> rgb_transition) enclave_result" where
  "disclosed_transition rgb bundle pin =
    (case known_transitions bundle of
       [(opid, t)] \<Rightarrow>
         (let ident = transition_id rgb t in
          and_then (require (ident = opid) (CrossCheck ''transition stored under another opid'')) (\<lambda>_.
          and_then (require (rt_contract_id t = pin) (CrossCheck ''transition of another contract'')) (\<lambda>_.
          and_then (assert_input_map_is bundle t ident) (\<lambda>_.
          Inr (ident, t)))))
     | _ \<Rightarrow> Inl (CrossCheck ''the mint signer signs exactly one transition''))"

definition committed_transition ::
  "('xp, 'sk) psbt_lib \<Rightarrow> rgb_lib \<Rightarrow> btc_tx \<Rightarrow> rgb_fascia \<Rightarrow> bytes \<Rightarrow> committed_tr enclave_result" where
  "committed_transition lib rgb tx fa pin =
    (let txid = compute_txid lib tx in
     and_then (require (fa_witness_id fa = txid) (CrossCheck ''the fascia is of another tx'')) (\<lambda>_.
     and_then (assert_opret_host lib tx) (\<lambda>_.
     and_then (pinned_bundle (fa_bundles fa) pin) (\<lambda>bundle.
     and_then (assert_commits_exactly rgb tx fa) (\<lambda>_.
     and_then (disclosed_transition rgb bundle pin) (\<lambda>(opid, t).
     Inr \<lparr>cm_txid = txid, cm_opid = opid, cm_transition = t\<rparr>))))))"

definition single_right_input :: "rgb_lib \<Rightarrow> rgb_transition \<Rightarrow> rgb_opout enclave_result" where
  "single_right_input rgb t =
    (case rt_inputs t of
       [inp] \<Rightarrow> (if oo_ty inp = OS_MINT rgb then Inr inp else Inl (CrossCheck ''must close exactly one mintRight''))
     | _ \<Rightarrow> Inl (CrossCheck ''must close exactly one mintRight''))"

definition witness_vout :: "output_seal \<Rightarrow> u32 enclave_result" where
  "witness_vout seal =
    (case seal of
       Revealed None vout \<Rightarrow> Inr vout
     | Revealed (Some _) _ \<Rightarrow> Inl (CrossCheck ''seal is on another transaction'')
     | Confidential _ \<Rightarrow> Inl (CrossCheck ''seal is blinded''))"

subsection \<open>The parent proof\<close>

definition seal_outpoint :: "builder_seal \<Rightarrow> bytes \<Rightarrow> outpoint option" where
  "seal_outpoint seal witness =
    (case seal of
       RevealedSeal txid vout \<Rightarrow> Some (unwrap_or txid witness, vout)
     | ConcealedSeal _ \<Rightarrow> None)"

definition assert_alone_on :: "committed_tr \<Rightarrow> rgb_opout \<Rightarrow> outpoint \<Rightarrow> unit enclave_result" where
  "assert_alone_on made inp right =
    for_each (\<lambda>(ty, typed). for_each (\<lambda>(no, seal).
        require (\<not> ((ty, no) \<noteq> (oo_ty inp, unat (oo_no inp)) \<and> seal_outpoint seal (cm_txid made) = Some right))
          (CrossCheck ''the parent puts another assignment on the right's UTXO''))
      (enumerate 0 (assign_seals typed))) (rt_assignments (cm_transition made))"

definition right_vout :: "rgb_lib \<Rightarrow> committed_tr \<Rightarrow> rgb_opout \<Rightarrow> u32 enclave_result" where
  "right_vout rgb made inp =
    (let t = cm_transition made in
     and_then (require (\<not> (oo_op inp \<noteq> cm_opid made \<or> oo_ty inp \<noteq> OS_MINT rgb))
       (CrossCheck ''parent_fascia did not make the mintRight'')) (\<lambda>_.
     and_then (require (rt_type t = TS_PROPAGATE rgb) (CrossCheck ''the spent right was not made by a propagate'')) (\<lambda>_.
     and_then (single_right_input rgb t) (\<lambda>_.
     and_then (ok_or (Option.bind (map_of (rt_assignments t) (oo_ty inp)) (\<lambda>typed.
         if unat (oo_no inp) < length (assign_seals typed) then Some (assign_seals typed ! unat (oo_no inp)) else None))
       (CrossCheck ''parent transition has no such mintRight'')) (\<lambda>seal.
     and_then (witness_vout (to_output_seal seal)) (\<lambda>vout.
     and_then (assert_alone_on made inp (cm_txid made, vout)) (\<lambda>_.
     Inr vout)))))))"

definition spending_input :: "psbt \<Rightarrow> outpoint \<Rightarrow> nat enclave_result" where
  "spending_input p right =
    (case filter (\<lambda>i. previous_output (tx_input (psbt_unsigned_tx p) ! i) = right) [0 ..< length (tx_input (psbt_unsigned_tx p))] of
       [i] \<Rightarrow> Inr i
     | _ \<Rightarrow> Inl (CrossCheck ''the PSBT does not spend the UTXO of the right''))"

definition right_input ::
  "('xp, 'sk) psbt_lib \<Rightarrow> rgb_lib \<Rightarrow> psbt \<Rightarrow> bytes \<Rightarrow> rgb_opout \<Rightarrow> bytes \<Rightarrow> nat enclave_result" where
  "right_input lib rgb p raw inp pin =
    and_then (parse_fascia rgb raw) (\<lambda>parent.
    and_then (committed_transition lib rgb (fa_tx parent) parent pin) (\<lambda>made.
    and_then (right_vout rgb made inp) (\<lambda>vout.
    spending_input p (cm_txid made, vout))))"

subsection \<open>Rules on the PSBT\<close>

definition assert_native_segwit_inputs :: "('xp, 'sk) psbt_lib \<Rightarrow> psbt \<Rightarrow> unit enclave_result" where
  "assert_native_segwit_inputs lib p =
    for_each (\<lambda>inp.
      and_then (ok_or (witness_utxo inp) (CrossCheck ''PSBT input carries no witness_utxo'')) (\<lambda>utxo.
      require (is_witness_program lib (script_pubkey utxo))
        (CrossCheck ''PSBT input spends a non-native-SegWit output''))) (psbt_inputs p)"

definition assert_sighash_all :: "psbt \<Rightarrow> unit enclave_result" where
  "assert_sighash_all p =
    for_each (\<lambda>inp.
      case sighash_type inp of
        None \<Rightarrow> Inr ()
      | Some raw \<Rightarrow> require (\<not> (raw \<noteq> 0 \<and> raw \<noteq> 1)) (CrossCheck ''non-ALL sighash'')) (psbt_inputs p)"

definition assert_txid_and_sighash_fixed :: "('xp, 'sk) psbt_lib \<Rightarrow> psbt \<Rightarrow> unit enclave_result" where
  "assert_txid_and_sighash_fixed lib p =
    and_then (assert_native_segwit_inputs lib p) (\<lambda>_. assert_sighash_all p)"

definition assert_only_colored_inputs :: "psbt \<Rightarrow> nat list \<Rightarrow> unit enclave_result" where
  "assert_only_colored_inputs p colored =
    (case find (\<lambda>i. i \<notin> set colored) [0 ..< length (psbt_inputs p)] of
       Some _ \<Rightarrow> Inl (CrossCheck ''PSBT input is not a Colored key-path input'')
     | None \<Rightarrow> Inr ())"

definition assert_keeps_all_sats ::
  "('xp, 'sk) psbt_lib \<Rightarrow> psbt \<Rightarrow> 'xp key_manager \<Rightarrow> unit enclave_result" where
  "assert_keeps_all_sats lib p km =
    (case unowned_output_sats lib p {} km of
       Some sats \<Rightarrow> require (sats = 0) (CrossCheck ''PSBT pays outputs this enclave does not derive'')
     | None \<Rightarrow> Inl (CrossCheck ''PSBT output total overflows u64''))"

subsection \<open>Rules of a mint\<close>

definition MINT_INPUTS :: nat where "MINT_INPUTS = 1"
definition MINT_MAX_INPUTS :: nat where "MINT_MAX_INPUTS = 16"
definition MINT_MAX_OUTPUTS :: nat where "MINT_MAX_OUTPUTS = 16"

definition assert_mint_shape :: "psbt \<Rightarrow> unit enclave_result" where
  "assert_mint_shape p =
    and_then (require (length (tx_input (psbt_unsigned_tx p)) \<le> MINT_MAX_INPUTS)
      (CrossCheck ''mint PSBT has too many inputs'')) (\<lambda>_.
    require (length (tx_output (psbt_unsigned_tx p)) \<le> MINT_MAX_OUTPUTS)
      (CrossCheck ''mint PSBT has too many outputs''))"

datatype mint_recipient = Blinded string | Witness_Output u32

text \<open>The facts of a mint with the right that it consumes and the seal of its one leg.\<close>

record minted = mint_facts +
  mf_right :: rgb_opout
  mf_recipient :: mint_recipient

definition blinded_seals :: "mint_recipient \<Rightarrow> string list" where
  "blinded_seals r = (case r of Blinded seal \<Rightarrow> [seal] | Witness_Output _ \<Rightarrow> [])"

definition is_mint_transition :: "rgb_lib \<Rightarrow> u16 \<Rightarrow> bool" where
  "is_mint_transition rgb ty \<longleftrightarrow> ty = TS_MINT rgb"

definition is_signing_transition :: "rgb_lib \<Rightarrow> u16 \<Rightarrow> bool" where
  "is_signing_transition rgb ty = is_mint_transition rgb ty"

definition assert_mint_type :: "rgb_lib \<Rightarrow> rgb_transition \<Rightarrow> unit enclave_result" where
  "assert_mint_type rgb t =
    require (is_signing_transition rgb (rt_type t)) (CrossCheck ''mint-RGB PSBT commits another transition type'')"

definition assert_asset_assignments_only :: "rgb_lib \<Rightarrow> rgb_transition \<Rightarrow> unit enclave_result" where
  "assert_asset_assignments_only rgb t =
    and_then (require (map_of (rt_assignments t) (OS_MINT rgb) = None) (CrossCheck ''mint passes mintRights on'')) (\<lambda>_.
    require (map fst (rt_assignments t) = [OS_ASSET rgb]) (CrossCheck ''a mint assigns asset units only''))"

definition before_block :: "rgb_lib \<Rightarrow> rgb_transition \<Rightarrow> u64 enclave_result" where
  "before_block rgb t =
    (let bs = unwrap_or (map_of (rt_metadata t) (MS_BEFORE_BLOCK rgb)) [] in
     and_then (require (length bs = 8) (CrossCheck ''mint beforeBlock is not 8 bytes'')) (\<lambda>_.
     Inr (of_nat (le_nat bs))))"

definition mint_globals :: "rgb_lib \<Rightarrow> rgb_transition \<Rightarrow> (u64 \<times> u64) enclave_result" where
  "mint_globals rgb t =
    and_then (require (\<not> (map fst (rt_globals t) \<noteq> [GS_ISSUED_SUPPLY rgb] \<or> map fst (rt_metadata t) \<noteq> [MS_BEFORE_BLOCK rgb]))
      (CrossCheck ''a mint carries issuedSupply and beforeBlock only'')) (\<lambda>_.
    and_then (single_global 8 (rt_globals t) (GS_ISSUED_SUPPLY rgb)) (\<lambda>value.
    let issued = unwrap_or (map_option (\<lambda>bs. of_nat (le_nat bs)) value) (0 :: u64) in
    and_then (require (issued \<noteq> 0) (CrossCheck ''mint issuedSupply is 0'')) (\<lambda>_.
    and_then (before_block rgb t) (\<lambda>limit.
    Inr (issued, limit)))))"

definition one_asset_leg :: "rgb_lib \<Rightarrow> rgb_transition \<Rightarrow> (u64 \<times> mint_recipient) enclave_result" where
  "one_asset_leg rgb t =
    (let legs = (case map_of (rt_assignments t) (OS_ASSET rgb) of None \<Rightarrow> [] | Some typed \<Rightarrow> as_fungible typed) in
     case legs of
       [(seal, units)] \<Rightarrow>
         and_then
           (case seal of
              ConcealedSeal s \<Rightarrow> Inr (Blinded s)
            | RevealedSeal _ _ \<Rightarrow> and_then (witness_vout (to_output_seal seal)) (\<lambda>vout. Inr (Witness_Output vout)))
           (\<lambda>recipient. Inr (units, recipient))
     | _ \<Rightarrow> Inl (CrossCheck ''a mint pays exactly one asset leg''))"

definition mint_facts_of :: "rgb_lib \<Rightarrow> committed_tr \<Rightarrow> minted enclave_result" where
  "mint_facts_of rgb com =
    (let t = cm_transition com in
     and_then (assert_mint_type rgb t) (\<lambda>_.
     and_then (single_right_input rgb t) (\<lambda>right.
     and_then (assert_asset_assignments_only rgb t) (\<lambda>_.
     and_then (mint_globals rgb t) (\<lambda>(issued, limit).
     and_then (one_asset_leg rgb t) (\<lambda>(units, recipient).
     and_then (require (units = issued) (CrossCheck ''mint pays other units than it declares'')) (\<lambda>_.
     Inr \<lparr>mf_opid = cm_opid com, mf_lock_id = lock_id_with rgb (cm_opid com) (cm_txid com), mf_issued = issued,
          mf_before_block = limit, mf_right = right, mf_recipient = recipient\<rparr>)))))))"

definition assert_mints_net_deposit :: "minted \<Rightarrow> u64 \<Rightarrow> u64 \<Rightarrow> unit enclave_result" where
  "assert_mints_net_deposit m amount commission = assert_group_amount (mf_issued m) amount commission"

definition assert_witness_output ::
  "('xp, 'sk) psbt_lib \<Rightarrow> psbt \<Rightarrow> 'xp key_manager \<Rightarrow> u32 \<Rightarrow> u64 \<Rightarrow> unit enclave_result" where
  "assert_witness_output lib p km vout witness_sat =
    (let outputs = tx_output (psbt_unsigned_tx p); index = unat vout in
     if length outputs \<le> index then Inl (CrossCheck ''mint pays its units to a missing output'')
     else if is_op_return lib (script_pubkey (outputs ! index)) then Inl (CrossCheck ''mint pays its units to the OP_RETURN'')
     else if output_is_self_derived lib p index km None \<or>
       output_is_self_owned p index (self_controlled_input_scripts_scoped lib p km None) then
       Inl (CrossCheck ''mint pays its units to an output of this enclave'')
     else require (out_value (outputs ! index) = witness_sat) (CrossCheck ''a witness mint pays exactly MINT_WITNESS_SAT''))"

definition assert_mint_sats ::
  "('xp, 'sk) psbt_lib \<Rightarrow> psbt \<Rightarrow> 'xp key_manager \<Rightarrow> mint_recipient \<Rightarrow> u64 \<Rightarrow> unit enclave_result" where
  "assert_mint_sats lib p km recipient witness_sat =
    (case recipient of
       Blinded _ \<Rightarrow> assert_keeps_all_sats lib p km
     | Witness_Output vout \<Rightarrow>
         and_then (assert_witness_output lib p km vout witness_sat) (\<lambda>_.
         case unowned_output_sats lib p {} km of
           Some sats \<Rightarrow> require (sats = witness_sat) (CrossCheck ''a witness mint keeps every other sat'')
         | None \<Rightarrow> Inl (CrossCheck ''mint PSBT output total overflows u64'')))"

subsection \<open>The order of the checks\<close>

definition pinned_commitment ::
  "('xp, 'sk) psbt_lib \<Rightarrow> rgb_lib \<Rightarrow> psbt \<Rightarrow> bytes \<Rightarrow> string \<Rightarrow> bridge_config \<Rightarrow> (bytes \<times> committed_tr) enclave_result" where
  "pinned_commitment lib rgb p raw asset_id cfg =
    and_then (pinned_contract rgb cfg) (\<lambda>pin.
    and_then (parse_fascia rgb raw) (\<lambda>f.
    and_then (committed_transition lib rgb (psbt_unsigned_tx p) f pin) (\<lambda>com.
    and_then (assert_asset_binding (contract_to_string rgb pin) asset_id cfg DestinationBind) (\<lambda>_.
    Inr (pin, com)))))"

text \<open>A check that uses the keys is one locked section of the enclave state.\<close>

definition with_keys ::
  "('n, 'km, 'p) signer_env \<Rightarrow> ('km \<Rightarrow> 'a enclave_result) \<Rightarrow> (('n, 'km) world, 'a) rpc" where
  "with_keys env f = on_enclave env (\<lambda>st now. (with_active st f, st))"

definition mint_inputs ::
  "('n, 'xp key_manager, 'p) signer_env \<Rightarrow> ('xp, 'sk) psbt_lib \<Rightarrow> psbt \<Rightarrow> (('n, 'xp key_manager) world, nat list) rpc" where
  "mint_inputs env lib p =
    rpc_then (rpc_lift (require (length (tx_input (psbt_unsigned_tx p)) = MINT_INPUTS)
      (CrossCheck ''a mint spends its right alone''))) (\<lambda>_.
    rpc_then (with_keys env (\<lambda>km. Inr (fee_key_path_inputs_scoped lib p km Colored))) (\<lambda>colored.
    rpc_then (rpc_lift (assert_only_colored_inputs p colored)) (\<lambda>_.
    rpc_lift (Inr colored))))"

definition validate_destination_anchor ::
  "('n, 'xp key_manager, 'p) signer_env \<Rightarrow> ('xp, 'sk) psbt_lib \<Rightarrow> rgb_lib \<Rightarrow> ('n, 'xp key_manager) destination_anchor" where
  "validate_destination_anchor env lib rgb d amount commission mint_binder =
    rpc_then (rpc_lift (parse_psbt_shape lib (psbt_bytes d))) (\<lambda>p.
    rpc_then (rpc_lift (assert_mint_shape p)) (\<lambda>_.
    rpc_then (rpc_lift (assert_txid_and_sighash_fixed lib p)) (\<lambda>_.
    rpc_then (rpc_lift (pinned_commitment lib rgb p (fascia d) (rd_asset_id d) (sg_config env))) (\<lambda>(pin, com).
    rpc_then (rpc_lift (mint_facts_of rgb com)) (\<lambda>m.
    rpc_then (rpc_lift (assert_mints_net_deposit m amount commission)) (\<lambda>_.
    rpc_then (mint_inputs env lib p) (\<lambda>colored.
    rpc_then (rpc_lift (right_input lib rgb p (parent_fascia d) (mf_right m) pin)) (\<lambda>_.
    rpc_then (rpc_lift (check_psbt_fee lib p colored)) (\<lambda>_.
    rpc_then (with_keys env (\<lambda>km. assert_mint_sats lib p km (mf_recipient m) (mint_witness_sat (sg_config env)))) (\<lambda>_.
    rpc_then (mint_binder (mint_facts.truncate m)) (\<lambda>_.
    rpc_lift (Inr (mf_issued m, blinded_seals (mf_recipient m))))))))))))))"

subsection \<open>Rights refill\<close>

definition MAX_REFILL_FEE_INPUTS :: nat where "MAX_REFILL_FEE_INPUTS = 1"
definition MIN_REFILL_RIGHTS :: nat where "MIN_REFILL_RIGHTS = 2"
definition MAX_REFILL_RIGHTS :: nat where "MAX_REFILL_RIGHTS = 255"

record sign_rights_refill_request =
  rr_psbt_bytes :: bytes
  rr_asset_id :: string
  rr_fascia :: bytes
  rr_parent_fascia :: bytes

definition assert_refill_input_count :: "psbt \<Rightarrow> unit enclave_result" where
  "assert_refill_input_count p =
    require (length (tx_input (psbt_unsigned_tx p)) \<le> 1 + MAX_REFILL_FEE_INPUTS)
      (CrossCheck ''a refill spends its right and at most one fee input'')"

definition refill_colored_inputs ::
  "('xp, 'sk) psbt_lib \<Rightarrow> psbt \<Rightarrow> 'xp key_manager \<Rightarrow> nat list enclave_result" where
  "refill_colored_inputs lib p km =
    (let colored = fee_key_path_inputs_of (find_controlled_taproot_inputs lib km p) Colored in
     and_then (assert_only_colored_inputs p colored) (\<lambda>_. Inr colored))"

definition refill_gate :: "('xp, 'sk) psbt_lib \<Rightarrow> psbt \<Rightarrow> 'xp key_manager \<Rightarrow> unit enclave_result" where
  "refill_gate lib p km =
    and_then (assert_refill_input_count p) (\<lambda>_.
    and_then (refill_colored_inputs lib p km) (\<lambda>colored.
    and_then (assert_keeps_all_sats lib p km) (\<lambda>_.
    check_psbt_fee lib p colored)))"

definition assert_propagate :: "rgb_lib \<Rightarrow> rgb_transition \<Rightarrow> unit enclave_result" where
  "assert_propagate rgb t =
    require (rt_type t = TS_PROPAGATE rgb) (CrossCheck ''rights refill requires a propagate transition'')"

definition assert_rights_only :: "rgb_lib \<Rightarrow> rgb_transition \<Rightarrow> unit enclave_result" where
  "assert_rights_only rgb t =
    and_then (require (\<not> (map fst (rt_assignments t) \<noteq> [OS_MINT rgb] \<or> \<not> (rt_globals t = [] \<and> rt_metadata t = [])))
      (CrossCheck ''a refill moves rights only'')) (\<lambda>_.
    case map_of (rt_assignments t) (OS_MINT rgb) of
      Some (Declarative _) \<Rightarrow> Inr ()
    | _ \<Rightarrow> Inl (CrossCheck ''rights refill makes mintRights that carry state''))"

fun refill_vouts :: "u32 set \<Rightarrow> output_seal list \<Rightarrow> u32 set enclave_result" where
  "refill_vouts vouts [] = Inr vouts"
| "refill_vouts vouts (seal # seals) =
    and_then (witness_vout seal) (\<lambda>vout.
    if vout \<in> vouts then Inl (CrossCheck ''rights refill puts two rights on one output'')
    else refill_vouts (insert vout vouts) seals)"

definition assert_refill_rights :: "output_seal list \<Rightarrow> u32 list enclave_result" where
  "assert_refill_rights rights =
    and_then (require (MIN_REFILL_RIGHTS \<le> length rights \<and> length rights \<le> MAX_REFILL_RIGHTS)
      (CrossCheck ''rights refill makes too few or too many rights'')) (\<lambda>_.
    and_then (refill_vouts {} rights) (\<lambda>vouts.
    Inr (sorted_list_of_set vouts)))"

definition refill_rights :: "rgb_lib \<Rightarrow> committed_tr \<Rightarrow> (rgb_opout \<times> u32 list) enclave_result" where
  "refill_rights rgb com =
    (let t = cm_transition com in
     and_then (assert_propagate rgb t) (\<lambda>_.
     and_then (single_right_input rgb t) (\<lambda>right.
     and_then (assert_rights_only rgb t) (\<lambda>_.
     let seals = (case map_of (rt_assignments t) (OS_MINT rgb) of
           None \<Rightarrow> [] | Some typed \<Rightarrow> map to_output_seal (assign_seals typed)) in
     and_then (assert_refill_rights seals) (\<lambda>vouts.
     Inr (right, vouts))))))"

definition validate_rights_refill ::
  "('xp, 'sk) psbt_lib \<Rightarrow> rgb_lib \<Rightarrow> sign_rights_refill_request \<Rightarrow> psbt \<Rightarrow> bridge_config \<Rightarrow> u32 list enclave_result" where
  "validate_rights_refill lib rgb req p cfg =
    and_then (assert_txid_and_sighash_fixed lib p) (\<lambda>_.
    and_then (pinned_commitment lib rgb p (rr_fascia req) (rr_asset_id req) cfg) (\<lambda>(pin, com).
    and_then (refill_rights rgb com) (\<lambda>(right, vouts).
    and_then (right_input lib rgb p (rr_parent_fascia req) right pin) (\<lambda>_.
    Inr vouts))))"

definition assert_refill_rights_owned ::
  "('xp, 'sk) psbt_lib \<Rightarrow> psbt \<Rightarrow> u32 list \<Rightarrow> 'xp key_manager \<Rightarrow> unit enclave_result" where
  "assert_refill_rights_owned lib p vouts km =
    for_each (\<lambda>vout. require (output_is_self_derived lib p (unat vout) km (Some Colored))
      (CrossCheck ''rights refill puts a right on an output that is not ours'')) vouts"

definition admit_refill ::
  "('n, 'km, 'p) signer_env \<Rightarrow> (('n, 'km) world, unit) rpc" where
  "admit_refill env = on_enclave env (\<lambda>st now.
    case refill_admit (refill_rate st) now of (r, admitted) \<Rightarrow> (r, st\<lparr>refill_rate := admitted\<rparr>))"

definition sign_colored_psbt ::
  "('n, 'xp key_manager, 'p) signer_env \<Rightarrow> ('xp, 'sk) psbt_lib \<Rightarrow> bytes
    \<Rightarrow> (('n, 'xp key_manager) world, enclave_response) rpc" where
  "sign_colored_psbt env lib raw =
    rpc_then (with_keys env (\<lambda>km. sign_psbt_scoped lib km raw (Some Colored))) (\<lambda>r.
    rpc_lift (signed_psbt_response r))"

definition handle_sign_rights_refill ::
  "('n, 'xp key_manager, 'p) signer_env \<Rightarrow> ('xp, 'sk) psbt_lib \<Rightarrow> rgb_lib \<Rightarrow> sign_rights_refill_request
    \<Rightarrow> (('n, 'xp key_manager) world, enclave_response) rpc" where
  "handle_sign_rights_refill env lib rgb req =
    rpc_then (rpc_lift (parse_psbt_shape lib (rr_psbt_bytes req))) (\<lambda>p.
    rpc_then (with_keys env (refill_gate lib p)) (\<lambda>_.
    rpc_then (admit_refill env) (\<lambda>_.
    rpc_then (rpc_lift (validate_rights_refill lib rgb req p (sg_config env))) (\<lambda>rights.
    rpc_then (with_keys env (assert_refill_rights_owned lib p rights)) (\<lambda>_.
    sign_colored_psbt env lib (rr_psbt_bytes req))))))"

end
