(* ===== verification/Mint_Safety.thy ===== *)
theory Mint_Safety
  imports Mint_Rules
begin

text \<open>
  What the mint signer's signatures stand for: a transaction fixes the transition it commits, a right
  is spent by one transaction, a signed mint is backed by its deposit, and a refill keeps the rights
  and every sat.
\<close>

subsection \<open>The transition that a transaction commits\<close>

definition opret_hosted :: "('xp, 'sk) psbt_lib \<Rightarrow> btc_tx \<Rightarrow> bool" where
  "opret_hosted lib tx \<longleftrightarrow>
    (\<exists>i < length (tx_output tx). is_op_return lib (script_pubkey (tx_output tx ! i)) \<and>
       (\<forall>j < i. \<not> is_op_return lib (script_pubkey (tx_output tx ! j)) \<and> \<not> is_p2tr lib (script_pubkey (tx_output tx ! j))))"

definition committed_in ::
  "('xp, 'sk) psbt_lib \<Rightarrow> rgb_lib \<Rightarrow> bytes \<Rightarrow> btc_tx \<Rightarrow> rgb_fascia \<Rightarrow> committed_tr \<Rightarrow> bool" where
  "committed_in lib rgb pin tx fa com \<longleftrightarrow>
    cm_txid com = compute_txid lib tx \<and> fa_witness_id fa = compute_txid lib tx \<and> opret_hosted lib tx \<and>
    (\<exists>bundle entropy c. fa_bundles fa = [(pin, bundle)] \<and> fa_entropy fa = Some entropy \<and>
       mpc_commit rgb [(pin, bundle_id rgb bundle)] entropy = Some c \<and> opret_verify rgb c tx \<and>
       known_transitions bundle = [(cm_opid com, cm_transition com)] \<and>
       cm_opid com = transition_id rgb (cm_transition com) \<and> rt_contract_id (cm_transition com) = pin \<and>
       set (input_map bundle) = (\<lambda>i. (i, cm_opid com)) ` set (rt_inputs (cm_transition com)))"

lemma assert_opret_host_Inr: "assert_opret_host lib tx = Inr u \<longleftrightarrow> opret_hosted lib tx"
proof -
  have "assert_opret_host lib tx = Inr u \<longleftrightarrow>
      (\<exists>out. find (\<lambda>out. is_op_return lib (script_pubkey out) \<or> is_p2tr lib (script_pubkey out)) (tx_output tx) = Some out \<and>
        is_op_return lib (script_pubkey out))"
    by (auto simp: assert_opret_host_def split: option.split)
  then show ?thesis by (auto simp: find_Some_iff opret_hosted_def)
qed

lemma assert_input_map_is_Inr:
  "assert_input_map_is bundle t ident = Inr u \<longleftrightarrow>
    set (input_map bundle) = (\<lambda>i. (i, ident)) ` set (rt_inputs t)"
proof -
  have "(fst ` M = I \<and> (\<forall>x \<in> M. snd x = ident)) \<longleftrightarrow> M = (\<lambda>i. (i, ident)) ` I" for M :: "(rgb_opout \<times> bytes) set" and I
    by (force simp: image_iff)
  then show ?thesis
    by (simp add: assert_input_map_is_def and_then_Inr list_all_iff case_prod_unfold)
qed

lemma committed_transition_exact:
  "committed_transition lib rgb tx fa pin = Inr com \<longleftrightarrow> committed_in lib rgb pin tx fa com"
proof -
  have b: "pinned_bundle bundles pin = Inr bdl \<longleftrightarrow> bundles = [(pin, bdl)]" for bundles bdl
    by (auto simp: pinned_bundle_def split: list.splits)
  have d: "disclosed_transition rgb bdl pin = Inr (opid, t) \<longleftrightarrow> known_transitions bdl = [(opid, t)] \<and>
      opid = transition_id rgb t \<and> rt_contract_id t = pin \<and> set (input_map bdl) = (\<lambda>i. (i, opid)) ` set (rt_inputs t)"
    for bdl opid t
    by (auto simp: disclosed_transition_def Let_def and_then_Inr assert_input_map_is_Inr split: list.splits)
  show ?thesis
    by (cases com)
      (auto simp: committed_transition_def committed_in_def Let_def and_then_Inr assert_opret_host_Inr b d assert_commits_exactly_def)
qed

text \<open>What the commitments of the RGB crates promise of a set of fascias: transition ids do not collide,
  a bundle id commits the input map, the tree commits its messages and a transaction holds one opret
  commitment.\<close>

definition fascia_bundles :: "rgb_fascia set \<Rightarrow> transition_bundle set" where
  "fascia_bundles F = (\<Union>fa \<in> F. snd ` set (fa_bundles fa))"

definition commitments_bind :: "rgb_lib \<Rightarrow> rgb_fascia set \<Rightarrow> bool" where
  "commitments_bind rgb F \<longleftrightarrow>
    inj_on (transition_id rgb) (\<Union>b \<in> fascia_bundles F. snd ` set (known_transitions b)) \<and>
    (\<forall>b \<in> fascia_bundles F. \<forall>b' \<in> fascia_bundles F. bundle_id rgb b = bundle_id rgb b' \<longrightarrow>
       set (input_map b) = set (input_map b')) \<and>
    (\<forall>m e m' e' c. mpc_commit rgb m e = Some c \<longrightarrow> mpc_commit rgb m' e' = Some c \<longrightarrow> m = m') \<and>
    (\<forall>c c' tx. opret_verify rgb c tx \<longrightarrow> opret_verify rgb c' tx \<longrightarrow> c = c')"

lemma committed_unique:
  assumes "commitments_bind rgb F" "fa \<in> F" "fa' \<in> F"
    "committed_in lib rgb pin tx fa com" "committed_in lib rgb pin' tx fa' com'" "rt_inputs (cm_transition com) \<noteq> []"
  shows "pin' = pin \<and> com' = com"
proof -
  obtain b e c where c: "fa_bundles fa = [(pin, b)]" "mpc_commit rgb [(pin, bundle_id rgb b)] e = Some c" "opret_verify rgb c tx"
      "known_transitions b = [(cm_opid com, cm_transition com)]" "cm_opid com = transition_id rgb (cm_transition com)"
      "set (input_map b) = (\<lambda>i. (i, cm_opid com)) ` set (rt_inputs (cm_transition com))"
    using assms(4) unfolding committed_in_def by blast
  obtain b' e' c' where c': "fa_bundles fa' = [(pin', b')]" "mpc_commit rgb [(pin', bundle_id rgb b')] e' = Some c'"
      "opret_verify rgb c' tx" "known_transitions b' = [(cm_opid com', cm_transition com')]"
      "cm_opid com' = transition_id rgb (cm_transition com')"
      "set (input_map b') = (\<lambda>i. (i, cm_opid com')) ` set (rt_inputs (cm_transition com'))"
    using assms(5) unfolding committed_in_def by blast
  have bs: "b \<in> fascia_bundles F" "b' \<in> fascia_bundles F"
    using assms(2,3) c(1) c'(1) by (force simp: fascia_bundles_def)+
  have "c' = c" using assms(1) c(3) c'(3) unfolding commitments_bind_def by blast
  then have m: "pin' = pin" "bundle_id rgb b' = bundle_id rgb b"
    using assms(1) c(2) c'(2) unfolding commitments_bind_def by blast+
  have "set (input_map b') = set (input_map b)"
    using assms(1) bs m(2) unfolding commitments_bind_def by blast
  then have "cm_opid com' = cm_opid com" using c(6) c'(6) assms(6) by (auto simp: set_eq_iff image_iff) (metis list.set_sel(1))
  moreover have "cm_transition com' = cm_transition com"
  proof (rule inj_onD)
    show "inj_on (transition_id rgb) (\<Union>b \<in> fascia_bundles F. snd ` set (known_transitions b))"
      using assms(1) by (simp add: commitments_bind_def)
    show "transition_id rgb (cm_transition com') = transition_id rgb (cm_transition com)"
      using calculation c(5) c'(5) by simp
    show "cm_transition com' \<in> (\<Union>b \<in> fascia_bundles F. snd ` set (known_transitions b))"
      using bs(2) c'(4) by (force intro: UN_I [of b'])
    show "cm_transition com \<in> (\<Union>b \<in> fascia_bundles F. snd ` set (known_transitions b))"
      using bs(1) c(4) by (force intro: UN_I [of b])
  qed
  ultimately show ?thesis using m(1) assms(4,5) by (simp add: committed_in_def committed_tr.equality)
qed


subsection \<open>The right that a transaction spends\<close>

definition proves_right ::
  "('xp, 'sk) psbt_lib \<Rightarrow> rgb_lib \<Rightarrow> bytes \<Rightarrow> rgb_fascia \<Rightarrow> rgb_opout \<Rightarrow> outpoint \<Rightarrow> bool" where
  "proves_right lib rgb pin parent inp right \<longleftrightarrow>
    (\<exists>made vout typed. committed_in lib rgb pin (fa_tx parent) parent made \<and> right = (cm_txid made, vout) \<and>
       oo_op inp = cm_opid made \<and> oo_ty inp = OS_MINT rgb \<and> rt_type (cm_transition made) = TS_PROPAGATE rgb \<and>
       (\<exists>i. rt_inputs (cm_transition made) = [i] \<and> oo_ty i = OS_MINT rgb) \<and>
       map_of (rt_assignments (cm_transition made)) (OS_MINT rgb) = Some typed \<and>
       unat (oo_no inp) < length (assign_seals typed) \<and>
       assign_seals typed ! unat (oo_no inp) = RevealedSeal None vout \<and>
       (\<forall>(ty, other) \<in> set (rt_assignments (cm_transition made)). \<forall>no < length (assign_seals other).
          (ty, no) = (OS_MINT rgb, unat (oo_no inp)) \<or> seal_outpoint (assign_seals other ! no) (cm_txid made) \<noteq> Some right))"

lemma single_right_input_Inr:
  "single_right_input rgb t = Inr i \<longleftrightarrow> rt_inputs t = [i] \<and> oo_ty i = OS_MINT rgb"
  by (auto simp: single_right_input_def split: list.splits)

lemma witness_vout_Inr: "witness_vout (to_output_seal seal) = Inr vout \<longleftrightarrow> seal = RevealedSeal None vout"
  by (auto simp: witness_vout_def to_output_seal_def split: builder_seal.splits option.splits)

lemma assert_alone_on_Inr:
  "assert_alone_on made inp right = Inr u \<longleftrightarrow>
    (\<forall>(ty, other) \<in> set (rt_assignments (cm_transition made)). \<forall>no < length (assign_seals other).
       (ty, no) = (oo_ty inp, unat (oo_no inp)) \<or> seal_outpoint (assign_seals other ! no) (cm_txid made) \<noteq> Some right)"
proof -
  have "set (enumerate 0 xs) = (\<lambda>i. (i, xs ! i)) ` {..<length xs}" for xs :: "builder_seal list"
    by (auto simp: in_set_enumerate_eq image_iff)
  then show ?thesis
    unfolding assert_alone_on_def by (simp add: for_each_Inr case_prod_unfold Ball_def imp_conjR) blast
qed

definition spends_once :: "psbt \<Rightarrow> outpoint \<Rightarrow> nat \<Rightarrow> bool" where
  "spends_once p right i \<longleftrightarrow> i < length (tx_input (psbt_unsigned_tx p)) \<and>
    filter (\<lambda>x. previous_output x = right) (tx_input (psbt_unsigned_tx p)) = [tx_input (psbt_unsigned_tx p) ! i]"

lemma spends_onceD: "spends_once p right i \<Longrightarrow> previous_output (tx_input (psbt_unsigned_tx p) ! i) = right"
proof -
  assume "spends_once p right i"
  then have "set (filter (\<lambda>x. previous_output x = right) (tx_input (psbt_unsigned_tx p))) = {tx_input (psbt_unsigned_tx p) ! i}"
    by (simp add: spends_once_def del: set_filter)
  then show ?thesis by auto
qed

lemma spending_input_Inr: "spending_input p right = Inr i \<Longrightarrow> spends_once p right i"
proof -
  let ?ins = "tx_input (psbt_unsigned_tx p)"
  assume "spending_input p right = Inr i"
  then have f: "filter (\<lambda>i. previous_output (?ins ! i) = right) [0 ..< length ?ins] = [i]"
    by (auto simp: spending_input_def split: list.splits)
  have "filter (\<lambda>x. previous_output x = right) (map ((!) ?ins) [0 ..< length ?ins]) = [?ins ! i]"
    unfolding filter_map comp_def f by simp
  moreover have "i < length ?ins" using arg_cong [OF f, of set] by auto
  ultimately show ?thesis by (simp add: map_nth spends_once_def)
qed

lemma right_input_Inr:
  assumes "right_input lib rgb p raw inp pin = Inr i"
  obtains parent right where "fascia_decode rgb raw = Some parent" "proves_right lib rgb pin parent inp right"
    "spends_once p right i"
proof -
  obtain parent made vout where r: "fascia_decode rgb raw = Some parent"
      "committed_in lib rgb pin (fa_tx parent) parent made" "right_vout rgb made inp = Inr vout"
      "spending_input p (cm_txid made, vout) = Inr i"
    using assms by (auto simp: right_input_def parse_fascia_def and_then_Inr committed_transition_exact)
  have "proves_right lib rgb pin parent inp (cm_txid made, vout)"
    using r(2,3) unfolding proves_right_def right_vout_def
    by (auto simp: Let_def and_then_Inr single_right_input_Inr witness_vout_Inr assert_alone_on_Inr bind_eq_Some_conv
        split: if_splits intro!: exI [of _ made])
  then show thesis using that r(1) spending_input_Inr [OF r(4)] by blast
qed

lemma proves_right_unique:
  assumes "commitments_bind rgb F" "fa \<in> F" "fa' \<in> F" "fa_tx fa' = fa_tx fa"
    "proves_right lib rgb pin fa inp right" "proves_right lib rgb pin' fa' inp right'"
  shows "right' = right"
proof -
  obtain made vout typed where m: "committed_in lib rgb pin (fa_tx fa) fa made" "right = (cm_txid made, vout)"
      "rt_inputs (cm_transition made) \<noteq> []" "map_of (rt_assignments (cm_transition made)) (OS_MINT rgb) = Some typed"
      "assign_seals typed ! unat (oo_no inp) = RevealedSeal None vout"
    using assms(5) unfolding proves_right_def by auto
  obtain made' vout' typed' where m': "committed_in lib rgb pin' (fa_tx fa) fa' made'" "right' = (cm_txid made', vout')"
      "map_of (rt_assignments (cm_transition made')) (OS_MINT rgb) = Some typed'"
      "assign_seals typed' ! unat (oo_no inp) = RevealedSeal None vout'"
    using assms(6) unfolding proves_right_def assms(4) by auto
  have "made' = made" using committed_unique [OF assms(1-3) m(1) m'(1) m(3)] by simp
  then show ?thesis using m(2,4,5) m'(2-4) by simp
qed


subsection \<open>Steps that keep the keys\<close>

definition keeps_keys :: "(('n, 'km) world, 'a) rpc \<Rightarrow> bool" where
  "keeps_keys m \<longleftrightarrow>
    (\<forall>w r w' km. m w = (r, w') \<longrightarrow> phase (w_enclave w) = Active km \<longrightarrow> phase (w_enclave w') = Active km)"

lemma keeps_keysD: "keeps_keys m \<Longrightarrow> m w = (r, w') \<Longrightarrow> phase (w_enclave w) = Active km \<Longrightarrow> phase (w_enclave w') = Active km"
  by (simp add: keeps_keys_def)

lemma keeps_lift: "keeps_keys (rpc_lift r)"
  by (simp add: keeps_keys_def rpc_lift_def)

lemma keeps_then: "keeps_keys m \<Longrightarrow> (\<And>x. keeps_keys (f x)) \<Longrightarrow> keeps_keys (rpc_then m f)"
  unfolding keeps_keys_def rpc_then_def by (auto split: prod.splits sum.splits)

lemma keeps_observe: "keys_stable env \<Longrightarrow> keeps_keys (observe env f)"
  by (simp add: keeps_keys_def observe_def Let_def keys_stable_def)

lemma keeps_node: "keeps_keys (on_node m)"
  by (auto simp: keeps_keys_def on_node_def split: prod.splits)

lemma keeps_enclave:
  assumes "keys_stable env" "\<And>st now. phase (snd (f st now)) = phase st"
  shows "keeps_keys (on_enclave env f)"
  unfolding keeps_keys_def
proof (intro allI impI)
  fix w r w' km
  assume m: "on_enclave env f w = (r, w')" and act: "phase (w_enclave w) = Active km"
  define v where "v = interfere env w"
  have "phase (w_enclave v) = Active km" using assms(1) act by (simp add: keys_stable_def v_def)
  then show "phase (w_enclave w') = Active km"
    using m assms(2) [of "w_enclave v" "instant_now env (w_node v)"]
    unfolding on_enclave_def v_def [symmetric] Let_def by (auto split: prod.splits)
qed

lemmas keeps_keys_intros = keeps_lift keeps_then keeps_observe keeps_node keeps_enclave

lemma keeps_with_keys: "keys_stable env \<Longrightarrow> keeps_keys (with_keys env f)"
  unfolding with_keys_def by (rule keeps_enclave) simp_all

lemma with_keys_Inr:
  assumes "with_keys env f w = (Inr x, w')"
  obtains km where "phase (w_enclave w') = Active km" "f km = Inr x"
  by (rule on_enclave_active [OF assms [unfolded with_keys_def]]) (rule that)

lemma with_same_keys:
  assumes "keys_stable env" "with_keys env f w = (Inr x, w')" "phase (w_enclave w) = Active km"
  shows "f km = Inr x \<and> phase (w_enclave w') = Active km"
  using with_keys_Inr [OF assms(2)] keeps_keysD [OF keeps_with_keys [OF assms(1)] assms(2,3)] by (metis phase.inject(2))

subsection \<open>What the mint rules establish\<close>

text \<open>The transition is a mint of exactly the issued units to one recipient, and nothing else.\<close>

definition recipient_seal :: "builder_seal \<Rightarrow> mint_recipient \<Rightarrow> bool" where
  "recipient_seal seal r \<longleftrightarrow>
    (case r of Blinded s \<Rightarrow> seal = ConcealedSeal s | Witness_Output vout \<Rightarrow> seal = RevealedSeal None vout)"

definition mints :: "rgb_lib \<Rightarrow> committed_tr \<Rightarrow> minted \<Rightarrow> bool" where
  "mints rgb com m \<longleftrightarrow>
    (let t = cm_transition com in
     rt_type t = TS_MINT rgb \<and> rt_inputs t = [mf_right m] \<and> oo_ty (mf_right m) = OS_MINT rgb \<and> mf_issued m \<noteq> 0 \<and>
     (\<exists>seal. rt_assignments t = [(OS_ASSET rgb, Fungible [(seal, mf_issued m)])] \<and> recipient_seal seal (mf_recipient m)) \<and>
     (\<exists>bs. rt_globals t = [(GS_ISSUED_SUPPLY rgb, [bs])] \<and> length bs = 8 \<and> mf_issued m = of_nat (le_nat bs)) \<and>
     (\<exists>bs. rt_metadata t = [(MS_BEFORE_BLOCK rgb, bs)] \<and> length bs = 8 \<and> mf_before_block m = of_nat (le_nat bs)) \<and>
     mf_opid m = cm_opid com \<and> mf_lock_id m = lock_id_with rgb (cm_opid com) (cm_txid com))"

lemma single_key: "map fst xs = [k] \<longleftrightarrow> (\<exists>v. xs = [(k, v)])"
  by auto

lemma mint_globals_Inr:
  assumes "mint_globals rgb t = Inr (issued, limit)"
  shows "issued \<noteq> 0 \<and> (\<exists>bs. rt_globals t = [(GS_ISSUED_SUPPLY rgb, [bs])] \<and> length bs = 8 \<and> issued = of_nat (le_nat bs)) \<and>
    (\<exists>bs. rt_metadata t = [(MS_BEFORE_BLOCK rgb, bs)] \<and> length bs = 8 \<and> limit = of_nat (le_nat bs))"
proof -
  obtain vs bs where k: "rt_globals t = [(GS_ISSUED_SUPPLY rgb, vs)]" "rt_metadata t = [(MS_BEFORE_BLOCK rgb, bs)]"
    using assms by (auto simp: mint_globals_def and_then_Inr single_key)
  show ?thesis
    using assms by (auto simp: mint_globals_def and_then_Inr k single_global_def before_block_def unwrap_or_def Let_def
        split: list.splits)
qed

lemma one_asset_leg_Inr:
  assumes "one_asset_leg rgb t = Inr (units, r)" "rt_assignments t = [(OS_ASSET rgb, typed)]"
  obtains seal where "typed = Fungible [(seal, units)]" "recipient_seal seal r"
proof -
  obtain seal where legs: "as_fungible typed = [(seal, units)]" and r: "recipient_seal seal r"
    using assms by (auto simp: one_asset_leg_def and_then_Inr recipient_seal_def witness_vout_Inr
        split: list.splits builder_seal.splits)
  then show thesis using that by (cases typed) auto
qed

lemma mint_facts_of_Inr:
  assumes "mint_facts_of rgb com = Inr m"
  shows "mints rgb com m"
proof -
  let ?t = "cm_transition com"
  obtain right issued limit units r where f: "assert_mint_type rgb ?t = Inr ()" "single_right_input rgb ?t = Inr right"
      "assert_asset_assignments_only rgb ?t = Inr ()" "mint_globals rgb ?t = Inr (issued, limit)"
      "one_asset_leg rgb ?t = Inr (units, r)" "units = issued"
      "m = \<lparr>mf_opid = cm_opid com, mf_lock_id = lock_id_with rgb (cm_opid com) (cm_txid com), mf_issued = issued,
          mf_before_block = limit, mf_right = right, mf_recipient = r\<rparr>"
    using assms by (auto simp: mint_facts_of_def Let_def and_then_Inr)
  obtain typed where a: "rt_assignments ?t = [(OS_ASSET rgb, typed)]"
    using f(3) by (auto simp: assert_asset_assignments_only_def and_then_Inr single_key)
  obtain seal where "typed = Fungible [(seal, units)]" "recipient_seal seal r"
    using one_asset_leg_Inr [OF f(5) a] .
  then show ?thesis
    using f(1,2,6,7) a mint_globals_Inr [OF f(4)]
    by (auto simp: mints_def Let_def single_right_input_Inr assert_mint_type_def is_signing_transition_def is_mint_transition_def)
qed

text \<open>The value that the transaction pays to outputs that no key of the enclave derives.\<close>

definition sats_leaving :: "('xp, 'sk) psbt_lib \<Rightarrow> 'xp key_manager \<Rightarrow> psbt \<Rightarrow> nat" where
  "sats_leaving lib km p = leaving (\<lambda>_. 0)
    (foreign_outputs (\<lambda>i. output_is_self_derived lib p i km None) (enumerate 0 (tx_output (psbt_unsigned_tx p))))"

lemma unowned_sats_leaving: "unowned_output_sats lib p {} km = Some n \<Longrightarrow> sats_leaving lib km p = unat n"
  using unowned_output_sats_exact [of lib p "{}" km n] by (simp add: sats_leaving_def)

lemma keeps_all_sats: "assert_keeps_all_sats lib p km = Inr u \<Longrightarrow> sats_leaving lib km p = 0"
  by (auto simp: assert_keeps_all_sats_def dest!: unowned_sats_leaving split: option.splits)

definition mint_pays :: "('xp, 'sk) psbt_lib \<Rightarrow> 'xp key_manager \<Rightarrow> u64 \<Rightarrow> psbt \<Rightarrow> mint_recipient \<Rightarrow> bool" where
  "mint_pays lib km witness_sat p r \<longleftrightarrow>
    (case r of
       Blinded _ \<Rightarrow> sats_leaving lib km p = 0
     | Witness_Output vout \<Rightarrow> sats_leaving lib km p = unat witness_sat \<and>
         unat vout < length (tx_output (psbt_unsigned_tx p)) \<and>
         out_value (tx_output (psbt_unsigned_tx p) ! unat vout) = witness_sat \<and>
         \<not> is_op_return lib (script_pubkey (tx_output (psbt_unsigned_tx p) ! unat vout)) \<and>
         \<not> output_is_self_derived lib p (unat vout) km None)"

lemma assert_mint_sats_Inr: "assert_mint_sats lib p km r witness_sat = Inr u \<Longrightarrow> mint_pays lib km witness_sat p r"
  by (auto simp: assert_mint_sats_def mint_pays_def assert_witness_output_def Let_def and_then_Inr
      dest: keeps_all_sats unowned_sats_leaving split: mint_recipient.splits option.splits if_splits)

definition only_colored :: "('xp, 'sk) psbt_lib \<Rightarrow> 'xp key_manager \<Rightarrow> psbt \<Rightarrow> bool" where
  "only_colored lib km p \<longleftrightarrow>
    (\<forall>i < length (psbt_inputs p). \<exists>job \<in> set (find_controlled_taproot_inputs lib km p).
       input_index job = i \<and> job_account job = Colored)"

lemma assert_only_colored_Inr:
  "assert_only_colored_inputs p (fee_key_path_inputs_of (find_controlled_taproot_inputs lib km p) Colored) = Inr u \<Longrightarrow>
    only_colored lib km p"
  by (auto simp: assert_only_colored_inputs_def only_colored_def fee_key_path_inputs_of_def find_None_iff image_iff
      split: option.splits)

definition fee_bounded :: "('xp, 'sk) psbt_lib \<Rightarrow> psbt \<Rightarrow> bool" where
  "fee_bounded lib p \<longleftrightarrow>
    (\<exists>fee. psbt_fee lib p = Some fee \<and> unat fee \<le> 100000 \<and> unat fee \<le> 200 * tx_vsize lib (psbt_unsigned_tx p))"

lemma check_fee_bounded: "check_psbt_fee lib p inputs = Inr u \<Longrightarrow> fee_bounded lib p"
  using check_psbt_fee_Inr [of lib p inputs u] by (simp add: fee_bounded_def)

subsection \<open>The path of a mint\<close>

definition pinned_asset :: "rgb_lib \<Rightarrow> bridge_config \<Rightarrow> string \<Rightarrow> bytes \<Rightarrow> bool" where
  "pinned_asset rgb cfg declared pin \<longleftrightarrow> contract_from_str rgb (rgb_asset_id cfg) = Some pin \<and>
    contract_to_string rgb pin = rgb_asset_id cfg \<and> declared = rgb_asset_id cfg"

lemma pinned_commitment_Inr:
  assumes "pinned_commitment lib rgb p raw declared cfg = Inr (pin, com)"
  obtains fa where "fascia_decode rgb raw = Some fa" "committed_in lib rgb pin (psbt_unsigned_tx p) fa com"
    "pinned_asset rgb cfg declared pin"
  using assms
  by (auto simp: pinned_commitment_def pinned_contract_def parse_fascia_def and_then_Inr committed_transition_exact
      pinned_asset_def assert_asset_binding_def split: if_splits intro: that)

text \<open>What the mint transaction is, before its deposit: its fascia commits the mint, it spends only the
  UTXO of the right, with a key of the Colored account, and keeps the sats.\<close>

definition mint_transaction ::
  "('xp, 'sk) psbt_lib \<Rightarrow> rgb_lib \<Rightarrow> bridge_config \<Rightarrow> 'xp key_manager \<Rightarrow> rgb_destination \<Rightarrow> psbt \<Rightarrow> minted \<Rightarrow> bool" where
  "mint_transaction lib rgb cfg km d p m \<longleftrightarrow>
    (\<exists>pin fa com parent inp. psbt_deserialize lib (psbt_bytes d) = Some p \<and> pinned_asset rgb cfg (rd_asset_id d) pin \<and>
       fascia_decode rgb (fascia d) = Some fa \<and> committed_in lib rgb pin (psbt_unsigned_tx p) fa com \<and> mints rgb com m \<and>
       fascia_decode rgb (parent_fascia d) = Some parent \<and> tx_input (psbt_unsigned_tx p) = [inp] \<and>
       proves_right lib rgb pin parent (mf_right m) (previous_output inp) \<and>
       only_colored lib km p \<and> fee_bounded lib p \<and> mint_pays lib km (mint_witness_sat cfg) p (mf_recipient m))"

lemma mint_inputs_Inr:
  assumes "mint_inputs env lib p w = (Inr colored, w')" 
  obtains km inp where "tx_input (psbt_unsigned_tx p) = [inp]" "only_colored lib km p" "phase (w_enclave w') = Active km"
proof -
  obtain w1 where r: "length (tx_input (psbt_unsigned_tx p)) = 1"
      "with_keys env (\<lambda>km. Inr (fee_key_path_inputs_scoped lib p km Colored)) w = (Inr colored, w')"
      "assert_only_colored_inputs p colored = Inr ()"
    using assms unfolding mint_inputs_def by (elim rpc_then_InrE) (auto simp: MINT_INPUTS_def)
  obtain km where "phase (w_enclave w') = Active km" "colored = fee_key_path_inputs_of (find_controlled_taproot_inputs lib km p) Colored"
    using with_keys_Inr [OF r(2)] by (auto simp: fee_key_path_inputs_scoped_def)
  moreover obtain inp where "tx_input (psbt_unsigned_tx p) = [inp]" using r(1) by (auto simp: length_Suc_conv)
  ultimately show thesis using that r(3) assert_only_colored_Inr by blast
qed

lemma anchor_Inr:
  assumes "validate_destination_anchor env lib rgb d amount commission mb w = (Inr (issued, seals), w')"
    "keys_stable env" "\<And>facts. keeps_keys (mb facts)"
  obtains p m km u where "mint_transaction lib rgb (sg_config env) km d p m" "phase (w_enclave w') = Active km"
    "mf_issued m = saturating_sub amount commission" "mb (mint_facts.truncate m) u = (Inr (), w')"
    "seals = blinded_seals (mf_recipient m)"
proof -
  obtain p pin com m colored i w1 w2 where r: "parse_psbt_shape lib (psbt_bytes d) = Inr p"
      "pinned_commitment lib rgb p (fascia d) (rd_asset_id d) (sg_config env) = Inr (pin, com)"
      "mint_facts_of rgb com = Inr m" "assert_mints_net_deposit m amount commission = Inr ()"
      "mint_inputs env lib p w = (Inr colored, w1)"
      "right_input lib rgb p (parent_fascia d) (mf_right m) pin = Inr i" "check_psbt_fee lib p colored = Inr ()"
      "with_keys env (\<lambda>km. assert_mint_sats lib p km (mf_recipient m) (mint_witness_sat (sg_config env))) w1 = (Inr (), w2)"
      "mb (mint_facts.truncate m) w2 = (Inr (), w')" "seals = blinded_seals (mf_recipient m)"
    using assms(1) unfolding validate_destination_anchor_def
    by (elim rpc_then_InrE) (auto elim!: rpc_then_InrE)
  obtain km inp where k: "tx_input (psbt_unsigned_tx p) = [inp]" "only_colored lib km p" "phase (w_enclave w1) = Active km"
    using mint_inputs_Inr [OF r(5)] .
  have s: "assert_mint_sats lib p km (mf_recipient m) (mint_witness_sat (sg_config env)) = Inr ()" "phase (w_enclave w2) = Active km"
    using with_same_keys [OF assms(2) r(8) k(3)] by simp_all
  have k': "phase (w_enclave w') = Active km" using keeps_keysD [OF assms(3) r(9) s(2)] .
  obtain fa where c: "fascia_decode rgb (fascia d) = Some fa" "committed_in lib rgb pin (psbt_unsigned_tx p) fa com"
      "pinned_asset rgb (sg_config env) (rd_asset_id d) pin"
    using pinned_commitment_Inr [OF r(2)] .
  obtain parent where q: "fascia_decode rgb (parent_fascia d) = Some parent"
      "proves_right lib rgb pin parent (mf_right m) (previous_output inp)"
    by (rule right_input_Inr [OF r(6)]) (use k(1) spends_onceD in \<open>auto simp: spends_once_def split: if_splits\<close>)
  have "mint_transaction lib rgb (sg_config env) km d p m"
    unfolding mint_transaction_def
    using parse_psbt_shape_Inr [OF r(1)] c q k(1,2) mint_facts_of_Inr [OF r(3)] check_fee_bounded [OF r(7)]
      assert_mint_sats_Inr [OF s(1)] by blast
  moreover have "mf_issued m = saturating_sub amount commission"
    using r(4) by (simp add: assert_mints_net_deposit_def assert_group_amount_def Let_def split: if_splits)
  ultimately show thesis using that k' r(9,10) by blast
qed

text \<open>The mint signer builds.\<close>

definition mint_signer :: "signer_build \<Rightarrow> bool" where
  "mint_signer b \<longleftrightarrow> b_evm_to_rgb b \<and> \<not> b_rgb_to_evm b \<and> b_rgb_validation b \<and> b_evm_rpc b"

definition mint_binder ::
  "('n, 'km, 'p) signer_env \<Rightarrow> instant \<Rightarrow> evm_source \<Rightarrow> mint_facts \<Rightarrow> (('n, 'km) world, unit) rpc" where
  "mint_binder env deadline s facts = rpc_then (ensure_time_left env deadline) (\<lambda>_. bind_mint env (EvmSource s) facts)"

lemma keeps_time_left: "keys_stable env \<Longrightarrow> keeps_keys (ensure_time_left env deadline)"
  unfolding ensure_time_left_def by (intro keeps_then keeps_observe keeps_lift)

lemma keeps_mint_binder: "keys_stable env \<Longrightarrow> keeps_keys (mint_binder env deadline s facts)"
  unfolding mint_binder_def bind_mint_def by (simp add: keeps_then keeps_time_left keeps_node keeps_lift)

lemma keeps_reserve: "keys_stable env \<Longrightarrow> keeps_keys (reserve_operation env key)"
  unfolding reserve_operation_def
  by (auto simp: keeps_lift split: option.split prod.split intro!: keeps_enclave)

lemma sign_uncached_mint:
  assumes "sign_uncached env anchor req (EvmSource s) (RgbDestination d) (Some k) deadline w = (Inr (response, res), w')"
    "mint_signer (sg_build env)"
  obtains authorized dp w1 w2 w3 w4 w5 w6 w7 where
    "verify_funds_in_deposit env (sr_amount req) (EvmSource s) (RgbDestination d) w1 = (Inr authorized, w2)"
    "route_validate_destination env anchor (mint_binder env deadline s) (sr_amount req) (es_commission s) (RgbDestination d) w3 =
      (Inr dp, w4)"
    "bind_funds_in_recipient authorized dp = Inr ()" "ensure_time_left env deadline w4 = (Inr (), w5)"
    "reserve_operation env (Some k) w5 = (Inr res, w6)" "handle_sign_psbt env d [] w6 = (Inr response, w7)"
    "w' = snd (on_enclave env (\<lambda>st now.
       (Inr (), st\<lparr>signed_results := cache_put_at (signed_results st) k (request_digest env req) response now\<rparr>)) w7)"
proof -
  have b: "b_evm_to_rgb (sg_build env)" "\<not> b_rgb_to_evm (sg_build env)"
    using assms(2) by (simp_all add: mint_signer_def)
  have fin: "finish_sign env req (Some k) r m x = (Inr (response, res), w') \<Longrightarrow> (\<exists>w7. m x = (Inr response, w7) \<and> res = r \<and>
      w' = snd (on_enclave env (\<lambda>st now.
       (Inr (), st\<lparr>signed_results := cache_put_at (signed_results st) k (request_digest env req) response now\<rparr>)) w7))"
    for r m x by (auto simp: finish_sign_def split: prod.splits sum.splits)
  show thesis
    using assms(1) unfolding sign_uncached_def Let_def sign_validated_def mint_binder_def [symmetric]
    by (elim rpc_then_InrE)
      (auto simp: b route_validate_source_def source_commission_def and_then_Inr elim!: rpc_then_InrE dest!: fin intro: that)
qed

lemma handle_sign_mint:
  assumes "handle_sign env anchor req deadline w = (Inr (response, Some res), w')" "mint_signer (sg_build env)"
    "source_network req = Some (EvmSource s)" "destination_network req = Some (RgbDestination d)"
  obtains k w1 where "operation_key env (EvmSource s) (RgbDestination d) = Some k"
    "sign_uncached env anchor req (EvmSource s) (RgbDestination d) (Some k) deadline w1 = (Inr (response, Some res), w')"
proof -
  have b: "b_evm_to_rgb (sg_build env)" using assms(2) by (simp add: mint_signer_def)
  obtain k where k: "operation_key env (EvmSource s) (RgbDestination d) = Some k" by (simp add: operation_key_def)
  show thesis
    using assms(1) unfolding handle_sign_def Let_def assms(3,4)
    by (elim rpc_then_InrE) (auto simp: b k split: option.splits intro: that)
qed

text \<open>The deposit of a mint: the launched client verified the event of the request with its amounts, bound
  it to the lock of the mint, and the recipient that the depositor named, if any, is the recipient.\<close>

definition deposit_backs ::
  "('n, 'km, 'p) signer_env \<Rightarrow> evm_source \<Rightarrow> u64 \<Rightarrow> minted \<Rightarrow> bool" where
  "deposit_backs env s amount m \<longleftrightarrow>
    (\<exists>l client address n n' v v'. sg_launch env = Some l \<and> evm_rpc_client l = Some client \<and>
       verify_funds_in_event (keccak256 (sg_libs env)) client (funds_in_contract (sg_config env))
         (cfg_evm_finality_tag (sg_config env)) (es_tx_hash s) (funds_in_operation_id s) amount (es_commission s) n =
         (Inr address, n') \<and>
       bind_mint_deposit (keccak256 (sg_libs env)) (sg_config env) (Some (Some client)) (es_tx_hash s)
         (funds_in_operation_id s) (mint_facts.truncate m) v = (Inr (), v') \<and>
       (str_trim address = [] \<or>
        (\<exists>seal. parse_authorized_recipient (invoice_seal (sg_libs env)) address = Inr seal \<and> mf_recipient m = Blinded seal)))"

lemma verify_funds_in_deposit_Inr:
  assumes "verify_funds_in_deposit env amount (EvmSource s) (RgbDestination d) w = (Inr authorized, w')" "b_evm_rpc (sg_build env)"
  obtains l client address n n' where "sg_launch env = Some l" "evm_rpc_client l = Some client"
    "verify_funds_in_event (keccak256 (sg_libs env)) client (funds_in_contract (sg_config env))
       (cfg_evm_finality_tag (sg_config env)) (es_tx_hash s) (funds_in_operation_id s) amount (es_commission s) n =
       (Inr address, n')" "length (es_tx_hash s) = 32"
    "authorized = None \<and> str_trim address = [] \<or>
     (\<exists>seal. parse_authorized_recipient (invoice_seal (sg_libs env)) address = Inr seal \<and> authorized = Some seal)"
proof -
  show thesis
    using assms unfolding verify_funds_in_deposit_def
    by (simp, elim rpc_then_InrE)
      (auto simp: evm_tx_hash_def launched_def on_node_def and_then_Inr split: if_splits prod.splits intro: that)
qed

lemma bind_mint_Inr:
  assumes "bind_mint env (EvmSource s) facts w = (Inr (), w')" "sg_launch env = Some l" "evm_rpc_client l = Some client"
  obtains v v' where "bind_mint_deposit (keccak256 (sg_libs env)) (sg_config env) (Some (Some client)) (es_tx_hash s)
    (funds_in_operation_id s) facts v = (Inr (), v')"
  using assms unfolding bind_mint_def
  by (simp, elim rpc_then_InrE) (auto simp: evm_tx_hash_def on_node_def split: if_splits prod.splits intro: that)

lemma route_destination_rgb:
  assumes "route_validate_destination env anchor mb amount commission (RgbDestination d) w = (Inr dp, w')"
    "mint_signer (sg_build env)"
  obtains issued w1 where "anchor d amount commission mb w1 = (Inr (issued, rgb_recipient_seals dp), w')"
proof -
  have b: "b_evm_to_rgb (sg_build env)" "b_rgb_validation (sg_build env)" using assms(2) by (simp_all add: mint_signer_def)
  have "\<exists>issued. anchor d amount commission mb w = (Inr (issued, rgb_recipient_seals dp), w')"
    using assms(1) unfolding route_validate_destination_def Let_def
    by (simp add: b, elim rpc_then_InrE) (auto simp: and_then_Inr)
  then show thesis using that by blast
qed

lemma blinded_only: "blinded_seals r = [seal] \<Longrightarrow> r = Blinded seal"
  by (cases r) (auto simp: blinded_seals_def)

lemma recipient_bound:
  assumes "bind_funds_in_recipient (Some seal) dp = Inr ()" "rgb_recipient_seals dp = blinded_seals r"
  shows "r = Blinded seal"
  using assms by (intro blinded_only)
    (auto simp: bind_funds_in_recipient_def assert_recipient_authorized_def split: list.splits)

lemma handle_sign_psbt_Inr:
  assumes "handle_sign_psbt env d [] w = (Inr response, w')" "keys_stable env" "phase (w_enclave w) = Active km"
    "sign_psbt_colored (sg_libs env) = (\<lambda>km raw. sign_psbt_scoped lib km raw (Some Colored))"
    "psbt_deserialize lib (psbt_bytes d) = Some p"
  obtains p' where "signs_account lib km Colored p p'" "account_jobs lib km p Colored \<noteq> []" "phase (w_enclave w') = Active km"
    "response = SignedPsbt \<lparr>signed_psbt = psbt_serialize lib p',
       inputs_signed = of_nat (length (account_jobs lib km p Colored))\<rparr>"
proof -
  obtain out n where h: "sign_with_chain_pins_unchanged env [] (\<lambda>km. sign_psbt_colored (sg_libs env) km (psbt_bytes d)) w = (Inr (out, n), w')"
      "n \<noteq> 0" "response = SignedPsbt \<lparr>signed_psbt = out, inputs_signed = of_nat n\<rparr>"
    using assms(1) unfolding handle_sign_psbt_def
    by (elim rpc_then_InrE) (auto simp: signed_psbt_response_def split: if_splits)
  have w': "w' = interfere env w" and s: "with_active (w_enclave w') (\<lambda>km. sign_psbt_scoped lib km (psbt_bytes d) (Some Colored)) = Inr (out, n)"
    using h(1) by (auto simp: sign_with_chain_pins_unchanged_def Let_def assms(4))
  have act: "phase (w_enclave w') = Active km" using assms(2,3) w' by (simp add: keys_stable_def)
  have "sign_psbt_scoped lib km (psbt_bytes d) (Some Colored) = Inr (out, n)" using s act by (simp add: with_active_def)
  then obtain p' where "out = psbt_serialize lib p'" "signs_account lib km Colored p p'" "n = length (account_jobs lib km p Colored)"
    by (rule sign_psbt_scoped_Inr) (use assms(5) in auto)
  then show thesis using that h(2,3) act by auto
qed

lemma reserve_nonce: "reserve_operation env (Some k) w = (Inr (Some res), w') \<Longrightarrow> res_nonce res = k"
  unfolding reserve_operation_def on_enclave_def Let_def
  by (auto simp: reserve_at_def and_then_Inr map_err_Inr split: prod.splits)

lemma cache_keeps_phase:
  assumes "keys_stable env" "phase (w_enclave w) = Active km"
  shows "phase (w_enclave (snd (on_enclave env (\<lambda>st now. (Inr (), st\<lparr>signed_results := f st now\<rparr>)) w))) = Active km"
proof -
  have "keeps_keys (on_enclave env (\<lambda>st now. (Inr () :: unit enclave_result, st\<lparr>signed_results := f st now\<rparr>)))"
    by (rule keeps_enclave [OF assms(1)]) simp
  from keeps_keysD [OF this prod.collapse [symmetric] assms(2)] show ?thesis .
qed

text \<open>C2: What a mint signature stands for, in a mint signer whose other workers do not replace active keys
  and whose key manager signs the Colored account. When the handler signs a new mint (one with a
  replay reservation; a repeated request gets the cached reply), the PSBT's transaction commits
  exactly one mint of the pinned asset, of the deposited amount less the commission, to one
  recipient; it spends only the UTXO of the right that the parent fascia proves, with an input of the
  enclave's Colored account; no sat leaves beyond the pinned amount of a witness recipient, and the
  fee is bounded; the deposit was verified and bound to this mint, and a recipient that the depositor
  named is the recipient of the mint; the answer is this PSBT with signatures on Colored inputs and no
  other change; and the replay key of the deposit is reserved.\<close>

theorem signed_mint_backed_by_deposit:
  assumes "mint_signer (sg_build env)" "keys_stable env"
    and "sign_psbt_colored (sg_libs env) = (\<lambda>km raw. sign_psbt_scoped lib km raw (Some Colored))"
    and "source_network req = Some (EvmSource s)" "destination_network req = Some (RgbDestination d)"
    and "handle_sign env (validate_destination_anchor env lib rgb) req deadline w = (Inr (response, Some res), w')"
  shows "\<exists>p p' m km. mint_transaction lib rgb (sg_config env) km d p m \<and>
    unat (mf_issued m) = unat (sr_amount req) - unat (es_commission s) \<and> deposit_backs env s (sr_amount req) m \<and>
    phase (w_enclave w') = Active km \<and> signs_account lib km Colored p p' \<and> account_jobs lib km p Colored \<noteq> [] \<and>
    response = SignedPsbt \<lparr>signed_psbt = psbt_serialize lib p',
      inputs_signed = of_nat (length (account_jobs lib km p Colored))\<rparr> \<and>
    operation_key env (EvmSource s) (RgbDestination d) = Some (res_nonce res)"
proof -
  let ?anchor = "validate_destination_anchor env lib rgb"
  obtain k w0 where k: "operation_key env (EvmSource s) (RgbDestination d) = Some k"
      "sign_uncached env ?anchor req (EvmSource s) (RgbDestination d) (Some k) deadline w0 = (Inr (response, Some res), w')"
    using handle_sign_mint [OF assms(6,1,4,5)] .
  obtain authorized dp w1 w2 w3 w4 w5 w6 w7 where u:
      "verify_funds_in_deposit env (sr_amount req) (EvmSource s) (RgbDestination d) w1 = (Inr authorized, w2)"
      "route_validate_destination env ?anchor (mint_binder env deadline s) (sr_amount req) (es_commission s) (RgbDestination d) w3 = (Inr dp, w4)"
      "bind_funds_in_recipient authorized dp = Inr ()" "ensure_time_left env deadline w4 = (Inr (), w5)"
      "reserve_operation env (Some k) w5 = (Inr (Some res), w6)" "handle_sign_psbt env d [] w6 = (Inr response, w7)"
      "w' = snd (on_enclave env (\<lambda>st now.
         (Inr (), st\<lparr>signed_results := cache_put_at (signed_results st) k (request_digest env req) response now\<rparr>)) w7)"
    using sign_uncached_mint [OF k(2) assms(1)] .
  obtain issued w3' where a: "?anchor d (sr_amount req) (es_commission s) (mint_binder env deadline s) w3' = (Inr (issued, rgb_recipient_seals dp), w4)"
    using route_destination_rgb [OF u(2) assms(1)] .
  obtain p m km x where m: "mint_transaction lib rgb (sg_config env) km d p m" "phase (w_enclave w4) = Active km"
      "mf_issued m = saturating_sub (sr_amount req) (es_commission s)"
      "mint_binder env deadline s (mint_facts.truncate m) x = (Inr (), w4)" "rgb_recipient_seals dp = blinded_seals (mf_recipient m)"
    using anchor_Inr [OF a assms(2) keeps_mint_binder [OF assms(2)]] .
  have w6: "phase (w_enclave w6) = Active km"
    using m(2) keeps_keysD [OF keeps_time_left u(4)] keeps_keysD [OF keeps_reserve u(5)] assms(2) by blast
  have p: "psbt_deserialize lib (psbt_bytes d) = Some p" using m(1) by (auto simp: mint_transaction_def)
  obtain p' where p': "signs_account lib km Colored p p'" "account_jobs lib km p Colored \<noteq> []" "phase (w_enclave w7) = Active km"
      "response = SignedPsbt \<lparr>signed_psbt = psbt_serialize lib p', inputs_signed = of_nat (length (account_jobs lib km p Colored))\<rparr>"
    using handle_sign_psbt_Inr [OF u(6) assms(2) w6 assms(3) p] .
  have "b_evm_rpc (sg_build env)" using assms(1) by (simp add: mint_signer_def)
  then obtain l client address n n' where f: "sg_launch env = Some l" "evm_rpc_client l = Some client"
      "verify_funds_in_event (keccak256 (sg_libs env)) client (funds_in_contract (sg_config env))
         (cfg_evm_finality_tag (sg_config env)) (es_tx_hash s) (funds_in_operation_id s) (sr_amount req) (es_commission s) n =
         (Inr address, n')"
      "authorized = None \<and> str_trim address = [] \<or>
       (\<exists>seal. parse_authorized_recipient (invoice_seal (sg_libs env)) address = Inr seal \<and> authorized = Some seal)"
    by (rule verify_funds_in_deposit_Inr [OF u(1)]) blast
  obtain x' where "bind_mint env (EvmSource s) (mint_facts.truncate m) x' = (Inr (), w4)"
    using m(4) unfolding mint_binder_def by (rule rpc_then_InrE)
  then obtain v v' where b: "bind_mint_deposit (keccak256 (sg_libs env)) (sg_config env) (Some (Some client)) (es_tx_hash s)
      (funds_in_operation_id s) (mint_facts.truncate m) v = (Inr (), v')"
    using bind_mint_Inr f(1,2) by blast
  have "deposit_backs env s (sr_amount req) m"
    unfolding deposit_backs_def using f b u(3) m(5) recipient_bound by blast
  moreover have "unat (mf_issued m) = unat (sr_amount req) - unat (es_commission s)" unfolding m(3) by (rule unat_saturating_sub)
  moreover have "phase (w_enclave w') = Active km" unfolding u(7) by (rule cache_keeps_phase [OF assms(2) p'(3)])
  ultimately show ?thesis using m(1) p'(1,2,4) k(1) reserve_nonce [OF u(5)] by blast
qed

subsection \<open>The path of a refill\<close>

lemma refill_vouts_Inr:
  "refill_vouts V (map to_output_seal seals) = Inr V' \<Longrightarrow>
    \<exists>vs. seals = map (RevealedSeal None) vs \<and> distinct vs \<and> set vs \<inter> V = {} \<and> V' = V \<union> set vs"
proof (induction seals arbitrary: V)
  case (Cons seal seals)
  then obtain v where v: "seal = RevealedSeal None v" "v \<notin> V" "refill_vouts (insert v V) (map to_output_seal seals) = Inr V'"
    by (auto simp: and_then_Inr witness_vout_Inr split: if_splits)
  from Cons.IH [OF v(3)] obtain vs where "seals = map (RevealedSeal None) vs" "distinct vs" "set vs \<inter> insert v V = {}"
      "V' = insert v V \<union> set vs" by blast
  then show ?case using v(1,2) by (intro exI [of _ "v # vs"]) auto
qed simp

text \<open>The transition only multiplies one right: it closes one and makes the rights on the given outputs of
  its own transaction, one on each.\<close>

definition propagates :: "rgb_lib \<Rightarrow> committed_tr \<Rightarrow> rgb_opout \<Rightarrow> u32 list \<Rightarrow> bool" where
  "propagates rgb com right vs \<longleftrightarrow>
    (let t = cm_transition com in
     rt_type t = TS_PROPAGATE rgb \<and> rt_inputs t = [right] \<and> oo_ty right = OS_MINT rgb \<and> rt_globals t = [] \<and> rt_metadata t = [] \<and>
     rt_assignments t = [(OS_MINT rgb, Declarative (map (RevealedSeal None) vs))] \<and> distinct vs \<and> 2 \<le> length vs \<and> length vs \<le> 255)"

lemma refill_rights_Inr:
  assumes "refill_rights rgb com = Inr (right, vouts)"
  obtains vs where "propagates rgb com right vs" "set vouts = set vs"
proof -
  let ?t = "cm_transition com"
  have r: "rt_type ?t = TS_PROPAGATE rgb" "single_right_input rgb ?t = Inr right" "assert_rights_only rgb ?t = Inr ()"
    using assms by (auto simp: refill_rights_def Let_def and_then_Inr assert_propagate_def)
  obtain seals where a: "rt_assignments ?t = [(OS_MINT rgb, Declarative seals)]" "rt_globals ?t = []" "rt_metadata ?t = []"
    using r(3) by (auto simp: assert_rights_only_def and_then_Inr single_key split: typed_assigns.splits)
  have s: "assert_refill_rights (map to_output_seal seals) = Inr vouts"
    using assms a(1) by (auto simp: refill_rights_def Let_def and_then_Inr)
  then obtain V where V: "2 \<le> length seals" "length seals \<le> 255" "refill_vouts {} (map to_output_seal seals) = Inr V"
      "vouts = sorted_list_of_set V"
    by (auto simp: assert_refill_rights_def and_then_Inr MIN_REFILL_RIGHTS_def MAX_REFILL_RIGHTS_def)
  from refill_vouts_Inr [OF V(3)] obtain vs where "seals = map (RevealedSeal None) vs" "distinct vs" "V = set vs" by auto
  then show thesis
    using that [of vs] r(1,2) a V(1,2,4) by (simp add: propagates_def Let_def single_right_input_Inr)
qed

lemma keeps_admit: "keys_stable env \<Longrightarrow> keeps_keys (admit_refill env)"
  unfolding admit_refill_def by (rule keeps_enclave) (auto split: prod.split)

lemma sign_colored_Inr:
  assumes "sign_colored_psbt env lib raw w = (Inr response, w')" "keys_stable env" "phase (w_enclave w) = Active km"
    "psbt_deserialize lib raw = Some p"
  obtains p' where "signs_account lib km Colored p p'" "account_jobs lib km p Colored \<noteq> []" "phase (w_enclave w') = Active km"
    "response = SignedPsbt \<lparr>signed_psbt = psbt_serialize lib p',
       inputs_signed = of_nat (length (account_jobs lib km p Colored))\<rparr>"
proof -
  obtain out n where h: "with_keys env (\<lambda>km. sign_psbt_scoped lib km raw (Some Colored)) w = (Inr (out, n), w')" "n \<noteq> 0"
      "response = SignedPsbt \<lparr>signed_psbt = out, inputs_signed = of_nat n\<rparr>"
    using assms(1) unfolding sign_colored_psbt_def
    by (elim rpc_then_InrE) (auto simp: signed_psbt_response_def split: if_splits)
  have s: "sign_psbt_scoped lib km raw (Some Colored) = Inr (out, n)" "phase (w_enclave w') = Active km"
    using with_same_keys [OF assms(2) h(1) assms(3)] by simp_all
  obtain p' where "out = psbt_serialize lib p'" "signs_account lib km Colored p p'" "n = length (account_jobs lib km p Colored)"
    by (rule sign_psbt_scoped_Inr [OF s(1)]) (use assms(4) in auto)
  then show thesis using that h(2,3) s(2) by auto
qed

text \<open>C16: What a refill signature stands for, when the other workers do not replace active keys. The
  transaction commits one propagate of the pinned asset that closes one right, on the UTXO that the
  parent fascia proves, and makes 2 to 255 rights and nothing else, each alone on an output of this
  transaction that the enclave's Colored account derives; it has at most two inputs, all of them the
  enclave's Colored inputs; no sat leaves and the fee is bounded; and the answer is the PSBT of the
  request with signatures on Colored inputs and no other change.\<close>

theorem signed_refill_keeps_rights:
  assumes "keys_stable env" and "handle_sign_rights_refill env lib rgb req w = (Inr response, w')"
  shows "\<exists>p p' km pin fa com parent right vs i. psbt_deserialize lib (rr_psbt_bytes req) = Some p \<and>
    pinned_asset rgb (sg_config env) (rr_asset_id req) pin \<and>
    fascia_decode rgb (rr_fascia req) = Some fa \<and> committed_in lib rgb pin (psbt_unsigned_tx p) fa com \<and>
    propagates rgb com right vs \<and> (\<forall>v \<in> set vs. output_is_self_derived lib p (unat v) km (Some Colored)) \<and>
    fascia_decode rgb (rr_parent_fascia req) = Some parent \<and> i < length (tx_input (psbt_unsigned_tx p)) \<and>
    proves_right lib rgb pin parent right (previous_output (tx_input (psbt_unsigned_tx p) ! i)) \<and>
    length (tx_input (psbt_unsigned_tx p)) \<le> 2 \<and> only_colored lib km p \<and> sats_leaving lib km p = 0 \<and> fee_bounded lib p \<and>
    phase (w_enclave w') = Active km \<and> signs_account lib km Colored p p' \<and>
    response = SignedPsbt \<lparr>signed_psbt = psbt_serialize lib p',
      inputs_signed = of_nat (length (account_jobs lib km p Colored))\<rparr>"
proof -
  obtain p vouts w1 w2 w3 where h: "parse_psbt_shape lib (rr_psbt_bytes req) = Inr p"
      "with_keys env (refill_gate lib p) w = (Inr (), w1)" "admit_refill env w1 = (Inr (), w2)"
      "validate_rights_refill lib rgb req p (sg_config env) = Inr vouts"
      "with_keys env (assert_refill_rights_owned lib p vouts) w2 = (Inr (), w3)"
      "sign_colored_psbt env lib (rr_psbt_bytes req) w3 = (Inr response, w')"
    using assms(2) unfolding handle_sign_rights_refill_def by (elim rpc_then_InrE) auto
  obtain km where g: "phase (w_enclave w1) = Active km" "refill_gate lib p km = Inr ()" using with_keys_Inr [OF h(2)] .
  have w2: "phase (w_enclave w2) = Active km" using keeps_keysD [OF keeps_admit [OF assms(1)] h(3) g(1)] .
  have o: "assert_refill_rights_owned lib p vouts km = Inr ()" "phase (w_enclave w3) = Active km"
    using with_same_keys [OF assms(1) h(5) w2] by simp_all
  have p: "psbt_deserialize lib (rr_psbt_bytes req) = Some p" by (rule parse_psbt_shape_Inr [OF h(1)])
  obtain p' where p': "signs_account lib km Colored p p'" "phase (w_enclave w') = Active km"
      "response = SignedPsbt \<lparr>signed_psbt = psbt_serialize lib p', inputs_signed = of_nat (length (account_jobs lib km p Colored))\<rparr>"
    by (rule sign_colored_Inr [OF h(6) assms(1) o(2) p]) blast
  obtain pin com right i where v: "pinned_commitment lib rgb p (rr_fascia req) (rr_asset_id req) (sg_config env) = Inr (pin, com)"
      "refill_rights rgb com = Inr (right, vouts)" "right_input lib rgb p (rr_parent_fascia req) right pin = Inr i"
    using h(4) by (auto simp: validate_rights_refill_def and_then_Inr)
  have gate: "length (tx_input (psbt_unsigned_tx p)) \<le> 2" "only_colored lib km p" "sats_leaving lib km p = 0" "fee_bounded lib p"
    using g(2) by (auto simp: refill_gate_def and_then_Inr refill_colored_inputs_def assert_refill_input_count_def
        MAX_REFILL_FEE_INPUTS_def Let_def dest: assert_only_colored_Inr keeps_all_sats check_fee_bounded)
  obtain fa where c: "fascia_decode rgb (rr_fascia req) = Some fa" "committed_in lib rgb pin (psbt_unsigned_tx p) fa com"
      "pinned_asset rgb (sg_config env) (rr_asset_id req) pin"
    using pinned_commitment_Inr [OF v(1)] .
  obtain vs where vs: "propagates rgb com right vs" "set vouts = set vs" using refill_rights_Inr [OF v(2)] .
  have owned: "\<forall>v \<in> set vs. output_is_self_derived lib p (unat v) km (Some Colored)"
    using o(1) vs(2) by (auto simp: assert_refill_rights_owned_def for_each_Inr)
  obtain parent where q: "fascia_decode rgb (rr_parent_fascia req) = Some parent" "i < length (tx_input (psbt_unsigned_tx p))"
      "proves_right lib rgb pin parent right (previous_output (tx_input (psbt_unsigned_tx p) ! i))"
    by (rule right_input_Inr [OF v(3)]) (use spends_onceD in \<open>auto simp: spends_once_def\<close>)
  show ?thesis using p c vs(1) owned q gate p' by blast
qed

subsection \<open>A concrete mint and a concrete refill\<close>

definition demo_pin :: bytes where "demo_pin = replicate 32 8"

definition demo_txid :: "u8 \<Rightarrow> bytes" where "demo_txid c = 0x6a # demo_pin @ replicate 32 c"

definition demo_tx :: "outpoint \<Rightarrow> u8 \<Rightarrow> btc_tx" where
  "demo_tx prev c = \<lparr>tx_version = 2, tx_lock_time = 0,
    tx_input = [\<lparr>previous_output = prev, txin_script_sig = [], txin_witness = []\<rparr>],
    tx_output = [\<lparr>out_value = 0, script_pubkey = demo_txid c\<rparr>, \<lparr>out_value = 24500, script_pubkey = 0x51 # replicate 33 5\<rparr>,
      \<lparr>out_value = 24500, script_pubkey = 0x51 # replicate 33 5\<rparr>]\<rparr>"

definition demo_right :: "u8 \<Rightarrow> rgb_opout" where
  "demo_right op = \<lparr>oo_op = replicate 32 op, oo_ty = 7, oo_no = 0\<rparr>"

definition demo_propagate :: "u8 \<Rightarrow> rgb_transition" where
  "demo_propagate op = \<lparr>rt_type = 2, rt_contract_id = demo_pin, rt_inputs = [demo_right op],
    rt_assignments = [(7, Declarative [RevealedSeal None 1, RevealedSeal None 2])], rt_globals = [], rt_metadata = []\<rparr>"

definition demo_mint_transition :: rgb_transition where
  "demo_mint_transition = \<lparr>rt_type = 3, rt_contract_id = demo_pin, rt_inputs = [demo_right 2],
    rt_assignments = [(5, Fungible [(ConcealedSeal ''seal'', 95)])], rt_globals = [(1, [[95, 0, 0, 0, 0, 0, 0, 0]])],
    rt_metadata = [(4, [6, 0, 0, 0, 0, 0, 0, 0])]\<rparr>"

definition demo_fascia :: "outpoint \<Rightarrow> u8 \<Rightarrow> rgb_transition \<Rightarrow> rgb_fascia" where
  "demo_fascia prev c t = \<lparr>fa_witness_id = demo_txid c, fa_tx = demo_tx prev c, fa_entropy = Some 0,
    fa_bundles = [(demo_pin, \<lparr>known_transitions = [(replicate 32 c, t)],
      input_map = map (\<lambda>i. (i, replicate 32 c)) (rt_inputs t)\<rparr>)]\<rparr>"

definition demo_parent :: rgb_fascia where "demo_parent = demo_fascia ([], 0) 2 (demo_propagate 1)"

definition demo_mint_fascia :: rgb_fascia where
  "demo_mint_fascia = demo_fascia (demo_txid 2, 1) 3 demo_mint_transition"

definition demo_refill_fascia :: rgb_fascia where
  "demo_refill_fascia = demo_fascia (demo_txid 2, 1) 3 (demo_propagate 2)"

definition demo_rgb :: rgb_lib where
  "demo_rgb = \<lparr>fascia_decode = (\<lambda>raw. if raw = [1] then Some demo_mint_fascia else if raw = [2] then Some demo_parent
      else if raw = [3] then Some demo_refill_fascia else None),
    contract_from_str = (\<lambda>_. Some demo_pin), contract_to_string = (\<lambda>_. ''asset''),
    transition_id = (\<lambda>t. map (\<lambda>b. b + 1) (oo_op (rt_inputs t ! 0))), bundle_id = (\<lambda>b. snd (input_map b ! 0)),
    mpc_commit = (\<lambda>m _. case m of [(c, b)] \<Rightarrow> if length c = 32 then Some (c @ b) else None | _ \<Rightarrow> None),
    opret_verify = (\<lambda>c tx. script_pubkey (tx_output tx ! 0) = 0x6a # c), lock_id_with = (\<lambda>_ _. replicate 32 4),
    TS_MINT = 3, TS_PROPAGATE = 2, OS_MINT = 7, OS_ASSET = 5, GS_ISSUED_SUPPLY = 1, MS_BEFORE_BLOCK = 4\<rparr>"

definition demo_mint_psbt :: psbt where
  "demo_mint_psbt = \<lparr>psbt_unsigned_tx = demo_tx (demo_txid 2, 1) 3, psbt_inputs = [demo_input 827167],
    psbt_outputs = \<lparr>po_tap_tree = None, po_tap_internal_key = None, po_tap_key_origins = []\<rparr> #
      replicate 2 \<lparr>po_tap_tree = None, po_tap_internal_key = Some [7], po_tap_key_origins = demo_origins 827167\<rparr>\<rparr>"

definition demo_mint_lib :: "(unit, unit) psbt_lib" where
  "demo_mint_lib = demo_psbt_lib\<lparr>psbt_deserialize := (\<lambda>_. Some demo_mint_psbt),
    compute_txid := (\<lambda>tx. script_pubkey (tx_output tx ! 0))\<rparr>"

lemmas demo_rgb_sel = demo_rgb_def demo_mint_lib_def demo_psbt_lib_def demo_pin_def demo_txid_def demo_tx_def

lemma demo_commits:
  assumes "rt_inputs t = [demo_right op]" "rt_contract_id t = demo_pin" "c = op + 1"
  shows "committed_transition demo_mint_lib demo_rgb (demo_tx prev c) (demo_fascia prev' c t) demo_pin =
    Inr \<lparr>cm_txid = demo_txid c, cm_opid = replicate 32 c, cm_transition = t\<rparr>"
  using assms unfolding committed_transition_exact committed_in_def opret_hosted_def
  by (auto simp: demo_fascia_def demo_rgb_sel demo_right_def intro!: exI [of _ 0])

lemma demo_binds: "commitments_bind demo_rgb {demo_mint_fascia, demo_parent}"
  unfolding commitments_bind_def fascia_bundles_def
  by (auto simp: demo_mint_fascia_def demo_parent_def demo_fascia_def demo_rgb_def demo_mint_transition_def demo_propagate_def
      demo_right_def inj_on_def split: list.splits if_splits prod.splits)


lemma demo_fascias:
  "fascia_decode demo_rgb [1] = Some demo_mint_fascia" "fascia_decode demo_rgb [2] = Some demo_parent"
  "fascia_decode demo_rgb [3] = Some demo_refill_fascia"
  by (simp_all add: demo_rgb_def)

lemma demo_parse_fascia: "fascia_decode demo_rgb [b] = Some fa \<Longrightarrow> parse_fascia demo_rgb [b] = Inr fa"
  by (simp add: parse_fascia_def check_psbt_size_def MAX_PSBT_BYTES_def)

lemma demo_right_input: "right_input demo_mint_lib demo_rgb demo_mint_psbt [2] (demo_right 2) demo_pin = Inr 0"
proof -
  have "fa_tx demo_parent = demo_tx ([], 0) 2" by (simp add: demo_parent_def demo_fascia_def)
  then have c: "committed_transition demo_mint_lib demo_rgb (fa_tx demo_parent) demo_parent demo_pin =
      Inr \<lparr>cm_txid = demo_txid 2, cm_opid = replicate 32 2, cm_transition = demo_propagate 1\<rparr>"
    unfolding demo_parent_def by (simp add: demo_commits [of _ 1] demo_propagate_def)
  have "right_vout demo_rgb \<lparr>cm_txid = demo_txid 2, cm_opid = replicate 32 2, cm_transition = demo_propagate 1\<rparr> (demo_right 2) = Inr 1"
    by (simp add: right_vout_def demo_rgb_def demo_right_def demo_propagate_def single_right_input_def witness_vout_def
        to_output_seal_def assert_alone_on_def seal_outpoint_def unwrap_or_def)
  moreover have "spending_input demo_mint_psbt (demo_txid 2, 1) = Inr 0"
    by (simp add: spending_input_def demo_mint_psbt_def demo_tx_def)
  ultimately show ?thesis by (simp add: right_input_def demo_parse_fascia demo_fascias c)
qed


lemma demo_resolves:
  "resolve_account_and_child_path demo_keys (demo_path 827167) = Some (Colored, [NormalChild 0, NormalChild 0])"
  by (simp add: resolve_account_and_child_path_def demo_path_def demo_keys_def)

lemma demo_keys_sel: "master_fingerprint demo_keys = [1, 2, 3, 4]"
  by (simp add: demo_keys_def)

lemma demo_colored:
  "find_controlled_taproot_inputs demo_mint_lib demo_keys demo_mint_psbt =
    [\<lparr>input_index = 0, xonly_pubkey = [7], job_merkle_root = None, job_account = Colored,
      job_child_path = [NormalChild 0, NormalChild 0]\<rparr>]"
  by (simp add: find_controlled_taproot_inputs_def controlled_job_def key_path_job_def demo_mint_lib_def demo_psbt_lib_def
      demo_mint_psbt_def demo_input_def demo_origins_def demo_resolves demo_keys_sel derive_btc_child_def map_filter_simps)

lemma demo_mint_derived:
  assumes "i = Suc 0 \<or> i = Suc (Suc 0)" "scope = None \<or> scope = Some Colored"
  shows "output_is_self_derived demo_mint_lib demo_mint_psbt i demo_keys scope"
  using assms
  by (auto simp: output_is_self_derived_def derived_output_def demo_mint_lib_def demo_psbt_lib_def demo_mint_psbt_def demo_tx_def
      demo_origins_def demo_resolves demo_keys_sel derive_btc_child_def is_wallet_child_path_def COLORED_KEYCHAIN_def)

lemma psbt_unsigned_tx_demo: "psbt_unsigned_tx demo_mint_psbt = demo_tx (demo_txid 2, 1) 3"
  by (simp add: demo_mint_psbt_def)

lemma demo_mint_unowned: "unowned_output_sats demo_mint_lib demo_mint_psbt {} demo_keys = Some 0"
proof -
  have "\<exists>room. input_room {} [] (List.map_filter witness_utxo (psbt_inputs demo_mint_psbt)) = Some room \<and> room = []"
    by (simp add: demo_mint_psbt_def demo_input_def map_filter_simps)
  then show ?thesis
    using demo_mint_derived [of "Suc 0" None] demo_mint_derived [of "Suc (Suc 0)" None]
    by (auto simp: unowned_output_sats_def demo_tx_def checked_add_def psbt_unsigned_tx_demo)
qed

lemma demo_mint_fee: "check_psbt_fee demo_mint_lib demo_mint_psbt [0] = Inr ()"
proof -
  have "estimated_signed_vsize demo_mint_lib demo_mint_psbt [0] = Inr 117"
    by (simp add: estimated_signed_vsize_def demo_btc_defs demo_mint_lib_def demo_mint_psbt_def demo_tx_def checked_mul_def
        checked_add_def input_size_def spend_size_def taproot_witness_size_def witness_size_def item_size_def compact_size_def)
  moreover have "psbt_fee demo_mint_lib demo_mint_psbt = Some 1000" "tx_vsize demo_mint_lib (psbt_unsigned_tx demo_mint_psbt) = 100"
    by (simp_all add: demo_mint_lib_def demo_psbt_lib_def)
  ultimately show ?thesis
    by (simp add: check_psbt_fee_def checked_mul_def MAX_FEE_SATS_def MAX_FEE_RATE_SAT_VB_def MIN_FEE_RATE_SAT_VB_def)
qed

lemma demo_mint_shape:
  "psbt_deserialize demo_mint_lib raw = Some demo_mint_psbt" "check_psbt_size [1] = Inr ()"
  "parse_psbt_shape demo_mint_lib [1] = Inr demo_mint_psbt" "assert_txid_and_sighash_fixed demo_mint_lib demo_mint_psbt = Inr ()"
  "assert_mint_shape demo_mint_psbt = Inr ()"
  by (simp_all add: parse_psbt_shape_def check_psbt_size_def MAX_PSBT_BYTES_def demo_mint_lib_def demo_mint_psbt_def demo_tx_def
      assert_txid_and_sighash_fixed_def assert_native_segwit_inputs_def assert_sighash_all_def demo_input_def demo_psbt_lib_def
      assert_mint_shape_def MINT_MAX_INPUTS_def MINT_MAX_OUTPUTS_def)

lemma demo_mint_signs: "\<exists>out. sign_psbt_scoped demo_mint_lib demo_keys [1] (Some Colored) = Inr (out, 1)"
  by (simp add: sign_psbt_scoped_def demo_mint_shape find_taproot_sign_jobs_def demo_colored sign_taproot_inputs_def)
    (simp add: demo_btc_defs demo_mint_lib_def demo_mint_psbt_def sign_job_def tap_sighash_def unwrap_or_def derive_btc_child_def)

definition demo_mint_env :: "(nat, unit key_manager, unit) signer_env" where
  "demo_mint_env = \<lparr>sg_build = \<lparr>b_evm_to_rgb = True, b_rgb_to_evm = False, b_rgb_validation = True, b_spv = True,
      b_bfa_mint = True, b_evm_rpc = True, b_ccd = False, b_debug_assertions = False\<rparr>,
    sg_config = demo_mint_config,
    sg_launch = Some \<lparr>launch_policy = DevelopmentPolicy IndexerTrusted, rgb_validator = None, evm_rpc_client = Some (demo_node 9)\<rparr>,
    sg_libs = demo_sign_libs\<lparr>sign_psbt_colored := (\<lambda>km raw. sign_psbt_scoped demo_mint_lib km raw (Some Colored))\<rparr>,
    interfere = id, system_now = (\<lambda>_. 0), instant_now = (\<lambda>_. 0)\<rparr>"

definition demo_mint_world :: "nat \<Rightarrow> (nat, unit key_manager) world" where
  "demo_mint_world t = \<lparr>w_node = t, w_chain = demo_chain0, w_enclave = (enclave_state_new 0 0)\<lparr>phase := Active demo_keys\<rparr>\<rparr>"

lemma demo_mint_env_sel:
  "sg_config demo_mint_env = demo_mint_config" "interfere demo_mint_env = id" "system_now demo_mint_env = (\<lambda>_. 0)"
  "instant_now demo_mint_env = (\<lambda>_. 0)" "keccak256 (sg_libs demo_mint_env) = demo_keccak"
  "sign_psbt_colored (sg_libs demo_mint_env) = (\<lambda>km raw. sign_psbt_scoped demo_mint_lib km raw (Some Colored))"
  "psbt_input_count (sg_libs demo_mint_env) = (\<lambda>_. Some 1)" "mint_signer (sg_build demo_mint_env)" "keys_stable demo_mint_env"
  "sg_launch demo_mint_env = Some \<lparr>launch_policy = DevelopmentPolicy IndexerTrusted, rgb_validator = None, evm_rpc_client = Some (demo_node 9)\<rparr>"
  by (simp_all add: demo_mint_env_def demo_sign_libs_def mint_signer_def keys_stable_def)

lemma demo_with_keys: "with_keys demo_mint_env f (demo_mint_world t) = (f demo_keys, demo_mint_world t)"
  by (simp add: with_keys_def on_enclave_def with_active_def demo_mint_env_sel demo_mint_world_def)

lemma demo_pinned:
  assumes "fascia_decode demo_rgb [b] = Some (demo_fascia (demo_txid 2, 1) 3 t)" "rt_inputs t = [demo_right 2]" "rt_contract_id t = demo_pin"
  shows "pinned_commitment demo_mint_lib demo_rgb demo_mint_psbt [b] ''asset'' demo_mint_config =
    Inr (demo_pin, \<lparr>cm_txid = demo_txid 3, cm_opid = replicate 32 3, cm_transition = t\<rparr>)"
proof -
  have cfg: "rgb_asset_id demo_mint_config = ''asset''" "contract_from_str demo_rgb = (\<lambda>_. Some demo_pin)"
      "contract_to_string demo_rgb = (\<lambda>_. ''asset'')" "psbt_unsigned_tx demo_mint_psbt = demo_tx (demo_txid 2, 1) 3"
    by (simp_all add: demo_mint_config_def demo_rgb_def demo_mint_psbt_def)
  show ?thesis
    by (simp add: pinned_commitment_def pinned_contract_def cfg demo_parse_fascia [OF assms(1)] assert_asset_binding_def
        demo_commits [OF assms(2,3)])
qed

subsubsection \<open>The refill\<close>

definition demo_refill :: sign_rights_refill_request where
  "demo_refill = \<lparr>rr_psbt_bytes = [1], rr_asset_id = ''asset'', rr_fascia = [3], rr_parent_fascia = [2]\<rparr>"

lemma demo_refill_gate: "refill_gate demo_mint_lib demo_mint_psbt demo_keys = Inr ()"
proof -
  have "length (tx_input (psbt_unsigned_tx demo_mint_psbt)) = 1" "length (psbt_inputs demo_mint_psbt) = 1"
    by (simp_all add: demo_mint_psbt_def demo_tx_def)
  then show ?thesis
    by (simp add: refill_gate_def assert_refill_input_count_def MAX_REFILL_FEE_INPUTS_def refill_colored_inputs_def demo_colored
        fee_key_path_inputs_of_def assert_only_colored_inputs_def assert_keeps_all_sats_def demo_mint_unowned demo_mint_fee)
qed

lemma demo_refill_valid: "validate_rights_refill demo_mint_lib demo_rgb demo_refill demo_mint_psbt demo_mint_config = Inr [1, 2]"
proof -
  have "refill_rights demo_rgb \<lparr>cm_txid = demo_txid 3, cm_opid = replicate 32 3, cm_transition = demo_propagate 2\<rparr> =
      Inr (demo_right 2, [1, 2])"
    by (simp add: refill_rights_def demo_propagate_def assert_propagate_def demo_rgb_def single_right_input_def demo_right_def
        assert_rights_only_def assert_refill_rights_def MIN_REFILL_RIGHTS_def MAX_REFILL_RIGHTS_def to_output_seal_def witness_vout_def)
      (simp add: word_le_nat_alt)
  moreover have "pinned_commitment demo_mint_lib demo_rgb demo_mint_psbt [3] ''asset'' demo_mint_config =
      Inr (demo_pin, \<lparr>cm_txid = demo_txid 3, cm_opid = replicate 32 3, cm_transition = demo_propagate 2\<rparr>)"
    by (rule demo_pinned) (simp_all add: demo_fascias demo_refill_fascia_def demo_propagate_def)
  ultimately show ?thesis
    by (simp add: validate_rights_refill_def demo_refill_def demo_mint_shape demo_right_input)
qed

lemma demo_refill_signed:
  "\<exists>response w'. handle_sign_rights_refill demo_mint_env demo_mint_lib demo_rgb demo_refill (demo_mint_world 0) = (Inr response, w')"
proof -
  obtain out where s: "sign_psbt_scoped demo_mint_lib demo_keys [1] (Some Colored) = Inr (out, 1)" using demo_mint_signs by blast
  have owned: "assert_refill_rights_owned demo_mint_lib demo_mint_psbt [1, 2] demo_keys = Inr ()"
    by (simp add: assert_refill_rights_owned_def demo_mint_derived flip: numeral_2_eq_2)
  have keys: "with_keys demo_mint_env f w = (f demo_keys, w)" if "phase (w_enclave w) = Active demo_keys" for f and w :: "(nat, unit key_manager) world"
    using that by (simp add: with_keys_def on_enclave_def with_active_def demo_mint_env_sel)
  obtain w2 where w2: "admit_refill demo_mint_env (demo_mint_world 0) = (Inr (), w2)" "phase (w_enclave w2) = Active demo_keys"
    by (simp add: admit_refill_def on_enclave_def demo_mint_env_sel demo_mint_world_def enclave_state_new_def refill_admit_def
        MAX_REFILLS_PER_HOUR_def)
  have raw: "rr_psbt_bytes demo_refill = [1]" by (simp add: demo_refill_def)
  show ?thesis
    using w2 by (simp add: handle_sign_rights_refill_def rpc_then_def raw demo_mint_shape(3) demo_with_keys demo_refill_gate
        demo_refill_valid demo_mint_env_sel keys owned sign_colored_psbt_def s signed_psbt_response_def)
qed

theorem signed_refill_keeps_rights_witness:
  "\<exists>com right vs. propagates demo_rgb com right vs \<and> sats_leaving demo_mint_lib demo_keys demo_mint_psbt = 0"
proof -
  obtain response w' where r: "handle_sign_rights_refill demo_mint_env demo_mint_lib demo_rgb demo_refill (demo_mint_world 0) = (Inr response, w')"
    using demo_refill_signed by blast
  show ?thesis
    using signed_refill_keeps_rights [OF demo_mint_env_sel(9) r] demo_mint_unowned unowned_sats_leaving by fastforce
qed

subsubsection \<open>The mint\<close>

definition demo_mint_source :: evm_source where
  "demo_mint_source = \<lparr>es_tx_hash = replicate 32 7, event_valid = True, event_finalized = True, es_token = [], es_recipient = [],
    es_commission = 5, funds_in_operation_id = replicate 32 224\<rparr>"

definition demo_mint_destination :: rgb_destination where
  "demo_mint_destination = \<lparr>operation_idx = 0, psbt_bytes = [1], psbt_output_amount = 0, rd_asset_id = ''asset'', rd_consignment = [],
    rd_consignment_hash = [], fascia = [1], parent_fascia = [2]\<rparr>"

definition demo_mint_request :: sign_request where
  "demo_mint_request = \<lparr>sr_amount = 100, source_network = Some (EvmSource demo_mint_source),
    destination_network = Some (RgbDestination demo_mint_destination)\<rparr>"

lemma demo_request_sel:
  "es_tx_hash demo_mint_source = replicate 32 7" "es_commission demo_mint_source = 5"
  "funds_in_operation_id demo_mint_source = replicate 32 224" "psbt_bytes demo_mint_destination = [1]"
  "rd_asset_id demo_mint_destination = ''asset''" "fascia demo_mint_destination = [1]" "parent_fascia demo_mint_destination = [2]"
  "sr_amount demo_mint_request = 100" "source_network demo_mint_request = Some (EvmSource demo_mint_source)"
  "destination_network demo_mint_request = Some (RgbDestination demo_mint_destination)"
  by (simp_all add: demo_mint_source_def demo_mint_destination_def demo_mint_request_def)

definition demo_minted :: minted where
  "demo_minted = \<lparr>mf_opid = replicate 32 3, mf_lock_id = replicate 32 4, mf_issued = 95, mf_before_block = 6,
    mf_right = demo_right 2, mf_recipient = Blinded ''seal''\<rparr>"

lemma demo_facts:
  "mint_facts_of demo_rgb \<lparr>cm_txid = demo_txid 3, cm_opid = replicate 32 3, cm_transition = demo_mint_transition\<rparr> = Inr demo_minted"
  by (simp add: mint_facts_of_def demo_rgb_def demo_mint_transition_def assert_mint_type_def is_signing_transition_def
      is_mint_transition_def single_right_input_def demo_right_def assert_asset_assignments_only_def mint_globals_def
      single_global_def before_block_def unwrap_or_def one_asset_leg_def demo_minted_def)

lemma demo_anchor:
  "validate_destination_anchor demo_mint_env demo_mint_lib demo_rgb demo_mint_destination 100 5 mb (demo_mint_world t) =
    rpc_then (mb (demo_mint (replicate 32 3))) (\<lambda>_. rpc_lift (Inr (95, [''seal'']))) (demo_mint_world t)"
proof -
  have c: "pinned_commitment demo_mint_lib demo_rgb demo_mint_psbt [1] ''asset'' demo_mint_config =
      Inr (demo_pin, \<lparr>cm_txid = demo_txid 3, cm_opid = replicate 32 3, cm_transition = demo_mint_transition\<rparr>)"
    by (rule demo_pinned) (simp_all add: demo_fascias demo_mint_fascia_def demo_mint_transition_def)
  have n: "length (tx_input (psbt_unsigned_tx demo_mint_psbt)) = 1" "length (psbt_inputs demo_mint_psbt) = 1"
    by (simp_all add: demo_mint_psbt_def demo_tx_def)
  have i: "mint_inputs demo_mint_env demo_mint_lib demo_mint_psbt (demo_mint_world t) = (Inr [0], demo_mint_world t)"
    by (simp add: mint_inputs_def rpc_then_def n MINT_INPUTS_def demo_with_keys fee_key_path_inputs_scoped_def demo_colored
        fee_key_path_inputs_of_def assert_only_colored_inputs_def)
  have m: "mf_issued demo_minted = 95" "mf_right demo_minted = demo_right 2" "mf_recipient demo_minted = Blinded ''seal''"
      "mint_facts.truncate demo_minted = demo_mint (replicate 32 3)"
    by (simp_all add: demo_minted_def demo_mint_def mint_facts.truncate_def)
  show ?thesis
    by (simp add: validate_destination_anchor_def rpc_then_def demo_request_sel demo_mint_shape demo_mint_env_sel c demo_facts
        assert_mints_net_deposit_def assert_group_amount_def m saturating_sub_def i demo_right_input demo_mint_fee demo_with_keys
        assert_mint_sats_def assert_keeps_all_sats_def demo_mint_unowned blinded_seals_def split: prod.split sum.split)
qed

lemma demo_world_node: "(demo_mint_world t)\<lparr>w_node := t'\<rparr> = demo_mint_world t'" "w_node (demo_mint_world t) = t"
  by (simp_all add: demo_mint_world_def)

lemma demo_time: "ensure_time_left demo_mint_env 2 w = (Inr (), w)"
  by (simp add: ensure_time_left_def rpc_then_def observe_def demo_mint_env_sel)

lemma demo_deposit_verified:
  "verify_funds_in_deposit demo_mint_env 100 (EvmSource demo_mint_source) (RgbDestination demo_mint_destination) (demo_mint_world 0) =
    (Inr None, demo_mint_world 4)"
proof -
  have c: "funds_in_contract demo_mint_config = replicate 20 1" "cfg_evm_finality_tag demo_mint_config = Finalized"
    by (simp_all add: demo_mint_config_def bridge_config_default_def)
  have b: "b_evm_rpc (sg_build demo_mint_env)" by (simp add: demo_mint_env_def)
  show ?thesis
    by (simp add: verify_funds_in_deposit_def b rpc_then_def evm_tx_hash_def demo_request_sel launched_def demo_mint_env_sel on_node_def
        c demo_verified demo_world_node str_trim_def)
qed

lemma demo_binder:
  "mint_binder demo_mint_env 2 demo_mint_source (demo_mint opid) (demo_mint_world 4) = (Inr (), demo_mint_world 9)"
  by (simp add: mint_binder_def rpc_then_def demo_time bind_mint_def evm_tx_hash_def demo_request_sel on_node_def demo_mint_env_sel
      demo_bound demo_world_node)

lemma demo_mint_uncached:
  "\<exists>response res w'. sign_uncached demo_mint_env (validate_destination_anchor demo_mint_env demo_mint_lib demo_rgb) demo_mint_request
    (EvmSource demo_mint_source) (RgbDestination demo_mint_destination) (Some k) 2 (demo_mint_world 0) = (Inr (response, Some res), w')"
proof -
  obtain out where s: "sign_psbt_scoped demo_mint_lib demo_keys [1] (Some Colored) = Inr (out, 1)" using demo_mint_signs by blast
  have b: "b_evm_to_rgb (sg_build demo_mint_env)" "\<not> b_rgb_to_evm (sg_build demo_mint_env)" "b_rgb_validation (sg_build demo_mint_env)"
    by (simp_all add: demo_mint_env_def)
  have pre: "precheck_operation demo_mint_env (Some k) (demo_mint_world 0) = (Inr (), demo_mint_world 0)"
    by (simp add: precheck_operation_def on_enclave_def demo_mint_env_sel demo_mint_world_def enclave_state_new_def guard_check_def
        with_capacity_def map_err_def)
  obtain res w6 where r: "reserve_operation demo_mint_env (Some k) (demo_mint_world 9) = (Inr (Some res), w6)"
      "phase (w_enclave w6) = Active demo_keys"
    by (simp add: reserve_operation_def on_enclave_def demo_mint_env_sel demo_mint_world_def enclave_state_new_def reserve_at_def
        check_and_record_at_def with_capacity_def checked_add_def map_err_def)
  have sgn: "handle_sign_psbt demo_mint_env demo_mint_destination [] w6 =
      (Inr (SignedPsbt \<lparr>signed_psbt = out, inputs_signed = of_nat 1\<rparr>), w6)"
    by (simp add: handle_sign_psbt_def rpc_then_def sign_with_chain_pins_unchanged_def with_active_def demo_mint_env_sel r(2)
        demo_request_sel s signed_psbt_response_def)
  have dst: "route_validate_destination demo_mint_env (validate_destination_anchor demo_mint_env demo_mint_lib demo_rgb)
      (mint_binder demo_mint_env 2 demo_mint_source) 100 5 (RgbDestination demo_mint_destination) (demo_mint_world 4) =
      (Inr \<lparr>dp_proof = \<lparr>rp_amount = 100, rp_operation_id = None\<rparr>, evm_funds_out = None, evm_release_identity = None,
        rgb_recipient_seals = [''seal'']\<rparr>, demo_mint_world 9)"
    by (simp add: route_validate_destination_def b rpc_then_def validate_psbt_bytes_def demo_mint_env_sel demo_request_sel demo_mint_shape
        demo_anchor demo_binder checked_add_def)
  have mb: "(\<lambda>facts. rpc_then (ensure_time_left demo_mint_env 2) (\<lambda>_. bind_mint demo_mint_env (EvmSource demo_mint_source) facts)) =
      mint_binder demo_mint_env 2 demo_mint_source"
    by (simp add: mint_binder_def fun_eq_iff)
  show ?thesis
    unfolding sign_uncached_def Let_def mb
    by (simp add: b rpc_then_def pre demo_request_sel demo_deposit_verified demo_time route_validate_source_def
        evm_validate_source_def HASH_LEN_def source_commission_def dst validate_route_proofs_def
        validate_amount_covers_destination_def bind_funds_in_recipient_def r(1) finish_sign_def sign_validated_def sgn)
qed

lemma demo_mint_signed:
  "\<exists>response res w'. handle_sign demo_mint_env (validate_destination_anchor demo_mint_env demo_mint_lib demo_rgb) demo_mint_request 2
    (demo_mint_world 0) = (Inr (response, Some res), w')"
proof -
  obtain k where k: "operation_key demo_mint_env (EvmSource demo_mint_source) (RgbDestination demo_mint_destination) = Some k"
    by (simp add: operation_key_def)
  have b: "b_evm_to_rgb (sg_build demo_mint_env)" "\<not> b_rgb_to_evm (sg_build demo_mint_env)" "b_evm_rpc (sg_build demo_mint_env)"
    by (simp_all add: demo_mint_env_def)
  have miss: "cache_get_at (signed_results (w_enclave (demo_mint_world 0))) k x now = None" for x now
    by (simp add: demo_mint_world_def enclave_state_new_def cache_with_capacity_def cache_get_at_def)
  have act: "phase (w_enclave (demo_mint_world 0)) = Active demo_keys" by (simp add: demo_mint_world_def)
  show ?thesis
    using demo_mint_uncached [of k]
    by (simp add: handle_sign_def demo_request_sel rpc_then_def check_signer_role_def b k on_enclave_def with_active_def act miss
        demo_mint_env_sel)
qed

theorem signed_mint_backed_by_deposit_witness:
  "\<exists>p m km. mint_transaction demo_mint_lib demo_rgb demo_mint_config km demo_mint_destination p m \<and> unat (mf_issued m) = 95 \<and>
    deposit_backs demo_mint_env demo_mint_source 100 m"
proof -
  obtain response res w' where h: "handle_sign demo_mint_env (validate_destination_anchor demo_mint_env demo_mint_lib demo_rgb)
      demo_mint_request 2 (demo_mint_world 0) = (Inr (response, Some res), w')"
    using demo_mint_signed by blast
  from signed_mint_backed_by_deposit [OF demo_mint_env_sel(8,9,6) demo_request_sel(9,10) h]
  show ?thesis by (auto simp: demo_mint_env_sel demo_request_sel)
qed

end
