(* ===== verification/Spec2Isabelle.thy ===== *)
theory Spec2Isabelle
  imports Server_Health Security_Policy Gas_Tx Ber_Der Framing Sign_Safety Mint_Safety
begin

text \<open>
  \<^bold>\<open>The enclave signer of the UTEXO bridge.\<close>

  The program runs in an AWS Nitro enclave and holds one seed. A parent process on the host relays
  requests to it. The mint signer turns a deposit on an EVM chain into a signed Bitcoin transaction
  that mints an RGB asset; the burn signer turns a burn of that asset into a signed EVM release. The
  enclave trusts neither the parent nor the node it reads: it checks Bitcoin headers and Merkle proofs
  itself, reads EVM receipts itself, validates RGB consignments, and attests its keys and its policy.
  All source paths are under \<open>src/\<close>; a path without a crate is under \<open>src/enclave/src/\<close>.

  \<^bold>\<open>Shared vocabulary.\<close>
  \<^item> \<open>Signer_Prelude\<close>: Rust integers as words (plain operators wrap, as in the release profile;
    \<open>checked_*\<close> and \<open>saturating_*\<close> are written out), \<open>Result\<close> as a sum with \<open>and_then\<close>, byte orders, hash
    maps as association lists, instants and system time. The collections \<open>result_simps\<close> and \<open>int_ops\<close>
    carry the component proofs. \<open>Rust_Text\<close>: strings as their UTF-8 bytes, parsers of numbers.
    \<open>Enclave_Error\<close>: the errors and their wire codes (\<open>error.rs\<close>). \<open>Evm_Rpc\<close>: the EVM node as a provider
    whose state changes between calls.

  \<^bold>\<open>State of the enclave\<close> (\<open>state/\<close>).
  \<^item> \<open>Replay_Guard\<close> (\<open>replay_guard.rs\<close>): the expiring map and queue with its reservations. The locale
    \<open>reservation_store\<close> is interpreted on the guard; map and queue agree in every reachable
    state, a reserved key is refused until it expires, a dropped reservation frees it.
  \<^item> \<open>Result_Cache\<close> (\<open>result_cache.rs\<close>), \<open>Rate_Limits\<close> (\<open>refill_rate.rs\<close>, \<open>server/rate_limit.rs\<close>).
  \<^item> \<open>Enclave_Phase\<close> (\<open>enclave.rs\<close>, \<open>cloning_session.rs\<close>, the secret rule of \<open>cloning.rs\<close>): the phase machine
    as an inductive step relation; keys once active are never replaced, exports stay under their cap
    under every interleaving, seed recovery ends active or back in the initial phase.

  \<^bold>\<open>Bitcoin headers\<close> (\<open>networks/rgb/spv/\<close>, \<open>networks/rgb/spv_crosscheck.rs\<close>, \<open>server/spv.rs\<close>).
  \<^item> \<open>Header_Rules\<close>, \<open>Header_Chain\<close>: per-header rules, the store of headers and \<open>submit_headers\<close>, exactly; an
    accepted reorganisation is bounded and heavier; the rules never miss a header they read.
  \<^item> \<open>Merkle_Proof\<close>, \<open>Spv_Crosscheck\<close>: inclusion proofs, and the pins that are checked again at signing time.
  \<^item> \<open>Server_Health\<close>: the readiness probe against the precondition of signing.

  \<^bold>\<open>Configuration and policy.\<close>
  \<^item> \<open>Bridge_Config\<close> (\<open>config.rs\<close>), \<open>Security_Policy\<close> (\<open>policy.rs\<close>), \<open>Attested_Policy\<close>
    (\<open>attestation-verify/src/policy.rs\<close>): the environment, the launch gate and the canonical encoding. The
    locale of codecs gives exactness of the decoder field by field.

  \<^bold>\<open>EVM side\<close> (\<open>networks/evm/\<close>).
  \<^item> \<open>Evm_Events\<close>: the deposit behind a mint. \<open>Evm_Release\<close>, \<open>Release_Digest\<close>: calldata checks and EIP-712
    digests; equal digests come from equal releases. \<open>Funds_Out_Crosscheck\<close>, \<open>Release_Settlement\<close>: the burn
    that a release settles. \<open>Reject_List\<close>: the paged list read and its decisions. \<open>Gas_Tx\<close>: the RLP decoder
    and the allowlist of the gas key.

  \<^bold>\<open>Signing.\<close>
  \<^item> \<open>Sign_Request\<close>, \<open>Rgb_Source\<close>, \<open>Sign_Flow\<close>, \<open>Sign_Safety\<close>: the messages, the checks of an RGB source, and
    \<open>handle_sign\<close> (\<open>server/sign.rs\<close>, \<open>server/signers.rs\<close>, \<open>networks/route.rs\<close>) over a world that other
    workers change between locked sections (\<open>interfere\<close>). A signed release is backed by the whole path.
  \<^item> \<open>Btc_Psbt\<close>, \<open>Btc_Signing\<close>: PSBTs, the inputs the keys control, custody of outputs, fees, the plain-BTC,
    raw-digest and CCD handlers.
  \<^item> \<open>Mint_Rules\<close>, \<open>Mint_Safety\<close>: the commitment of a transaction to its transition (\<open>psbt_commit.rs\<close>), the
    parent proof, the mint and the rights-refill rule. A signed mint is backed by its deposit.

  \<^bold>\<open>Formats.\<close> \<open>Framing\<close> (\<open>framing.rs\<close>) and \<open>Ber_Der\<close> (\<open>kms/ber.rs\<close>).
  \<^bold>\<open>Parameters and hypotheses.\<close> Hashes, curves, BIP-32, the ABI codec, the \<open>bitcoin\<close> crate, RGB consensus,
  protobuf primitives and the EVM node are functions of parameter records. A theorem that needs a law
  of one of them (no collision among the inputs, a decoder that inverts its encoder, a node that serves
  one chain) names it as a hypothesis, and its witness instantiates the parameter.

  \<^bold>\<open>Bounds and fuel.\<close> Loops are structural recursions, or functions with a termination proof: the RLP and
  BER parsers recurse on the remaining bytes and carry the depth limit of the code; the list read is
  bounded by its page budget. No result is conditional on fuel.

  \<^bold>\<open>Concurrency.\<close> A locked section is one step. The lifecycle, the guards and the export quota are step
  relations with every interleaving; the signing handler sees an arbitrary change of the world between
  two sections.

  \<^bold>\<open>Not modelled.\<close> Sockets, TLS, threads, logging and clock discipline (\<open>conn.rs\<close>, \<open>egress.rs\<close>,
  \<open>vsock_forwarder.rs\<close>, \<open>clocksync.rs\<close>, \<open>server/wire.rs\<close>), since they are input and output; the parser of
  operator endpoints; AWS KMS and the seed broker (\<open>kms/\<close>, \<open>seed_persistence.rs\<close>), a protocol with outside
  services of which \<open>Enclave_Phase\<close> keeps the outcome; RGB consensus and the indexer, which are libraries;
  the byte budget of \<open>memory.rs\<close>; zeroing of secrets, which has no effect on values; the cloning
  handlers and the verifier of attestation documents; and the parent crate, which the enclave does not
  trust.
\<close>

end
